(* ===== verification/Prelude.thy ===== *)
theory Prelude
  imports Main "HOL-Library.Word"
begin

text \<open>
  Shared vocabulary of the development. It holds

  \<^item> the machine types of the Go sources (\<open>byte\<close>, \<open>uint32\<close>, \<open>uint64\<close>) and the
    signed 64-bit wrap-around \<open>wrap64\<close> of Go's \<open>int\<close> and \<open>int64\<close>; Go's integers
    that are only compared are \<open>int\<close>;
  \<^item> the result type \<open>'e + 'a\<close> of a Go function that returns \<open>(value, error)\<close>, with the
    sequencing combinator \<open>bindE\<close> and the loop \<open>mapE\<close> that stops at the first error;
  \<^item> Go's maps built by a loop of assignments (\<open>index_by\<close>, later assignments win);
  \<^item> reachable states of a step relation and the locale \<open>invariant_system\<close> that lifts a
    one-step invariant to them.
\<close>

named_theorems result_simps \<open>unfolding of the error monad\<close>
named_theorems model_defs \<open>definitions of small model helpers, unfolded by simp\<close>

unbundle bit_operations_syntax

subsection \<open>Machine types\<close>

type_synonym byte = "8 word"
type_synonym bytes = "byte list"
type_synonym uint32 = "32 word"
type_synonym uint64 = "64 word"

lemma unat_byte: "unat (b :: byte) < 256"
proof -
  have "unat b < 2 ^ LENGTH(8)" by (rule unsigned_less)
  then show ?thesis by simp
qed

lemma unat_of_nat_byte: "n < 256 \<Longrightarrow> unat (of_nat n :: byte) = n"
  by (simp add: unsigned_of_nat take_bit_nat_eq_self)

text \<open>Go's 64-bit signed arithmetic wraps; \<open>wrap64\<close> brings an exact result back into range.\<close>

definition wrap64 :: "int \<Rightarrow> int" where
  "wrap64 x = (x + 2 ^ 63) mod 2 ^ 64 - 2 ^ 63"

lemma wrap64_id: "- (2 ^ 63) \<le> x \<Longrightarrow> x < 2 ^ 63 \<Longrightarrow> wrap64 x = x"
  by (simp add: wrap64_def)

lemma wrap64_range: "- (2 ^ 63) \<le> wrap64 x \<and> wrap64 x < 2 ^ 63"
  using pos_mod_bound [of "2 ^ 64 :: int" "x + 2 ^ 63"] pos_mod_sign [of "2 ^ 64 :: int" "x + 2 ^ 63"]
  by (simp add: wrap64_def)

text \<open>The number of bits of a natural number, as \<^verbatim>\<open>bits.Len\<close> and \<^verbatim>\<open>big.Int.BitLen\<close> count them.\<close>

fun bitLen :: "nat \<Rightarrow> nat" where
  "bitLen n = (if n = 0 then 0 else Suc (bitLen (n div 2)))"

declare bitLen.simps [simp del]

lemma bitLen_le_iff: "bitLen n \<le> m \<longleftrightarrow> n < 2 ^ m"
proof (induction n arbitrary: m rule: bitLen.induct)
  case (1 n)
  show ?case
  proof (cases "n = 0")
    case False
    have "bitLen n = Suc (bitLen (n div 2))" using False bitLen.simps [of n] by simp
    then show ?thesis using 1 [OF False] False
      by (cases m) (auto simp: less_mult_imp_div_less div_less_iff_less_mult mult.commute)
  qed (simp add: bitLen.simps)
qed

text \<open>Go's integer division truncates towards zero.\<close>

definition go_div :: "int \<Rightarrow> int \<Rightarrow> int" where
  "go_div a b = sgn a * sgn b * (\<bar>a\<bar> div \<bar>b\<bar>)"

lemma go_div_nonneg: "0 \<le> a \<Longrightarrow> 0 < b \<Longrightarrow> go_div a b = a div b"
  by (cases "a = 0") (simp_all add: go_div_def sgn_if)

subsection \<open>Results: a value or an error\<close>

definition bindE :: "'e + 'a \<Rightarrow> ('a \<Rightarrow> 'e + 'b) \<Rightarrow> 'e + 'b" where
  "bindE m f = (case m of Inl e \<Rightarrow> Inl e | Inr x \<Rightarrow> f x)"

lemma bindE_simps [simp]:
  "bindE (Inl e) f = Inl e"
  "bindE (Inr x) f = f x"
  by (simp_all add: bindE_def)

lemma bindE_cong [fundef_cong]:
  "m = m' \<Longrightarrow> (\<And>x. m' = Inr x \<Longrightarrow> f x = g x) \<Longrightarrow> bindE m f = bindE m' g"
  by (auto simp: bindE_def split: sum.splits)

lemma bindE_Inr_iff: "bindE m f = Inr y \<longleftrightarrow> (\<exists>x. m = Inr x \<and> f x = Inr y)"
  by (auto simp: bindE_def split: sum.splits)

lemma bindE_Inl_iff: "bindE m f = Inl e \<longleftrightarrow> m = Inl e \<or> (\<exists>x. m = Inr x \<and> f x = Inl e)"
  by (auto simp: bindE_def split: sum.splits)

lemmas bindE_iffs [result_simps] = bindE_Inr_iff bindE_Inl_iff

text \<open>\<open>isOk\<close>: the call returned a nil error.\<close>

fun isOk :: "'e + 'a \<Rightarrow> bool" where
  "isOk (Inl _) = False"
| "isOk (Inr _) = True"

lemma isOk_iff: "isOk m \<longleftrightarrow> (\<exists>x. m = Inr x)"
  by (cases m) auto

lemma isOk_bindE: "isOk (bindE m f) \<longleftrightarrow> (\<exists>x. m = Inr x \<and> isOk (f x))"
  by (cases m) auto

text \<open>Wrapping the error of a call and keeping its value.\<close>

definition mapErr :: "('e \<Rightarrow> 'f) \<Rightarrow> 'e + 'a \<Rightarrow> 'f + 'a" where
  "mapErr w m = (case m of Inl e \<Rightarrow> Inl (w e) | Inr x \<Rightarrow> Inr x)"

lemma mapErr_simps [simp]:
  "mapErr w (Inl e) = Inl (w e)"
  "mapErr w (Inr x) = Inr x"
  by (simp_all add: mapErr_def)

lemma mapErr_Inr_iff [simp]: "mapErr w m = Inr x \<longleftrightarrow> m = Inr x"
  by (cases m) simp_all

lemma mapErr_Inl_iff: "mapErr w m = Inl e \<longleftrightarrow> (\<exists>e'. m = Inl e' \<and> e = w e')"
  by (cases m) auto

lemma isOk_mapErr [simp]: "isOk (mapErr w m) = isOk m"
  by (cases m) simp_all

text \<open>A loop that converts each element and returns at the first error.\<close>

fun mapE :: "('a \<Rightarrow> 'e + 'b) \<Rightarrow> 'a list \<Rightarrow> 'e + 'b list" where
  "mapE f [] = Inr []"
| "mapE f (x # xs) = bindE (f x) (\<lambda>y. bindE (mapE f xs) (\<lambda>ys. Inr (y # ys)))"

lemma mapE_cong [fundef_cong]:
  "xs = ys \<Longrightarrow> (\<And>x. x \<in> set ys \<Longrightarrow> f x = g x) \<Longrightarrow> mapE f xs = mapE g ys"
proof (induction ys arbitrary: xs)
  case (Cons y ys)
  then have "f y = g y" and "mapE f ys = mapE g ys" by auto
  with Cons.prems(1) show ?case by simp
qed simp

lemma mapE_Inr_iff: "mapE f xs = Inr ys \<longleftrightarrow> list_all2 (\<lambda>x y. f x = Inr y) xs ys"
  by (induction xs arbitrary: ys) (auto simp: bindE_Inr_iff list_all2_Cons1)

lemma mapE_length: "mapE f xs = Inr ys \<Longrightarrow> length ys = length xs"
  by (simp add: mapE_Inr_iff list_all2_lengthD)

lemma isOk_mapE: "isOk (mapE f xs) \<longleftrightarrow> (\<forall>x\<in>set xs. isOk (f x))"
  by (induction xs) (auto simp: isOk_bindE isOk_iff bindE_Inr_iff)

lemma mapE_map: "(\<And>x. x \<in> set xs \<Longrightarrow> f x = Inr (g x)) \<Longrightarrow> mapE f xs = Inr (map g xs)"
  by (induction xs) simp_all

lemma mapE_Inr_map:
  assumes "\<And>x y. x \<in> set xs \<Longrightarrow> f x = Inr y \<longleftrightarrow> P x \<and> y = g x"
  shows "mapE f xs = Inr ys \<longleftrightarrow> (\<forall>x\<in>set xs. P x) \<and> ys = map g xs"
proof -
  have "list_all2 (\<lambda>x y. f x = Inr y) xs ys \<longleftrightarrow> list_all2 (\<lambda>x y. P x \<and> y = g x) xs ys"
    using assms by (intro list.rel_cong) auto
  also have "\<dots> \<longleftrightarrow> (\<forall>x\<in>set xs. P x) \<and> ys = map g xs"
    by (induction xs arbitrary: ys) (auto simp: list_all2_Cons1)
  finally show ?thesis by (simp add: mapE_Inr_iff)
qed

text \<open>The same loop over the elements and their indexes, as \<^verbatim>\<open>for i, x := range xs\<close> does.\<close>

definition mapE_idx :: "(nat \<Rightarrow> 'a \<Rightarrow> 'e + 'b) \<Rightarrow> 'a list \<Rightarrow> 'e + 'b list" where
  "mapE_idx f xs = mapE (\<lambda>(i, x). f i x) (zip [0..<length xs] xs)"

lemma mapE_idx_cong [fundef_cong]:
  assumes "xs = ys" and "\<And>i x. x \<in> set ys \<Longrightarrow> f i x = g i x"
  shows "mapE_idx f xs = mapE_idx g ys"
proof -
  have "mapE (\<lambda>(i, x). f i x) (zip [0..<length ys] ys) = mapE (\<lambda>(i, x). g i x) (zip [0..<length ys] ys)"
    using assms(2) by (intro mapE_cong) (auto dest: set_zip_rightD)
  with assms(1) show ?thesis by (simp add: mapE_idx_def)
qed

lemma mapE_idx_Inr_iff:
  "mapE_idx f xs = Inr ys \<longleftrightarrow>
     length ys = length xs \<and> (\<forall>i < length xs. f i (xs ! i) = Inr (ys ! i))"
  by (auto simp: mapE_idx_def mapE_Inr_iff list_all2_conv_all_nth)

subsection \<open>Maps built by a loop of assignments\<close>

text \<open>
  \<open>index_by key xs\<close> is the map after \<^verbatim>\<open>for _, x := range xs { m[key(x)] = x }\<close>, starting
  from the empty map: the last element with a key wins.
\<close>

definition index_by :: "('a \<Rightarrow> 'k) \<Rightarrow> 'a list \<Rightarrow> ('k \<rightharpoonup> 'a)" where
  "index_by key xs = foldl (\<lambda>m x. m(key x \<mapsto> x)) Map.empty xs"

lemma foldl_upd_map_of:
  "foldl (\<lambda>m x. m(key x \<mapsto> x)) m xs = m ++ map_of (rev (map (\<lambda>x. (key x, x)) xs))"
  by (induction xs arbitrary: m) (simp_all add: map_add_def fun_eq_iff split: option.splits)

lemma index_by_map_of: "index_by key xs = map_of (rev (map (\<lambda>x. (key x, x)) xs))"
  by (simp add: index_by_def foldl_upd_map_of)

lemma index_by_find: "index_by key xs k = find (\<lambda>x. key x = k) (rev xs)"
proof (induction xs rule: rev_induct)
  case (snoc x xs)
  then show ?case by (simp add: index_by_map_of)
qed (simp add: index_by_map_of)

lemma index_by_Some_in: "index_by key xs k = Some x \<Longrightarrow> x \<in> set xs \<and> key x = k"
  by (auto simp: index_by_find find_Some_iff) (metis length_rev nth_mem set_rev)

lemma index_by_None_iff: "index_by key xs k = None \<longleftrightarrow> k \<notin> key ` set xs"
  by (auto simp: index_by_find find_None_iff)

lemma index_by_distinct:
  assumes "distinct (map key xs)" and "x \<in> set xs"
  shows "index_by key xs (key x) = Some x"
proof -
  from assms(2) have "index_by key xs (key x) \<noteq> None" by (simp add: index_by_None_iff)
  then obtain y where y: "index_by key xs (key x) = Some y" by blast
  then have "y \<in> set xs" "key y = key x" by (auto dest: index_by_Some_in)
  with assms have "y = x" by (auto simp: distinct_map dest: inj_onD)
  with y show ?thesis by simp
qed

subsection \<open>Reachable states and invariants\<close>

inductive reach :: "('s \<Rightarrow> bool) \<Rightarrow> ('s \<Rightarrow> 's \<Rightarrow> bool) \<Rightarrow> 's \<Rightarrow> bool"
  for init :: "'s \<Rightarrow> bool" and step :: "'s \<Rightarrow> 's \<Rightarrow> bool" where
  reach_init: "init s \<Longrightarrow> reach init step s"
| reach_step: "reach init step s \<Longrightarrow> step s t \<Longrightarrow> reach init step t"

locale invariant_system =
  fixes init :: "'s \<Rightarrow> bool"
    and step :: "'s \<Rightarrow> 's \<Rightarrow> bool"
    and inv :: "'s \<Rightarrow> bool"
  assumes inv_init: "init s \<Longrightarrow> inv s"
    and inv_step: "step s t \<Longrightarrow> inv s \<Longrightarrow> inv t"
begin

lemma reach_inv: "reach init step s \<Longrightarrow> inv s"
  by (induction rule: reach.induct) (auto intro: inv_init inv_step)

lemma steps_inv: "step\<^sup>*\<^sup>* s t \<Longrightarrow> inv s \<Longrightarrow> inv t"
  by (induction rule: rtranclp_induct) (auto intro: inv_step)

end

end
