(* ===== verification/Byte_Value.thy ===== *)
theory Byte_Value
  imports Prelude
begin

text \<open>
  Byte strings as big-endian unsigned integers: the value \<open>be_nat\<close> that every codec theorem
  speaks about, the canonical (shortest) byte strings, and the locale \<open>canonical_codec\<close>, the
  contract of an encoder that validates a byte string against a bit width and returns the
  shortest byte string of the same value. The unsigned codec, the register codec for
  \<open>bit<W>\<close> and the one for \<open>int<W>\<close> are its instances.
\<close>

unbundle bit_operations_syntax

definition be_nat :: "bytes \<Rightarrow> nat" where
  "be_nat bs = foldl (\<lambda>v c. v * 256 + unat c) 0 bs"

text \<open>Canonical: no redundant leading zero byte, and one zero byte for zero.\<close>

definition canonical :: "bytes \<Rightarrow> bool" where
  "canonical bs = (bs = [0] \<or> (bs \<noteq> [] \<and> hd bs \<noteq> 0))"

subsection \<open>The value of a byte string\<close>

lemma be_nat_Nil [simp]: "be_nat [] = 0"
  by (simp add: be_nat_def)

lemma be_nat_snoc: "be_nat (bs @ [b]) = be_nat bs * 256 + unat b"
  by (simp add: be_nat_def)

lemma be_nat_append: "be_nat (as @ bs) = be_nat as * 256 ^ length bs + be_nat bs"
proof (induction bs rule: rev_induct)
  case (snoc b bs)
  have "be_nat (as @ bs @ [b]) = be_nat (as @ bs) * 256 + unat b"
    using be_nat_snoc [of "as @ bs" b] by simp
  with snoc show ?case by (simp add: be_nat_snoc algebra_simps)
qed simp

lemma be_nat_single [simp]: "be_nat [b] = unat b"
  by (simp add: be_nat_def)

lemma be_nat_Cons: "be_nat (b # bs) = unat b * 256 ^ length bs + be_nat bs"
  using be_nat_append [of "[b]" bs] by simp

lemma be_nat_zero_Cons [simp]: "be_nat (0 # bs) = be_nat bs"
  by (simp add: be_nat_Cons)

lemma be_nat_less: "be_nat bs < 256 ^ length bs"
proof (induction bs)
  case (Cons b bs)
  have "unat b * 256 ^ length bs + be_nat bs < (unat b + 1) * 256 ^ length bs"
    using Cons by simp
  also have "\<dots> \<le> 256 * 256 ^ length bs"
    using unat_byte [of b] by (intro mult_right_mono) simp_all
  finally show ?case by (simp add: be_nat_Cons)
qed simp

lemma be_nat_ge: "b \<noteq> 0 \<Longrightarrow> 256 ^ length bs \<le> be_nat (b # bs)"
proof -
  assume "b \<noteq> 0"
  then have "1 \<le> unat b" by (simp add: Suc_le_eq unat_gt_0)
  then have "1 * 256 ^ length bs \<le> unat b * 256 ^ length bs" by (rule mult_right_mono) simp
  then show ?thesis using le_add1 [of "unat b * 256 ^ length bs" "be_nat bs"]
    unfolding be_nat_Cons by linarith
qed

lemma be_nat_dropWhile [simp]: "be_nat (dropWhile (\<lambda>b. b = 0) bs) = be_nat bs"
  by (induction bs) simp_all

lemma be_nat_replicate0 [simp]: "be_nat (replicate n 0 @ bs) = be_nat bs"
  by (induction n) simp_all

lemma be_nat_eq_0_iff: "be_nat bs = 0 \<longleftrightarrow> (\<forall>b\<in>set bs. b = 0)"
  by (induction bs) (auto simp: be_nat_Cons unat_eq_zero)

lemma be_nat_inj_length: "length as = length bs \<Longrightarrow> be_nat as = be_nat bs \<Longrightarrow> as = bs"
proof (induction as bs rule: rev_induct2)
  case (4 a as b bs)
  then have eq: "be_nat as * 256 + unat a = be_nat bs * 256 + unat b" by (simp add: be_nat_snoc)
  then have "unat a = unat b" using unat_byte [of a] unat_byte [of b]
    by (metis mod_mult_self3 mod_less)
  with eq have "be_nat as = be_nat bs" by simp
  with 4 have "as = bs" by simp
  with \<open>unat a = unat b\<close> show ?case by (simp add: word_unat_eq_iff)
qed simp_all

lemma canonical_length_mono:
  assumes "as \<noteq> []" "bs \<noteq> []" "hd as \<noteq> 0" "length bs < length as"
  shows "be_nat bs < be_nat as"
proof -
  obtain a as' where as: "as = a # as'" using assms(1) by (cases as) auto
  have "be_nat bs < 256 ^ length bs" by (rule be_nat_less)
  also have "\<dots> \<le> 256 ^ length as'" using assms(4) as by (intro power_increasing) simp_all
  also have "\<dots> \<le> be_nat as" using assms(3) as by (simp add: be_nat_ge)
  finally show ?thesis .
qed

text \<open>Canonical byte strings represent each value once.\<close>

lemma canonical_inj:
  assumes "canonical as" "canonical bs" "be_nat as = be_nat bs"
  shows "as = bs"
proof -
  have nz: "cs \<noteq> [] \<and> (hd cs \<noteq> 0 \<or> length cs = 1)" if "canonical cs" for cs
    using that by (auto simp: canonical_def)
  have "length as = length bs"
  proof (rule ccontr)
    assume "length as \<noteq> length bs"
    then consider "length as < length bs" | "length bs < length as" by linarith
    then show False
    proof cases
      case 1
      then have "hd bs \<noteq> 0" using nz [OF assms(1)] nz [OF assms(2)] by (cases as) auto
      then show False using canonical_length_mono [of bs as] 1 nz assms by auto
    next
      case 2
      then have "hd as \<noteq> 0" using nz [OF assms(1)] nz [OF assms(2)] by (cases bs) auto
      then show False using canonical_length_mono [of as bs] 2 nz assms by auto
    qed
  qed
  then show ?thesis using assms(3) by (rule be_nat_inj_length)
qed

subsection \<open>Bitwise operations on the value\<close>

lemma digits_and:
  fixes x y a b :: nat
  assumes "a < 256" "b < 256"
  shows "(x * 256 + a) AND (y * 256 + b) = (x AND y) * 256 + (a AND b)"
proof -
  have split: "z * 256 + c = push_bit 8 z OR c" if "c < 256" for z c :: nat
  proof -
    have "take_bit 8 c = c" using that by (simp add: take_bit_nat_eq_self)
    then have "bit c n \<Longrightarrow> n < 8" for n by (metis bit_take_bit_iff)
    then have "push_bit 8 z + c = push_bit 8 z OR c"
      by (intro disjunctive_add) (auto simp: bit_simps dest: leD)
    then show ?thesis by (simp add: push_bit_eq_mult mult.commute)
  qed
  have small: "a AND b < 256"
    using assms by (metis and_nat_def le_less_trans AND_upper2 nat_int of_nat_0_le_iff
        nat_le_iff of_nat_le_iff)
  have "take_bit 8 a = a" "take_bit 8 b = b" using assms by (simp_all add: take_bit_nat_eq_self)
  then have ab: "bit a n \<Longrightarrow> n < 8" "bit b n \<Longrightarrow> n < 8" for n
    by (metis bit_take_bit_iff)+
  have "(push_bit 8 x OR a) AND (push_bit 8 y OR b) = push_bit 8 (x AND y) OR (a AND b)"
    by (rule bit_eqI) (auto simp: bit_simps dest: ab)
  with split assms small show ?thesis by simp
qed

lemma be_nat_and:
  assumes "length as = length bs"
  shows "be_nat (map2 (AND) as bs) = be_nat as AND be_nat bs"
  using assms
proof (induction as bs rule: rev_induct2)
  case (4 a as b bs)
  then have "be_nat (map2 (AND) as bs) = be_nat as AND be_nat bs" by simp
  with 4 show ?case
    by (simp add: be_nat_snoc digits_and unat_byte unsigned_and_eq)
qed simp_all

subsection \<open>The contract of a canonical encoder\<close>

locale canonical_codec =
  fixes encode :: "bytes \<Rightarrow> int \<Rightarrow> 'e + bytes"
    and val :: "bytes \<Rightarrow> 'v"
    and canon :: "bytes \<Rightarrow> bool"
    and width_ok :: "int \<Rightarrow> bool"
    and fits :: "int \<Rightarrow> 'v \<Rightarrow> bool"
  assumes encode_ok: "width_ok w \<Longrightarrow> isOk (encode b w) \<longleftrightarrow> fits w (val b)"
    and encode_val: "encode b w = Inr c \<Longrightarrow> val c = val b"
    and encode_canon: "encode b w = Inr c \<Longrightarrow> canon c"
    and canon_unique: "canon a \<Longrightarrow> canon b \<Longrightarrow> val a = val b \<Longrightarrow> a = b"
begin

lemma encode_Inr_iff:
  assumes "width_ok w"
  shows "encode b w = Inr c \<longleftrightarrow> fits w (val b) \<and> canon c \<and> val c = val b"
proof
  assume "encode b w = Inr c"
  then show "fits w (val b) \<and> canon c \<and> val c = val b"
    using encode_ok [OF assms, of b] encode_val encode_canon by auto
next
  assume c: "fits w (val b) \<and> canon c \<and> val c = val b"
  then obtain d where d: "encode b w = Inr d"
    using encode_ok [OF assms, of b] by (auto simp: isOk_iff)
  then have "d = c" using c encode_val encode_canon by (auto intro: canon_unique)
  with d show "encode b w = Inr c" by simp
qed

lemma encode_idem: "width_ok w \<Longrightarrow> encode b w = Inr c \<Longrightarrow> encode c w = Inr c"
  by (simp add: encode_Inr_iff)

lemma encode_same_value:
  "encode a w = Inr c \<Longrightarrow> encode b v = Inr d \<Longrightarrow> c = d \<longleftrightarrow> val a = val b"
  using encode_val encode_canon by (metis canon_unique)

lemma encode_error_iff: "width_ok w \<Longrightarrow> (\<exists>e. encode b w = Inl e) \<longleftrightarrow> \<not> fits w (val b)"
  using encode_ok [of w b] by (cases "encode b w") auto

end

end
