(* ===== verification/Go_Strings.thy ===== *)
theory Go_Strings
  imports Prelude
begin

text \<open>
  The part of Go's \<^verbatim>\<open>strings\<close>, \<^verbatim>\<open>strconv\<close> and \<^verbatim>\<open>encoding/hex\<close> packages that the sources
  use. A Go string is a byte sequence and is modelled as \<open>string\<close> (a list of 8-bit
  characters). \<^verbatim>\<open>ToLower\<close> and \<^verbatim>\<open>Fields\<close> are modelled on ASCII: Go folds and splits some
  non-ASCII code points too, which the messages and literals of the sources do not contain.
\<close>

subsection \<open>Characters\<close>

abbreviation ord_of :: "char \<Rightarrow> nat" where
  "ord_of c \<equiv> of_char c"

definition lowerChar :: "char \<Rightarrow> char" where
  "lowerChar c = (if 65 \<le> ord_of c \<and> ord_of c \<le> 90 then char_of (ord_of c + 32) else c)"

definition isSpace :: "char \<Rightarrow> bool" where
  "isSpace c = (ord_of c = 32 \<or> (9 \<le> ord_of c \<and> ord_of c \<le> 13))"

definition isDigit :: "char \<Rightarrow> bool" where
  "isDigit c = (48 \<le> ord_of c \<and> ord_of c \<le> 57)"

subsection \<open>Package strings\<close>

definition ToLower :: "string \<Rightarrow> string" where
  "ToLower s = map lowerChar s"

definition HasPrefix :: "string \<Rightarrow> string \<Rightarrow> bool" where
  "HasPrefix s p = (take (length p) s = p)"

definition TrimPrefix :: "string \<Rightarrow> string \<Rightarrow> string" where
  "TrimPrefix s p = (if HasPrefix s p then drop (length p) s else s)"

definition HasSuffix :: "string \<Rightarrow> string \<Rightarrow> bool" where
  "HasSuffix s p = (length p \<le> length s \<and> drop (length s - length p) s = p)"

definition TrimSuffix :: "string \<Rightarrow> string \<Rightarrow> string" where
  "TrimSuffix s p = (if HasSuffix s p then take (length s - length p) s else s)"

text \<open>\<^verbatim>\<open>strings.Contains(s, sub)\<close>\<close>

fun Contains :: "string \<Rightarrow> string \<Rightarrow> bool" where
  "Contains [] sub = (sub = [])"
| "Contains (c # s) sub = (HasPrefix (c # s) sub \<or> Contains s sub)"

text \<open>\<^verbatim>\<open>strings.SplitN(s, sep, 2)\<close> for a separator that occurs: the parts around its first occurrence.\<close>

fun splitOnce :: "string \<Rightarrow> string \<Rightarrow> (string \<times> string) option" where
  "splitOnce sep [] = (if sep = [] then Some ([], []) else None)"
| "splitOnce sep (c # s) =
     (if HasPrefix (c # s) sep then Some ([], drop (length sep) (c # s))
      else map_option (\<lambda>(a, b). (c # a, b)) (splitOnce sep s))"

text \<open>\<^verbatim>\<open>strings.Split(s, sep)\<close> for a one-byte separator.\<close>

fun Split :: "char \<Rightarrow> string \<Rightarrow> string list" where
  "Split sep [] = [[]]"
| "Split sep (c # s) =
     (if c = sep then [] # Split sep s
      else (case Split sep s of [] \<Rightarrow> [[c]] | w # ws \<Rightarrow> (c # w) # ws))"

fun Join :: "string list \<Rightarrow> string \<Rightarrow> string" where
  "Join [] sep = []"
| "Join [w] sep = w"
| "Join (w # v # ws) sep = w @ sep @ Join (v # ws) sep"

text \<open>\<^verbatim>\<open>strings.ReplaceAll(s, c, "")\<close> for one byte, and \<^verbatim>\<open>strings.Map\<close> that drops a set of bytes.\<close>

definition dropChars :: "char list \<Rightarrow> string \<Rightarrow> string" where
  "dropChars cs s = filter (\<lambda>c. c \<notin> set cs) s"

text \<open>\<^verbatim>\<open>strings.Trim(s, cutset)\<close>\<close>

definition Trim :: "string \<Rightarrow> char list \<Rightarrow> string" where
  "Trim s cs = rev (dropWhile (\<lambda>c. c \<in> set cs) (rev (dropWhile (\<lambda>c. c \<in> set cs) s)))"

text \<open>\<^verbatim>\<open>strings.Fields(s)\<close>: the maximal runs of non-space characters.\<close>

fun fieldsAux :: "string \<Rightarrow> string \<Rightarrow> string list" where
  "fieldsAux acc [] = (if acc = [] then [] else [rev acc])"
| "fieldsAux acc (c # s) =
     (if isSpace c then (if acc = [] then fieldsAux [] s else rev acc # fieldsAux [] s)
      else fieldsAux (c # acc) s)"

definition Fields :: "string \<Rightarrow> string list" where
  "Fields s = fieldsAux [] s"

lemma Split_not_Nil [simp]: "Split sep s \<noteq> []"
  by (cases s) (auto split: list.splits)

lemma Split_clean: "sep \<notin> set w \<Longrightarrow> Split sep w = [w]"
  by (induction w) auto

lemma Split_append: "sep \<notin> set w \<Longrightarrow> Split sep (w @ sep # s) = w # Split sep s"
  by (induction w) auto

text \<open>Splitting undoes joining when no part contains the separator.\<close>

lemma Split_Join:
  "ws \<noteq> [] \<Longrightarrow> (\<forall>w\<in>set ws. sep \<notin> set w) \<Longrightarrow> Split sep (Join ws [sep]) = ws"
  by (induction ws "[sep]" rule: Join.induct) (auto simp: Split_clean Split_append)

lemma dropChars_append [simp]: "dropChars cs (s @ t) = dropChars cs s @ dropChars cs t"
  by (simp add: dropChars_def)

lemma dropChars_clean: "set cs \<inter> set s = {} \<Longrightarrow> dropChars cs s = s"
  by (auto simp: dropChars_def filter_id_conv)

lemma dropChars_Join:
  "set sep \<subseteq> set cs \<Longrightarrow> (\<forall>w\<in>set ws. set cs \<inter> set w = {}) \<Longrightarrow>
     dropChars cs (Join ws sep) = concat ws"
proof (induction ws sep rule: Join.induct)
  case (3 w v ws sep)
  have "dropChars cs sep = []" using "3.prems"(1) by (auto simp: dropChars_def filter_empty_conv)
  with 3 show ?case by (simp add: dropChars_clean)
next
  case (1 sep)
  then show ?case by (simp add: dropChars_def)
next
  case (2 w sep)
  then show ?case by (simp add: dropChars_clean)
qed

lemma ToLower_Join: "ToLower (Join ws sep) = Join (map ToLower ws) (ToLower sep)"
  by (induction ws sep rule: Join.induct) (simp_all add: ToLower_def)

lemma splitOnce_append:
  assumes "c \<notin> set w"
  shows "splitOnce [c] (w @ c # s) = Some (w, s)"
  using assms by (induction w) (auto simp: HasPrefix_def)

lemma Contains_single: "Contains s [c] \<longleftrightarrow> c \<in> set s"
  by (induction s) (auto simp: HasPrefix_def)

lemma splitOnce_single_None: "splitOnce [c] s = None \<longleftrightarrow> c \<notin> set s"
  by (induction s) (auto simp: HasPrefix_def)

lemma splitOnce_single_Some:
  "splitOnce [c] s = Some (a, b) \<longleftrightarrow> s = a @ c # b \<and> c \<notin> set a"
proof (induction s arbitrary: a)
  case (Cons d s)
  show ?case
  proof (cases "d = c")
    case True
    then show ?thesis by (cases a) (auto simp: HasPrefix_def)
  next
    case False
    with Cons.IH show ?thesis by (cases a) (auto simp: HasPrefix_def)
  qed
qed simp

subsection \<open>Hexadecimal digits (encoding/hex, strconv)\<close>

text \<open>The value of one hexadecimal digit, in either case.\<close>

definition hexVal :: "char \<Rightarrow> byte option" where
  "hexVal c = (let n = ord_of c in
     if 48 \<le> n \<and> n \<le> 57 then Some (of_nat (n - 48))
     else if 97 \<le> n \<and> n \<le> 102 then Some (of_nat (n - 87))
     else if 65 \<le> n \<and> n \<le> 70 then Some (of_nat (n - 55))
     else None)"

text \<open>
  \<^verbatim>\<open>hex.DecodeString\<close>: two digits per byte; \<open>None\<close> for a character that is not a digit or an
  odd length.
\<close>

fun hexDecode :: "string \<Rightarrow> bytes option" where
  "hexDecode [] = Some []"
| "hexDecode [_] = None"
| "hexDecode (a # b # s) =
     (case (hexVal a, hexVal b) of
        (Some x, Some y) \<Rightarrow> map_option (\<lambda>r. (push_bit 4 x OR y) # r) (hexDecode s)
      | _ \<Rightarrow> None)"

definition hexDigit :: "nat \<Rightarrow> char" where
  "hexDigit n = char_of (if n < 10 then n + 48 else n + 87)"

text \<open>\<^verbatim>\<open>strconv.FormatUint(v, 16)\<close> for a byte.\<close>

definition formatHexByte :: "byte \<Rightarrow> string" where
  "formatHexByte b = (let n = unat b in
     if n < 16 then [hexDigit n] else [hexDigit (n div 16), hexDigit (n mod 16)])"

lemma hexVal_hexDigit: "n < 16 \<Longrightarrow> hexVal (hexDigit n) = Some (of_nat n)"
  by (auto simp: hexVal_def hexDigit_def Let_def)

lemma hexDigit_range: "n < 16 \<Longrightarrow>
    (48 \<le> ord_of (hexDigit n) \<and> ord_of (hexDigit n) \<le> 57) \<or> (97 \<le> ord_of (hexDigit n) \<and> ord_of (hexDigit n) \<le> 102)"
  by (auto simp: hexDigit_def)

lemma hexDigit_not_colon: "n < 16 \<Longrightarrow> hexDigit n \<noteq> CHR '':''"
  using hexDigit_range [of n] by auto

lemma lowerChar_hexDigit: "n < 16 \<Longrightarrow> lowerChar (hexDigit n) = hexDigit n"
  using hexDigit_range [of n] by (auto simp: lowerChar_def)

lemma nibbles_join: "push_bit 4 (of_nat (unat b div 16)) OR of_nat (unat b mod 16) = (b :: byte)"
proof -
  have "of_nat (unat b div 16) = drop_bit 4 b"
  proof (rule word_unat_eq_iff [THEN iffD2])
    have "unat b div 16 < 256" using unat_byte [of b] by simp
    then have "unat (of_nat (unat b div 16) :: byte) = unat b div 16"
      by (rule unat_of_nat_byte)
    then show "unat (of_nat (unat b div 16) :: byte) = unat (drop_bit 4 b)"
      by (simp add: drop_bit_eq_div unat_div_distrib)
  qed
  moreover have "of_nat (unat b mod 16) = take_bit 4 b"
    by (rule word_unat_eq_iff [THEN iffD2]) (simp add: take_bit_eq_mod unat_mod_distrib unsigned_of_nat)
  moreover have "push_bit 4 (drop_bit 4 b) OR take_bit 4 b = b"
    by (rule bit_word_eqI) (auto simp: bit_simps)
  ultimately show ?thesis by simp
qed

subsection \<open>Decimal numbers (strconv.Itoa, and the verb \<open>%d\<close>)\<close>

fun decimal :: "nat \<Rightarrow> string" where
  "decimal n = (if n < 10 then [char_of (48 + n)] else decimal (n div 10) @ [char_of (48 + n mod 10)])"

declare decimal.simps [simp del]

lemma decimal_digits: "c \<in> set (decimal n) \<Longrightarrow> isDigit c"
proof (induction n rule: decimal.induct)
  case (1 n)
  then show ?case
    by (subst (asm) decimal.simps) (auto simp: isDigit_def split: if_splits)
qed

text \<open>The value of a string of decimal digits.\<close>

definition decimalVal :: "string \<Rightarrow> nat" where
  "decimalVal s = foldl (\<lambda>v c. v * 10 + (ord_of c - 48)) 0 s"

lemma decimalVal_decimal [simp]: "decimalVal (decimal n) = n"
proof (induction n rule: decimal.induct)
  case (1 n)
  show ?case
  proof (cases "n < 10")
    case True
    then show ?thesis by (subst decimal.simps) (simp add: decimalVal_def)
  next
    case False
    with 1 have "decimalVal (decimal (n div 10)) = n div 10" by blast
    with False show ?thesis by (subst decimal.simps) (simp add: decimalVal_def)
  qed
qed

lemma decimal_inject: "decimal m = decimal n \<longleftrightarrow> m = n"
  by (metis decimalVal_decimal)

lemma decimal_not_Nil [simp]: "decimal n \<noteq> []"
  by (subst decimal.simps) simp

end
