(* ===== verification/Errors.thy ===== *)
theory Errors
  imports Go_Strings
begin

text \<open>
  Error values (src/errors, and the error type of src/client/pipeline_error.go). A Go
  \<^verbatim>\<open>error\<close> is a value of \<open>goerr\<close>: a sentinel, an error made by \<^verbatim>\<open>errors.New\<close> or
  \<^verbatim>\<open>fmt.Errorf\<close> (its format and its arguments; an argument of \<^verbatim>\<open>%w\<close> is \<open>AErr\<close>, so
  \<^verbatim>\<open>errors.Is\<close> can look through it), a gRPC status error, or one of the two error types with
  an \<^verbatim>\<open>Is\<close> method of their own. \<open>GoPanic\<close> marks the runs on which the Go function panics.

  \<^verbatim>\<open>status.FromError\<close> belongs to the gRPC library: it is the parameter \<open>fromError\<close> of the
  definitions that call it.
\<close>

subsection \<open>Status codes, statuses and per-update errors\<close>

abbreviation (input) codes_OK :: int where "codes_OK \<equiv> 0"
abbreviation (input) codes_Unknown :: int where "codes_Unknown \<equiv> 2"
abbreviation (input) codes_InvalidArgument :: int where "codes_InvalidArgument \<equiv> 3"
abbreviation (input) codes_NotFound :: int where "codes_NotFound \<equiv> 5"
abbreviation (input) codes_AlreadyExists :: int where "codes_AlreadyExists \<equiv> 6"
abbreviation (input) codes_PermissionDenied :: int where "codes_PermissionDenied \<equiv> 7"
abbreviation (input) codes_FailedPrecondition :: int where "codes_FailedPrecondition \<equiv> 9"
abbreviation (input) codes_Unimplemented :: int where "codes_Unimplemented \<equiv> 12"
abbreviation (input) codes_Unauthenticated :: int where "codes_Unauthenticated \<equiv> 16"

text \<open>\<^verbatim>\<open>google.protobuf.Any\<close>, \<^verbatim>\<open>google.rpc.Status\<close> and \<^verbatim>\<open>p4.v1.Error\<close>; a nil detail is \<open>None\<close>.\<close>

record any_msg =
  any_type_url :: string
  any_value :: bytes

record rpc_status =
  st_code :: int
  st_message :: string
  st_details :: "any_msg option list"

record p4_error =
  canonical_code :: int
  p4_message :: string

subsection \<open>Errors\<close>

datatype sentinel =
    ErrNotPrimary | ErrPipelineNotSet | ErrEntryExists | ErrEntryNotFound
  | ErrUnsupportedMatchKind | ErrTargetUnsupported | ErrStreamClosed | ErrArbitrationFailed
  | ErrElectionIDZero | ErrInvalidBitWidth | ErrInvalidMatchField | ErrInvalidActionParam

datatype goerr =
    Sentinel sentinel
  | NewErr string
  | Errorf string "garg list"
  | StatusError rpc_status
  | WriteError goerr "p4_error list option"
  | GetPipelineError goerr rpc_status
  | JoinErr "goerr list"
  | CtxCanceled
  | CtxDeadlineExceeded
  | EOF
  | GoPanic string
and garg = AInt int | AStr string | AErr goerr

subsection \<open>WriteError\<close>

text \<open>
  \<open>writeSentinel\<close>: the sentinel of a status code. Only the RPC's own status is searched for
  primary and pipeline messages.
\<close>

definition writeSentinel :: "int \<Rightarrow> string \<Rightarrow> bool \<Rightarrow> sentinel option" where
  "writeSentinel code message rpc =
     (if code = codes_AlreadyExists then Some ErrEntryExists
      else if code = codes_NotFound then Some ErrEntryNotFound
      else if code = codes_Unimplemented then Some ErrTargetUnsupported
      else if code = codes_PermissionDenied \<or> code = codes_FailedPrecondition then
        (if \<not> rpc then None
         else let m = ToLower message in
           if Contains m ''not primary'' \<or> Contains m ''not the primary'' \<or> Contains m ''no longer primary''
           then Some ErrNotPrimary
           else if code = codes_FailedPrecondition \<and>
             (Contains m ''no forwarding pipeline config set'' \<or> Contains m ''no pipeline config set'' \<or>
              Contains m ''pipeline not set'' \<or> Contains m ''pipeline is not set'' \<or>
              Contains m ''pipeline not configured'')
           then Some ErrPipelineNotSet
           else None)
      else None)"

text \<open>\<open>WriteError.Error\<close>: the text of the cause and of every update that failed, with its position. The names of the status codes
  belong to the gRPC library.\<close>

definition WriteError_Error :: "(int \<Rightarrow> string) \<Rightarrow> string \<Rightarrow> p4_error list option \<Rightarrow> string" where
  "WriteError_Error codeName cause updates =
     ''write: '' @ cause @
     concat (map (\<lambda>(i, u). if canonical_code u \<noteq> codes_OK
                          then '', update '' @ decimal i @ '': '' @ codeName (canonical_code u) @ '': '' @ p4_message u else '''')
       (let us = (case updates of None \<Rightarrow> [] | Some us \<Rightarrow> us) in zip [0..<length us] us))"

text \<open>\<open>WriteError.GRPCStatus\<close>: \<^verbatim>\<open>status.Convert\<close> of the cause.\<close>

definition WriteError_GRPCStatus :: "(goerr \<Rightarrow> rpc_status \<times> bool) \<Rightarrow> goerr \<Rightarrow> rpc_status" where
  "WriteError_GRPCStatus fromError cause = fst (fromError cause)"

text \<open>\<open>WriteError.Is\<close>: the RPC's sentinel, or that of any update; a nil slice has no updates.\<close>

definition WriteError_Is ::
  "(goerr \<Rightarrow> rpc_status \<times> bool) \<Rightarrow> goerr \<Rightarrow> p4_error list option \<Rightarrow> sentinel \<Rightarrow> bool" where
  "WriteError_Is fromError cause updates target =
     (let st = WriteError_GRPCStatus fromError cause in
      if writeSentinel (st_code st) (st_message st) True = Some target then True
      else list_ex (\<lambda>u. writeSentinel (canonical_code u) (p4_message u) False = Some target)
             (case updates of None \<Rightarrow> [] | Some us \<Rightarrow> us))"

subsection \<open>getPipelineError\<close>

definition missingPipelineMessages :: "string list" where
  "missingPipelineMessages =
     [''no forwarding pipeline config set'', ''no pipeline config set'',
      ''pipeline not set'', ''pipeline is not set'', ''pipeline not configured'']"

definition getPipelineError_Is :: "rpc_status \<Rightarrow> sentinel \<Rightarrow> bool" where
  "getPipelineError_Is st target =
     (if target \<noteq> ErrPipelineNotSet \<or> st_code st \<noteq> codes_FailedPrecondition then False
      else let message = TrimSuffix (ToLower (Join (Fields (st_message st)) '' '')) ''.'' in
        list_ex (\<lambda>missing. message = missing \<or> message = missing @ '' for this device'' \<or>
                            message = missing @ '' on this device'') missingPipelineMessages)"

subsection \<open>errors.Is\<close>

text \<open>
  The standard library's \<^verbatim>\<open>errors.Is\<close> for a sentinel target: the error itself, its \<^verbatim>\<open>Is\<close>
  method, then what it wraps.
\<close>

fun errors_Is :: "(goerr \<Rightarrow> rpc_status \<times> bool) \<Rightarrow> goerr \<Rightarrow> sentinel \<Rightarrow> bool" where
  "errors_Is fe (Sentinel s) t = (s = t)"
| "errors_Is fe (Errorf f as) t = list_ex (\<lambda>a. case a of AErr e \<Rightarrow> errors_Is fe e t | _ \<Rightarrow> False) as"
| "errors_Is fe (WriteError c us) t = (WriteError_Is fe c us t \<or> errors_Is fe c t)"
| "errors_Is fe (GetPipelineError c st) t = (getPipelineError_Is st t \<or> errors_Is fe c t)"
| "errors_Is fe (JoinErr es) t = list_ex (\<lambda>e. errors_Is fe e t) es"
| "errors_Is fe _ t = False"

text \<open>\<^verbatim>\<open>errors.Is(err, io.EOF)\<close>\<close>

fun errors_Is_EOF :: "goerr \<Rightarrow> bool" where
  "errors_Is_EOF EOF = True"
| "errors_Is_EOF (Errorf f as) = list_ex (\<lambda>a. case a of AErr e \<Rightarrow> errors_Is_EOF e | _ \<Rightarrow> False) as"
| "errors_Is_EOF (WriteError c us) = errors_Is_EOF c"
| "errors_Is_EOF (GetPipelineError c st) = errors_Is_EOF c"
| "errors_Is_EOF (JoinErr es) = list_ex errors_Is_EOF es"
| "errors_Is_EOF _ = False"

text \<open>
  \<^verbatim>\<open>errors.As\<close> with the interface \<^verbatim>\<open>GRPCStatus() *status.Status\<close> as its target: the first error of
  the chain, in depth-first order, that has the method, and the status it returns.
\<close>

fun asGRPCStatus :: "(goerr \<Rightarrow> rpc_status \<times> bool) \<Rightarrow> goerr \<Rightarrow> rpc_status option" where
  "asGRPCStatus fe (StatusError st) = Some st"
| "asGRPCStatus fe (WriteError c us) = Some (WriteError_GRPCStatus fe c)"
| "asGRPCStatus fe (GetPipelineError c st) = Some st"
| "asGRPCStatus fe (Errorf f as) =
     foldr (\<lambda>a r. case (case a of AErr e \<Rightarrow> asGRPCStatus fe e | _ \<Rightarrow> None) of Some st \<Rightarrow> Some st | None \<Rightarrow> r) as None"
| "asGRPCStatus fe (JoinErr es) =
     foldr (\<lambda>e r. case asGRPCStatus fe e of Some st \<Rightarrow> Some st | None \<Rightarrow> r) es None"
| "asGRPCStatus fe _ = None"

lemma errors_Is_wrap [simp]: "errors_Is fe (Errorf f [AErr e]) t = errors_Is fe e t"
  by simp

text \<open>A wrapped error keeps every sentinel of the error it wraps, wherever \<^verbatim>\<open>%w\<close> stands.\<close>

lemma errors_Is_Errorf_iff:
  "errors_Is fe (Errorf f as) t \<longleftrightarrow> (\<exists>e. AErr e \<in> set as \<and> errors_Is fe e t)"
  by (auto simp: list_ex_iff split: garg.splits) (metis garg.exhaust)

subsection \<open>What a write error matches\<close>

lemma writeSentinel_Some_code:
  "writeSentinel code msg rpc = Some s \<Longrightarrow>
     code \<in> {codes_AlreadyExists, codes_NotFound, codes_Unimplemented, codes_PermissionDenied,
              codes_FailedPrecondition}"
  by (auto simp: writeSentinel_def split: if_splits)

text \<open>No successful update ever contributes a sentinel.\<close>

lemma writeSentinel_OK [simp]: "writeSentinel codes_OK msg rpc = None"
  by (simp add: writeSentinel_def)

lemma writeSentinel_update:
  "writeSentinel code msg False = Some s \<longleftrightarrow>
     (code = codes_AlreadyExists \<and> s = ErrEntryExists) \<or>
     (code = codes_NotFound \<and> s = ErrEntryNotFound) \<or>
     (code = codes_Unimplemented \<and> s = ErrTargetUnsupported)"
  by (auto simp: writeSentinel_def)

lemma writeSentinel_NotPrimary:
  "writeSentinel code msg rpc = Some ErrNotPrimary \<longleftrightarrow>
     rpc \<and> (code = codes_PermissionDenied \<or> code = codes_FailedPrecondition) \<and>
     (\<exists>p\<in>{''not primary'', ''not the primary'', ''no longer primary''}. Contains (ToLower msg) p)"
  by (auto simp: writeSentinel_def Let_def)

lemma WriteError_Is_iff:
  "WriteError_Is fe c us t \<longleftrightarrow>
     writeSentinel (st_code (fst (fe c))) (st_message (fst (fe c))) True = Some t \<or>
     (\<exists>vs. us = Some vs \<and> (\<exists>u\<in>set vs. writeSentinel (canonical_code u) (p4_message u) False = Some t))"
  by (auto simp: WriteError_Is_def WriteError_GRPCStatus_def Let_def list_ex_iff split: option.splits)

end
