(* ===== verification/Codec.thy ===== *)
theory Codec
  imports Byte_Value Errors
begin

text \<open>
  Package internal/codec (src/internal/codec/codec.go) except for IP addresses: the
  canonical byte strings of P4Runtime. Every function is modelled with its guards and its
  error results; the index loops over a slice are the list functions they compute. Bit widths
  and prefix lengths are Go \<^verbatim>\<open>int\<close>s, with the wrap-around of \<^verbatim>\<open>bitwidth + 7\<close> written out.
\<close>

unbundle bit_operations_syntax

subsection \<open>Helpers\<close>

text \<open>The largest bit width whose byte length does not overflow a Go \<^verbatim>\<open>int\<close>.\<close>

abbreviation max_width :: int where
  "max_width \<equiv> 2 ^ 63 - 8"

definition byteLen :: "int \<Rightarrow> int" where
  "byteLen bitwidth = go_div (wrap64 (bitwidth + 7)) 8"

definition stripLeadingZeros :: "bytes \<Rightarrow> bytes" where
  "stripLeadingZeros b = (let rest = dropWhile (\<lambda>c. c = 0) b in if rest = [] then [0] else rest)"

text \<open>\<^verbatim>\<open>byte((1 << uint(n)) - 1)\<close>\<close>

definition lowMask :: "int \<Rightarrow> byte" where
  "lowMask n = of_int (2 ^ nat n - 1)"

text \<open>
  \<open>clearLowBits\<close> walks from the last byte towards the first; \<open>clearRev\<close> is that walk on the
  reversed slice.
\<close>

fun clearRev :: "bytes \<Rightarrow> int \<Rightarrow> bytes" where
  "clearRev [] count = []"
| "clearRev (b # bs) count =
     (if count \<le> 0 then b # bs
      else if count \<ge> 8 then 0 # clearRev bs (count - 8)
      else (b AND push_bit (nat count) 0xff) # bs)"

definition clearLowBits :: "bytes \<Rightarrow> int \<Rightarrow> bytes" where
  "clearLowBits value count = rev (clearRev (rev value) count)"

text \<open>\<^verbatim>\<open>binary.BigEndian.PutUint64\<close>\<close>

definition putUint64 :: "uint64 \<Rightarrow> bytes" where
  "putUint64 v = map (\<lambda>i. ucast (drop_bit (8 * i) v)) [7, 6, 5, 4, 3, 2, 1, 0]"

subsection \<open>Integers\<close>

definition EncodeUint :: "uint64 \<Rightarrow> int \<Rightarrow> goerr + bytes" where
  "EncodeUint v bitwidth =
     (if bitwidth \<le> 0 \<or> bitwidth > 64 then
        Inl (Errorf ''codec.EncodeUint: bitwidth %d out of range (1..64)'' [AInt bitwidth])
      else if bitwidth < 64 \<and> v \<ge> push_bit (nat bitwidth) 1 then
        Inl (Errorf ''codec.EncodeUint: value %d exceeds %d-bit range: %w''
          [AInt (uint v), AInt bitwidth, AErr (Sentinel ErrInvalidBitWidth)])
      else if v = 0 then Inr [0]
      else Inr (stripLeadingZeros (putUint64 v)))"

definition EncodeBytes :: "bytes \<Rightarrow> int \<Rightarrow> goerr + bytes" where
  "EncodeBytes value bitwidth =
     (if bitwidth \<le> 0 then
        Inl (Errorf ''codec.EncodeBytes: bitwidth %d must be positive'' [AInt bitwidth])
      else
        let maxBytes = byteLen bitwidth;
            leadingBits = bitwidth mod 8;
            significant = dropWhile (\<lambda>c. c = 0) value
        in if significant = [] then Inr [0]
           else if int (length significant) > maxBytes then
             Inl (Errorf ''codec.EncodeBytes: value uses %d bytes, bitwidth allows %d: %w''
               [AInt (int (length significant)), AInt maxBytes, AErr (Sentinel ErrInvalidBitWidth)])
           else if int (length significant) = maxBytes \<and> leadingBits \<noteq> 0 \<and>
                   hd significant AND NOT (lowMask leadingBits) \<noteq> 0 then
             Inl (Errorf ''codec.EncodeBytes: high-order bits set outside %d-bit width: %w''
               [AInt bitwidth, AErr (Sentinel ErrInvalidBitWidth)])
           else Inr significant)"

definition DecodeUint :: "bytes \<Rightarrow> goerr + uint64" where
  "DecodeUint b =
     (if length b > 8 then
        Inl (Errorf ''codec.DecodeUint: input %d bytes exceeds 64 bits'' [AInt (int (length b))])
      else Inr (foldl (\<lambda>v c. push_bit 8 v OR ucast c) 0 b))"

subsection \<open>Masks and ranges\<close>

definition LPMMask :: "bytes \<Rightarrow> int \<Rightarrow> int \<Rightarrow> goerr + bytes" where
  "LPMMask value prefixLen bitwidth =
     (if bitwidth \<le> 0 then
        Inl (Errorf ''codec.LPMMask: bitwidth %d must be positive'' [AInt bitwidth])
      else if prefixLen < 0 \<or> prefixLen > bitwidth then
        Inl (Errorf ''codec.LPMMask: prefixLen %d out of range 0..%d'' [AInt prefixLen, AInt bitwidth])
      else bindE (mapErr (\<lambda>e. Errorf ''codec.LPMMask value: %w'' [AErr e]) (EncodeBytes value bitwidth))
        (\<lambda>masked. Inr (stripLeadingZeros (clearLowBits masked (bitwidth - prefixLen)))))"

definition TernaryMask :: "int \<Rightarrow> int \<Rightarrow> goerr + bytes" where
  "TernaryMask prefixLen bitwidth =
     (if bitwidth \<le> 0 then
        Inl (Errorf ''codec.TernaryMask: bitwidth %d must be positive'' [AInt bitwidth])
      else if prefixLen < 0 \<or> prefixLen > bitwidth then
        Inl (Errorf ''codec.TernaryMask: prefixLen %d out of range 0..%d'' [AInt prefixLen, AInt bitwidth])
      else if prefixLen = 0 then Inr [0]
      else if byteLen bitwidth < 0 then Inl (GoPanic ''makeslice: len out of range'')
      else let maxBytes = byteLen bitwidth;
               ones = replicate (nat maxBytes) 0xff;
               leadingBits = bitwidth mod 8;
               m = (if leadingBits \<noteq> 0 then ones[0 := lowMask leadingBits] else ones)
           in Inr (stripLeadingZeros (clearLowBits m (bitwidth - prefixLen))))"

text \<open>The loop body of \<open>TernaryApply\<close>: byte \<open>i\<close> of \<open>v\<close> against the aligned byte of \<open>m\<close>.\<close>

definition applyMaskBytes :: "bytes \<Rightarrow> bytes \<Rightarrow> bytes" where
  "applyMaskBytes v m =
     map (\<lambda>i. let j = int i + int (length m) - int (length v) in
               if j < 0 then 0 else v ! i AND m ! nat j) [0..<length v]"

definition TernaryApply :: "bytes \<Rightarrow> bytes \<Rightarrow> int \<Rightarrow> goerr + bytes" where
  "TernaryApply value msk bitwidth =
     bindE (mapErr (\<lambda>e. Errorf ''codec.TernaryApply value: %w'' [AErr e]) (EncodeBytes value bitwidth)) (\<lambda>v.
     bindE (mapErr (\<lambda>e. Errorf ''codec.TernaryApply mask: %w'' [AErr e]) (EncodeBytes msk bitwidth)) (\<lambda>m.
     Inr (stripLeadingZeros (applyMaskBytes v m))))"

text \<open>\<^verbatim>\<open>bytes.Compare(a, b) > 0\<close>: lexicographic order of byte slices.\<close>

fun bytesGreater :: "bytes \<Rightarrow> bytes \<Rightarrow> bool" where
  "bytesGreater [] _ = False"
| "bytesGreater (a # as) [] = True"
| "bytesGreater (a # as) (b # bs) = (a > b \<or> (a = b \<and> bytesGreater as bs))"

definition ValidateRange :: "bytes \<Rightarrow> bytes \<Rightarrow> int \<Rightarrow> goerr + unit" where
  "ValidateRange low high bitwidth =
     bindE (mapErr (\<lambda>e. Errorf ''codec.ValidateRange low: %w'' [AErr e]) (EncodeBytes low bitwidth)) (\<lambda>l.
     bindE (mapErr (\<lambda>e. Errorf ''codec.ValidateRange high: %w'' [AErr e]) (EncodeBytes high bitwidth)) (\<lambda>h.
     if length l > length h \<or> (length l = length h \<and> bytesGreater l h) then
       Inl (Errorf ''codec.ValidateRange: low > high'' [])
     else Inr ()))"

subsection \<open>Hexadecimal literals and MAC addresses\<close>

definition ParseHex :: "string \<Rightarrow> goerr + bytes" where
  "ParseHex s =
     (let cleaned = ToLower (TrimPrefix (ToLower s) ''0x'');
          cleaned = dropChars '':'' cleaned;
          cleaned = (if length cleaned mod 2 \<noteq> 0 then ''0'' @ cleaned else cleaned)
      in case hexDecode cleaned of
           None \<Rightarrow> Inl (Errorf ''codec.ParseHex: %w'' [AErr (NewErr ''encoding/hex'')])
         | Some raw \<Rightarrow> Inr (stripLeadingZeros raw))"

definition FormatHex :: "bytes \<Rightarrow> string" where
  "FormatHex v =
     (if v = [] then ''0''
      else Join (map (\<lambda>b. let part = formatHexByte b in
                           if length part = 1 then ''0'' @ part else part) v) '':'')"

definition MAC :: "string \<Rightarrow> goerr + bytes" where
  "MAC s =
     (let cleaned = dropChars '':-.'' s in
      if length cleaned \<noteq> 12 then Inl (Errorf ''codec.MAC: %q is not a 48-bit MAC'' [AStr s])
      else case hexDecode cleaned of
             None \<Rightarrow> Inl (Errorf ''codec.MAC: %q: %w'' [AStr s, AErr (NewErr ''encoding/hex'')])
           | Some raw \<Rightarrow> Inr (stripLeadingZeros raw))"

text \<open>The panic-on-error variants.\<close>

definition must :: "goerr + bytes \<Rightarrow> goerr + bytes" where
  "must r = (case r of Inl e \<Rightarrow> Inl (GoPanic ''panic(err)'') | Inr b \<Rightarrow> Inr b)"

definition MustEncodeUint :: "uint64 \<Rightarrow> int \<Rightarrow> goerr + bytes" where
  "MustEncodeUint v bitwidth = must (EncodeUint v bitwidth)"

definition MustMAC :: "string \<Rightarrow> goerr + bytes" where
  "MustMAC s = must (MAC s)"

subsection \<open>Stripping and clearing\<close>

lemma be_nat_strip [simp]: "be_nat (stripLeadingZeros b) = be_nat b"
proof (cases "dropWhile (\<lambda>c. c = 0) b = []")
  case True
  then have "be_nat b = 0" by (simp add: be_nat_eq_0_iff)
  with True show ?thesis by (simp add: stripLeadingZeros_def)
qed (auto simp: stripLeadingZeros_def Let_def)

lemma canonical_dropWhile: "dropWhile (\<lambda>c. c = 0) b \<noteq> [] \<Longrightarrow> canonical (dropWhile (\<lambda>c. c = 0) b)"
  using hd_dropWhile [of "\<lambda>c. c = 0" b] by (simp add: canonical_def)

lemma canonical_strip [simp]: "canonical (stripLeadingZeros b)"
  by (simp add: stripLeadingZeros_def Let_def canonical_dropWhile) (simp add: canonical_def)

lemma strip_canonical: "canonical b \<Longrightarrow> stripLeadingZeros b = b"
  by (rule canonical_inj) simp_all

lemma length_clearRev [simp]: "length (clearRev bs c) = length bs"
  by (induction bs c rule: clearRev.induct) auto

lemma length_clearLowBits [simp]: "length (clearLowBits v c) = length v"
  by (simp add: clearLowBits_def)

lemma byteLen_pos: "0 < w \<Longrightarrow> w \<le> max_width \<Longrightarrow> byteLen w = (w + 7) div 8"
  by (simp add: byteLen_def wrap64_id go_div_nonneg)

lemma ceil8: "w mod 8 \<noteq> 0 \<Longrightarrow> (w + 7) div 8 = w div 8 + (1::int)"
proof -
  assume "w mod 8 \<noteq> 0"
  then have "(w mod 8 + 7) div 8 = 1" using pos_mod_bound [of 8 w] pos_mod_sign [of 8 w] by simp
  then show ?thesis using div_add1_eq [of w 7 8] by simp
qed

lemma unat_and_clear:
  assumes "c < 8"
  shows "unat (b AND push_bit c 0xff :: byte) = unat b div 2 ^ c * 2 ^ c"
proof -
  have "b AND push_bit c 0xff = push_bit c (drop_bit c b)"
  proof (rule bit_word_eqI)
    fix n assume "n < LENGTH(8)"
    then have n: "n < 8" by simp
    have "bit (0xff :: byte) m" if "m < 8" for m
    proof -
      have "bit (mask 8 :: byte) m" using that by (simp add: bit_mask_iff)
      then show ?thesis by (simp add: mask_eq_exp_minus_1)
    qed
    then show "bit (b AND push_bit c 0xff) n = bit (push_bit c (drop_bit c b)) n"
      using n by (auto simp: bit_simps)
  qed
  moreover have "unat (push_bit c (drop_bit c b)) = unat b div 2 ^ c * 2 ^ c"
  proof -
    have "unat b div 2 ^ c * 2 ^ c < 256"
      using unat_byte [of b] div_times_less_eq_dividend [of "unat b" "2 ^ c"] by linarith
    moreover have "unat (push_bit c (drop_bit c b)) =
        take_bit LENGTH(8) (push_bit c (drop_bit c (take_bit LENGTH(8) (unat b))))"
      by (simp only: unsigned_push_bit_eq unsigned_drop_bit_eq)
    ultimately show ?thesis using unat_byte [of b]
      by (simp add: push_bit_eq_mult drop_bit_eq_div take_bit_nat_eq_self)
  qed
  ultimately show ?thesis by simp
qed

text \<open>\<open>clearLowBits\<close> rounds the value down to a multiple of \<open>2 ^ count\<close>.\<close>

lemma be_nat_clearRev:
  "0 \<le> c \<Longrightarrow> be_nat (rev (clearRev bs c)) = be_nat (rev bs) div 2 ^ nat c * 2 ^ nat c"
proof (induction bs c rule: clearRev.induct)
  case (2 b bs c)
  consider "c = 0" | "8 \<le> c" | "0 < c" "c < 8" using "2.prems" by linarith
  then show ?case
  proof cases
    case 2: 2
    have c: "nat c = 8 + nat (c - 8)" using 2 by simp
    have p: "(2::nat) ^ nat c = 256 * 2 ^ nat (c - 8)" unfolding c power_add by simp
    have "be_nat (rev (b # bs)) div 2 ^ nat c = be_nat (rev bs) div 2 ^ nat (c - 8)"
      using unat_byte [of b] unfolding p div_mult2_eq by (simp add: be_nat_snoc)
    moreover have "be_nat (rev (clearRev bs (c - 8))) = be_nat (rev bs) div 2 ^ nat (c - 8) * 2 ^ nat (c - 8)"
      using 2 "2.IH" by simp
    ultimately show ?thesis using 2 p by (simp add: be_nat_snoc)
  next
    case 3
    define k where "k = nat c"
    have k: "k < 8" "0 < k" using 3 by (auto simp: k_def)
    have p: "(256::nat) = 2 ^ (8 - k) * 2 ^ k" using k by (simp add: power_add [symmetric])
    have "be_nat (rev (b # bs)) = be_nat (rev bs) * 2 ^ (8 - k) * 2 ^ k + unat b"
      using p by (simp add: be_nat_snoc)
    then have "be_nat (rev (b # bs)) div 2 ^ k * 2 ^ k
        = (be_nat (rev bs) * 2 ^ (8 - k) + unat b div 2 ^ k) * 2 ^ k" by simp
    also have "\<dots> = be_nat (rev bs) * 256 + unat b div 2 ^ k * 2 ^ k"
      using p by (simp add: algebra_simps)
    finally show ?thesis using 3 k unat_and_clear [OF k(1), of b]
      by (simp add: be_nat_snoc k_def)
  qed simp
qed simp

lemma be_nat_clearLowBits:
  "0 \<le> c \<Longrightarrow> be_nat (clearLowBits v c) = be_nat v div 2 ^ nat c * 2 ^ nat c"
  using be_nat_clearRev [of c "rev v"] by (simp add: clearLowBits_def)

subsection \<open>EncodeBytes accepts exactly the values that fit\<close>

lemma lowMask_eq_mask: "0 \<le> k \<Longrightarrow> lowMask k = mask (nat k)"
  by (simp add: lowMask_def mask_eq_exp_minus_1)

lemma unat_lowMask: "nat k < 8 \<Longrightarrow> unat (lowMask k) = 2 ^ nat k - 1"
proof -
  assume "nat k < 8"
  then have "(2::nat) ^ nat k \<le> 2 ^ 8" by (intro power_increasing) simp_all
  then have "(2::nat) ^ nat k - 1 < 256" by simp
  moreover have "lowMask k = of_nat (2 ^ nat k - 1)" by (simp add: lowMask_def of_nat_diff)
  ultimately show ?thesis by (simp only: unat_of_nat_byte)
qed

lemma high_bits_clear_iff:
  assumes "0 \<le> k"
  shows "b AND NOT (lowMask k) = 0 \<longleftrightarrow> unat b < 2 ^ nat k"
proof -
  have "b AND NOT (mask (nat k)) = 0 \<longleftrightarrow> take_bit (nat k) b = b"
    unfolding bit_eq_iff by (auto simp: bit_simps dest: bit_imp_le_length)
  also have "\<dots> \<longleftrightarrow> take_bit (nat k) (unat b) = unat b"
    by (simp add: word_unat_eq_iff unsigned_take_bit_eq)
  also have "\<dots> \<longleftrightarrow> unat b < 2 ^ nat k"
    by (simp add: take_bit_nat_eq_self_iff)
  finally show ?thesis using assms by (simp add: lowMask_eq_mask)
qed

lemma digit_less_iff:
  fixes x y r B :: nat
  assumes "r < B"
  shows "x * B + r < y * B \<longleftrightarrow> x < y"
proof
  assume "x * B + r < y * B"
  then have "x * B < y * B" by linarith
  then show "x < y" by simp
next
  assume "x < y"
  then have "(x + 1) * B \<le> y * B" by (intro mult_right_mono) simp_all
  with assms show "x * B + r < y * B" by (simp add: algebra_simps)
qed

text \<open>The widths a canonical byte string of \<open>n + 1\<close> bytes with top byte \<open>b\<close> needs.\<close>

lemma significant_fits_iff:
  assumes "b \<noteq> 0" and w: "0 < w" "w \<le> max_width"
  shows "be_nat (b # bs) < 2 ^ nat w \<longleftrightarrow>
    (int (length (b # bs)) < byteLen w \<or>
     (int (length (b # bs)) = byteLen w \<and> (w mod 8 = 0 \<or> unat b < 2 ^ nat (w mod 8))))"
proof -
  define m where "m = nat (byteLen w)"
  define n where "n = length bs"
  have bl: "byteLen w = (w + 7) div 8" using w by (rule byteLen_pos)
  have m1: "0 < m" "byteLen w = int m" using w by (auto simp: m_def bl)
  have m2: "int m = (w + 7) div 8" using m1 bl by simp
  have up: "be_nat (b # bs) < 256 ^ Suc n" using be_nat_less [of "b # bs"] by (simp add: n_def)
  have lo: "256 ^ n \<le> be_nat (b # bs)" using be_nat_ge [OF assms(1)] by (simp add: n_def)
  have p8: "(256::nat) ^ k = 2 ^ (8 * k)" for k by (simp add: power_mult)
  have wm: "8 * int (m - 1) < w" "w \<le> 8 * int m" using w m1 bl by auto
  consider "Suc n < m" | "Suc n > m" | "Suc n = m" by linarith
  then show ?thesis
  proof cases
    case 1
    then have "8 * int (Suc n) \<le> 8 * int (m - 1)" by simp
    then have "8 * Suc n \<le> nat w" using wm by linarith
    then have "(256::nat) ^ Suc n \<le> 2 ^ nat w" unfolding p8 by (intro power_increasing) simp_all
    then show ?thesis using up 1 m1 by (simp add: n_def)
  next
    case 2
    then have "nat w \<le> 8 * n" using wm by linarith
    then have "(2::nat) ^ nat w \<le> 256 ^ n" unfolding p8 by (intro power_increasing) simp_all
    then show ?thesis using lo 2 m1 by (simp add: n_def)
  next
    case 3
    show ?thesis
    proof (cases "w mod 8 = 0")
      case True
      then have "w = 8 * int m" using m2 by presburger
      then have "nat w = 8 * Suc n" using 3 by simp
      then have "(2::nat) ^ nat w = 256 ^ Suc n" unfolding p8 by simp
      then show ?thesis using up 3 m1 True by (simp add: n_def)
    next
      case False
      define k where "k = nat (w mod 8)"
      have "w div 8 = int n" using 3 m2 ceil8 [OF False] by simp
      then have "w = 8 * int n + w mod 8" using mult_div_mod_eq [of 8 w] by simp
      moreover have "w mod 8 = int k" by (simp add: k_def)
      ultimately have "nat w = 8 * n + k" by linarith
      then have "(2::nat) ^ nat w = 2 ^ k * 256 ^ n" unfolding p8 by (simp add: power_add)
      moreover have "be_nat bs < 256 ^ n" using be_nat_less [of bs] by (simp add: n_def)
      ultimately have "be_nat (b # bs) < 2 ^ nat w \<longleftrightarrow> unat b < 2 ^ k"
        by (simp add: be_nat_Cons n_def [symmetric] digit_less_iff)
      then show ?thesis using False 3 m1 by (simp add: n_def k_def)
    qed
  qed
qed

lemma EncodeBytes_ok_iff:
  assumes "0 < w" "w \<le> max_width"
  shows "isOk (EncodeBytes value w) \<longleftrightarrow> be_nat value < 2 ^ nat w"
proof (cases "dropWhile (\<lambda>c. c = 0) value")
  case Nil
  then have "be_nat value = 0" by (simp add: be_nat_eq_0_iff)
  with Nil assms show ?thesis by (simp add: EncodeBytes_def Let_def)
next
  case (Cons b bs)
  then have "b \<noteq> 0" using hd_dropWhile [of "\<lambda>c. c = 0" "value"] by simp
  moreover have "be_nat (b # bs) = be_nat value" using be_nat_dropWhile [of "value"] Cons by simp
  ultimately have "be_nat value < 2 ^ nat w \<longleftrightarrow>
    (int (length (b # bs)) < byteLen w \<or>
     (int (length (b # bs)) = byteLen w \<and> (w mod 8 = 0 \<or> unat b < 2 ^ nat (w mod 8))))"
    using significant_fits_iff assms by metis
  then show ?thesis using assms Cons
    by (auto simp: EncodeBytes_def Let_def high_bits_clear_iff)
qed

lemma EncodeBytes_Inr:
  assumes "EncodeBytes value w = Inr c"
  shows "c = stripLeadingZeros value"
  using assms
  by (auto simp: EncodeBytes_def stripLeadingZeros_def Let_def split: if_splits)

lemma EncodeBytes_val: "EncodeBytes value w = Inr c \<Longrightarrow> be_nat c = be_nat value"
  by (drule EncodeBytes_Inr) simp

lemma EncodeBytes_canonical: "EncodeBytes value w = Inr c \<Longrightarrow> canonical c"
  by (drule EncodeBytes_Inr) simp

abbreviation uwidth_ok :: "int \<Rightarrow> bool" where
  "uwidth_ok w \<equiv> 0 < w \<and> w \<le> max_width"

abbreviation ufits :: "int \<Rightarrow> nat \<Rightarrow> bool" where
  "ufits w v \<equiv> v < 2 ^ nat w"

interpretation ubytes: canonical_codec EncodeBytes be_nat canonical uwidth_ok ufits
proof unfold_locales
  fix w b assume "uwidth_ok w"
  then show "isOk (EncodeBytes b w) \<longleftrightarrow> ufits w (be_nat b)" by (simp add: EncodeBytes_ok_iff)
qed (auto intro: EncodeBytes_val EncodeBytes_canonical canonical_inj)

text \<open>Every rejection of a value by a valid width carries \<open>ErrInvalidBitWidth\<close>.\<close>

lemma EncodeBytes_error:
  "0 < w \<Longrightarrow> EncodeBytes value w = Inl e \<Longrightarrow> errors_Is fe e ErrInvalidBitWidth"
  by (auto simp: EncodeBytes_def Let_def errors_Is_Errorf_iff split: if_splits)

subsection \<open>DecodeUint and EncodeUint\<close>

lemma decode_step:
  assumes "unat v < 2 ^ 56"
  shows "unat (push_bit 8 v OR ucast (c :: byte) :: uint64) = unat v * 256 + unat c"
proof -
  have disj: "push_bit 8 v OR ucast c = push_bit 8 v + (ucast c :: uint64)"
    by (rule disjunctive_add [symmetric]) (auto simp: bit_simps dest: bit_imp_le_length leD)
  have a: "unat (push_bit 8 v) = unat v * 256"
  proof -
    have "unat (push_bit 8 v) = take_bit LENGTH(64) (push_bit 8 (unat v))"
      by (simp only: unsigned_push_bit_eq)
    then show ?thesis using assms by (simp add: push_bit_eq_mult take_bit_nat_eq_self)
  qed
  have b: "unat (ucast c :: uint64) = unat c"
    by (simp add: unsigned_ucast_eq take_bit_nat_eq_self unat_byte [THEN less_trans])
  have "unat v * 256 + unat c < 2 ^ 64" using assms unat_byte [of c] by simp
  then show ?thesis using a b
    by (simp add: disj unat_word_ariths)
qed

lemma unat_decode_fold:
  "length b \<le> 8 \<Longrightarrow> unat (foldl (\<lambda>v c. push_bit 8 v OR ucast (c :: byte)) (0 :: uint64) b) = be_nat b"
proof (induction b rule: rev_induct)
  case (snoc c b)
  have "be_nat b < 256 ^ length b" by (rule be_nat_less)
  also have "\<dots> \<le> 256 ^ 7" using snoc.prems by (intro power_increasing) simp_all
  finally have "be_nat b < 2 ^ 56" by simp
  with snoc show ?case by (simp add: decode_step be_nat_snoc)
qed simp

lemma DecodeUint_val: "DecodeUint b = Inr v \<Longrightarrow> unat v = be_nat b"
  by (auto simp: DecodeUint_def unat_decode_fold split: if_splits)

lemma DecodeUint_ok_iff: "isOk (DecodeUint b) \<longleftrightarrow> length b \<le> 8"
  by (simp add: DecodeUint_def)

lemma unat_byte_of_word:
  "unat (ucast (drop_bit (8 * i) v :: uint64) :: byte) = unat v div 256 ^ i mod 256"
proof -
  have "unat (ucast (drop_bit (8 * i) v) :: byte) = take_bit LENGTH(8) (unat (drop_bit (8 * i) v))"
    by (simp only: unsigned_ucast_eq)
  moreover have "unat (drop_bit (8 * i) v) = drop_bit (8 * i) (take_bit LENGTH(64) (unat v))"
    by (simp only: unsigned_drop_bit_eq)
  moreover have "take_bit LENGTH(64) (unat v) = unat v"
    by (rule take_bit_nat_eq_self) (rule unsigned_less)
  ultimately show ?thesis by (simp add: drop_bit_eq_div take_bit_eq_mod power_mult)
qed

lemma be_nat_digits:
  "be_nat (map (\<lambda>i. ucast (drop_bit (8 * i) (v :: uint64))) (rev [0..<n])) = unat v mod 256 ^ n"
proof (induction n)
  case (Suc n)
  have "unat v mod (256 ^ n * 256) = 256 ^ n * (unat v div 256 ^ n mod 256) + unat v mod 256 ^ n"
    by (rule mod_mult2_eq)
  then have "unat v mod 256 ^ Suc n = (unat v div 256 ^ n mod 256) * 256 ^ n + unat v mod 256 ^ n"
    by (simp only: power_Suc mult.commute)
  with Suc show ?case by (simp add: be_nat_Cons unat_byte_of_word)
qed simp

lemma be_nat_putUint64: "be_nat (putUint64 v) = unat v"
proof -
  have "rev [0..<8] = [7, 6, 5, 4, 3, 2, 1, 0]" by (simp add: upt_rec)
  then have "be_nat (putUint64 v) = unat v mod 256 ^ 8"
    unfolding putUint64_def by (metis be_nat_digits)
  moreover have "unat v < 2 ^ LENGTH(64)" by (rule unsigned_less)
  ultimately show ?thesis by simp
qed

lemma strip_putUint64_0: "stripLeadingZeros (putUint64 0) = [0]"
  by (rule canonical_inj) (simp_all add: be_nat_putUint64, simp add: canonical_def)

lemma unat_exp64: "0 \<le> w \<Longrightarrow> w < 64 \<Longrightarrow> unat (2 ^ nat w :: uint64) = 2 ^ nat w"
proof -
  assume "0 \<le> w" "w < 64"
  then have "(2::nat) ^ nat w < 2 ^ 64" by (intro power_strict_increasing) auto
  moreover have "unat (of_nat (2 ^ nat w) :: uint64) = take_bit LENGTH(64) (2 ^ nat w)"
    by (simp only: unsigned_of_nat of_nat_id)
  ultimately show ?thesis using \<open>w < 64\<close> by (simp add: take_bit_nat_eq_self)
qed

lemma EncodeUint_ok_iff: "isOk (EncodeUint v w) \<longleftrightarrow> 0 < w \<and> w \<le> 64 \<and> unat v < 2 ^ nat w"
proof -
  have "unat v < 2 ^ 64" using unsigned_less [of v, where ?'a = nat] by simp
  moreover have "v \<ge> push_bit (nat w) 1 \<longleftrightarrow> 2 ^ nat w \<le> unat v" if "0 < w" "w < 64"
    using that by (simp add: word_le_nat_alt unat_exp64)
  ultimately show ?thesis by (cases "w = 64") (auto simp: EncodeUint_def)
qed

lemma EncodeUint_Inr: "EncodeUint v w = Inr b \<Longrightarrow> b = stripLeadingZeros (putUint64 v)"
  by (auto simp: EncodeUint_def strip_putUint64_0 split: if_splits)

text \<open>The 64-bit encoder is the byte encoder applied to the eight big-endian bytes.\<close>

lemma EncodeUint_EncodeBytes:
  assumes "0 < w" "w \<le> 64"
  shows "EncodeUint v w = Inr b \<longleftrightarrow> EncodeBytes (putUint64 v) w = Inr b"
proof -
  have "isOk (EncodeUint v w) \<longleftrightarrow> isOk (EncodeBytes (putUint64 v) w)"
    using assms by (simp add: EncodeUint_ok_iff EncodeBytes_ok_iff be_nat_putUint64)
  then show ?thesis using EncodeUint_Inr [of v w] EncodeBytes_Inr [of "putUint64 v" w]
    by (cases "EncodeUint v w"; cases "EncodeBytes (putUint64 v) w") auto
qed

lemma canonical_length_le:
  assumes "canonical b" "be_nat b < 256 ^ n" "0 < n"
  shows "length b \<le> n"
proof (rule ccontr)
  assume "\<not> length b \<le> n"
  then obtain x xs where b: "b = x # xs" "n \<le> length xs" by (cases b) auto
  then have "x \<noteq> 0" using assms(1,3) by (cases xs) (auto simp: canonical_def)
  then have "256 ^ length xs \<le> be_nat b" using b be_nat_ge by simp
  moreover have "(256::nat) ^ n \<le> 256 ^ length xs" using b by (intro power_increasing) simp_all
  ultimately show False using assms(2) by linarith
qed

subsection \<open>Masks and ranges\<close>

lemma LPMMask_Inr_iff:
  assumes "0 < w" "w \<le> max_width" "0 \<le> p" "p \<le> w"
  shows "LPMMask value p w = Inr c \<longleftrightarrow>
    be_nat value < 2 ^ nat w \<and> canonical c \<and>
    be_nat c = be_nat value div 2 ^ nat (w - p) * 2 ^ nat (w - p)"
proof
  assume "LPMMask value p w = Inr c"
  then obtain m where "EncodeBytes value w = Inr m" "c = stripLeadingZeros (clearLowBits m (w - p))"
    using assms by (auto simp: LPMMask_def bindE_Inr_iff)
  then show "be_nat value < 2 ^ nat w \<and> canonical c \<and>
      be_nat c = be_nat value div 2 ^ nat (w - p) * 2 ^ nat (w - p)"
    using assms by (simp add: ubytes.encode_Inr_iff be_nat_clearLowBits)
next
  assume c: "be_nat value < 2 ^ nat w \<and> canonical c \<and>
      be_nat c = be_nat value div 2 ^ nat (w - p) * 2 ^ nat (w - p)"
  then obtain m where m: "EncodeBytes value w = Inr m"
    using assms by (auto simp: EncodeBytes_ok_iff [symmetric] isOk_iff)
  then have "be_nat (clearLowBits m (w - p)) = be_nat c"
    using assms c by (simp add: be_nat_clearLowBits EncodeBytes_val)
  then have "stripLeadingZeros (clearLowBits m (w - p)) = c" using c by (intro canonical_inj) simp_all
  with m assms show "LPMMask value p w = Inr c" by (simp add: LPMMask_def)
qed

lemma be_nat_ones: "be_nat (replicate n 0xff) = 256 ^ n - 1"
proof (induction n)
  case (Suc n)
  have "unat (0xff :: byte) = 255" by simp
  with Suc show ?case by (simp add: be_nat_Cons)
qed simp

lemma be_nat_full_mask:
  assumes "0 < w" "w \<le> max_width"
  defines "ones \<equiv> replicate (nat (byteLen w)) (0xff :: byte)"
  shows "be_nat (if w mod 8 \<noteq> 0 then ones[0 := lowMask (w mod 8)] else ones) = 2 ^ nat w - 1"
proof -
  have bl: "byteLen w = (w + 7) div 8" using assms(1,2) by (rule byteLen_pos)
  show ?thesis
  proof (cases "w mod 8 = 0")
    case True
    then have "w = 8 * byteLen w" unfolding bl by presburger
    then have "nat w = 8 * nat (byteLen w)" using assms(1) by simp
    then have "(256::nat) ^ nat (byteLen w) = 2 ^ nat w" by (simp add: power_mult)
    with True show ?thesis by (simp add: ones_def be_nat_ones)
  next
    case False
    define k n where "k = nat (w mod 8)" and "n = nat (w div 8)"
    have bn: "nat (byteLen w) = Suc n"
      using False bl assms(1) ceil8 [of w] by (simp add: n_def nat_add_distrib)
    have k: "0 < k" "k < 8" using False pos_mod_bound [of 8 w] pos_mod_sign [of 8 w] by (auto simp: k_def)
    have "unat (lowMask (w mod 8)) = 2 ^ k - 1"
      using k(2) by (simp add: unat_lowMask k_def)
    moreover have "int n = w div 8" "int k = w mod 8"
      using assms(1) by (simp_all add: n_def k_def pos_imp_zdiv_nonneg_iff)
    then have "nat w = 8 * n + k" using mult_div_mod_eq [of 8 w] by linarith
    then have "(2::nat) ^ nat w = 2 ^ k * 256 ^ n" by (simp add: power_add power_mult)
    moreover have "(1::nat) \<le> 256 ^ n" "(1::nat) \<le> 2 ^ k" by simp_all
    then have "(2 ^ k - 1) * 256 ^ n + (256 ^ n - 1) = 2 ^ k * 256 ^ n - (1::nat)"
      by (simp add: diff_mult_distrib)
    ultimately show ?thesis using False bn by (simp add: ones_def be_nat_Cons be_nat_ones)
  qed
qed

lemma TernaryMask_Inr_iff:
  assumes "0 < w" "w \<le> max_width" "0 \<le> p" "p \<le> w"
  shows "TernaryMask p w = Inr c \<longleftrightarrow> canonical c \<and> be_nat c = 2 ^ nat w - 2 ^ nat (w - p)"
proof -
  have fin: "d = c \<longleftrightarrow> canonical c \<and> be_nat c = n" if "canonical d" "be_nat d = n" for d n
    using that canonical_inj by metis
  show ?thesis
  proof (cases "p = 0")
    case True
    have "canonical [0]" by (simp add: canonical_def)
    with True assms fin [of "[0]" 0] show ?thesis by (simp add: TernaryMask_def)
  next
    case False
    define k where "k = nat (w - p)"
    define m where "m = (let ones = replicate (nat (byteLen w)) (0xff :: byte) in
        if w mod 8 \<noteq> 0 then ones[0 := lowMask (w mod 8)] else ones)"
    have m: "be_nat m = 2 ^ nat w - 1" using be_nat_full_mask [OF assms(1,2)] by (simp add: m_def Let_def)
    have "nat w = nat p + k" using assms by (simp add: k_def)
    then have w: "(2::nat) ^ nat w = 2 ^ nat p * 2 ^ k" by (simp add: power_add)
    have "(2 ^ nat w - 1) div 2 ^ k = 2 ^ nat p - (1::nat)"
    proof (rule div_nat_eqI)
      show "2 ^ k * (2 ^ nat p - 1) \<le> 2 ^ nat w - (1::nat)"
        unfolding w by (simp add: diff_mult_distrib2 mult.commute) (simp add: diff_le_mono2 Suc_leI)
      show "2 ^ nat w - 1 < 2 ^ k * Suc (2 ^ nat p - (1::nat))"
        unfolding w by (simp add: mult.commute)
    qed
    then have "be_nat (clearLowBits m (w - p)) = 2 ^ nat w - 2 ^ k"
      using assms m by (simp add: be_nat_clearLowBits k_def [symmetric] w diff_mult_distrib)
    moreover have "TernaryMask p w = Inr (stripLeadingZeros (clearLowBits m (w - p)))"
    proof -
      have "0 \<le> byteLen w" using assms by (simp add: byteLen_pos)
      then show ?thesis using assms False by (simp add: TernaryMask_def m_def Let_def)
    qed
    ultimately show ?thesis
      using fin [of "stripLeadingZeros (clearLowBits m (w - p))"] by (simp add: k_def)
  qed
qed

text \<open>Aligning at the least significant byte: the shorter operand is padded with zero bytes.\<close>

lemma applyMaskBytes_pad:
  "applyMaskBytes v m = map2 (AND) v
     (if length v \<le> length m then drop (length m - length v) m
      else replicate (length v - length m) 0 @ m)"
proof (rule nth_equalityI)
  fix i assume "i < length (applyMaskBytes v m)"
  then have i: "i < length v" by (simp add: applyMaskBytes_def)
  show "applyMaskBytes v m ! i = map2 (AND) v
     (if length v \<le> length m then drop (length m - length v) m
      else replicate (length v - length m) 0 @ m) ! i"
  proof (cases "length v \<le> length m")
    case True
    then have "nat (int i + int (length m) - int (length v)) = length m - length v + i" by simp
    with True i show ?thesis by (simp add: applyMaskBytes_def)
  next
    case False
    then have "nat (int i + int (length m) - int (length v)) = i - (length v - length m)" by linarith
    with False i show ?thesis by (auto simp: applyMaskBytes_def nth_append)
  qed
qed (simp add: applyMaskBytes_def)

lemma and_take_bit:
  fixes x y :: nat
  assumes "take_bit n x = x"
  shows "x AND y = x AND take_bit n y"
proof (rule bit_eqI)
  fix k
  have "bit x k \<Longrightarrow> k < n" using assms by (metis bit_take_bit_iff)
  then show "bit (x AND y) k = bit (x AND take_bit n y) k" by (auto simp: bit_simps)
qed

lemma be_nat_applyMaskBytes: "be_nat (applyMaskBytes v m) = be_nat v AND be_nat m"
proof (cases "length v \<le> length m")
  case True
  define k where "k = length m - length v"
  have "be_nat m = be_nat (take k m) * 256 ^ length v + be_nat (drop k m)"
    using be_nat_append [of "take k m" "drop k m"] True by (simp add: k_def)
  moreover have "be_nat (drop k m) < 256 ^ length v" using be_nat_less [of "drop k m"] True by (simp add: k_def)
  ultimately have "take_bit (8 * length v) (be_nat m) = be_nat (drop k m)"
    by (simp add: take_bit_eq_mod power_mult)
  moreover have "take_bit (8 * length v) (be_nat v) = be_nat v"
    using be_nat_less [of v] by (simp add: take_bit_nat_eq_self power_mult)
  ultimately have "be_nat v AND be_nat m = be_nat v AND be_nat (drop k m)"
    using and_take_bit [of "8 * length v" "be_nat v" "be_nat m"] by simp
  with True show ?thesis by (simp add: applyMaskBytes_pad k_def be_nat_and)
next
  case False
  then show ?thesis by (simp add: applyMaskBytes_pad be_nat_and)
qed

lemma TernaryApply_Inr_iff:
  assumes "0 < w" "w \<le> max_width"
  shows "TernaryApply value m w = Inr c \<longleftrightarrow>
    be_nat value < 2 ^ nat w \<and> be_nat m < 2 ^ nat w \<and> canonical c \<and> be_nat c = be_nat value AND be_nat m"
proof
  assume "TernaryApply value m w = Inr c"
  then obtain x y where "EncodeBytes value w = Inr x" "EncodeBytes m w = Inr y"
      "c = stripLeadingZeros (applyMaskBytes x y)"
    by (auto simp: TernaryApply_def bindE_Inr_iff)
  then show "be_nat value < 2 ^ nat w \<and> be_nat m < 2 ^ nat w \<and> canonical c \<and> be_nat c = be_nat value AND be_nat m"
    using assms by (simp add: ubytes.encode_Inr_iff be_nat_applyMaskBytes)
next
  assume c: "be_nat value < 2 ^ nat w \<and> be_nat m < 2 ^ nat w \<and> canonical c \<and> be_nat c = be_nat value AND be_nat m"
  then obtain x y where xy: "EncodeBytes value w = Inr x" "EncodeBytes m w = Inr y"
    using assms by (metis EncodeBytes_ok_iff isOk_iff)
  then have "stripLeadingZeros (applyMaskBytes x y) = c"
    using c by (intro canonical_inj) (simp_all add: be_nat_applyMaskBytes EncodeBytes_val)
  with xy show "TernaryApply value m w = Inr c" by (simp add: TernaryApply_def)
qed

lemma bytesGreater_iff:
  "length as = length bs \<Longrightarrow> bytesGreater as bs \<longleftrightarrow> be_nat bs < be_nat as"
proof (induction as bs rule: list_induct2)
  case (Cons a as b bs)
  have l: "be_nat as < 256 ^ length bs" "be_nat bs < 256 ^ length bs"
    using be_nat_less [of as] be_nat_less [of bs] Cons.hyps by simp_all
  consider "a = b" | "b < a" | "a < b" by force
  then show ?case
  proof cases
    case 1
    then show ?thesis using Cons by (simp add: be_nat_Cons)
  next
    case 2
    then have "unat b < unat a" by (simp add: word_less_nat_alt)
    then have "unat b * 256 ^ length bs + be_nat bs < unat a * 256 ^ length bs"
      using digit_less_iff l(2) by blast
    then have "be_nat (b # bs) < be_nat (a # as)" using Cons.hyps by (simp add: be_nat_Cons)
    then show ?thesis using 2 by simp
  next
    case 3
    then have "unat a < unat b" by (simp add: word_less_nat_alt)
    then have "unat a * 256 ^ length bs + be_nat as < unat b * 256 ^ length bs"
      using digit_less_iff l(1) by blast
    then have "\<not> be_nat (b # bs) < be_nat (a # as)" using Cons.hyps by (simp add: be_nat_Cons)
    then show ?thesis using 3 by auto
  qed
qed simp

text \<open>The comparison of \<open>ValidateRange\<close>: length first, then bytes.\<close>

lemma canonical_greater_iff:
  assumes "canonical l" "canonical h"
  shows "length l > length h \<or> (length l = length h \<and> bytesGreater l h) \<longleftrightarrow> be_nat h < be_nat l"
proof -
  have "be_nat y < be_nat x" if "canonical x" "canonical y" "length y < length x" for x y
  proof -
    have "hd x \<noteq> 0" using that by (cases y) (auto simp: canonical_def)
    then show ?thesis using that by (intro canonical_length_mono) (auto simp: canonical_def)
  qed
  then show ?thesis using assms bytesGreater_iff [of l h]
    by (metis linorder_less_linear order.asym)
qed

lemma ValidateRange_ok_iff:
  assumes "0 < w" "w \<le> max_width"
  shows "isOk (ValidateRange low high w) \<longleftrightarrow>
    be_nat low < 2 ^ nat w \<and> be_nat high < 2 ^ nat w \<and> be_nat low \<le> be_nat high"
proof -
  have *: "(length l > length h \<or> (length l = length h \<and> bytesGreater l h)) \<longleftrightarrow> be_nat high < be_nat low"
    if "EncodeBytes low w = Inr l" "EncodeBytes high w = Inr h" for l h
    using that canonical_greater_iff EncodeBytes_canonical EncodeBytes_val by metis
  show ?thesis
    using EncodeBytes_ok_iff [OF assms, of low] EncodeBytes_ok_iff [OF assms, of high] *
    by (cases "EncodeBytes low w"; cases "EncodeBytes high w") (auto simp: ValidateRange_def)
qed

subsection \<open>Hexadecimal literals\<close>

text \<open>The two digits that \<open>FormatHex\<close> prints for a byte.\<close>

lemma hexDigit_0: "hexDigit 0 = CHR ''0''"
  by (simp add: hexDigit_def char_of_def bit_simps)

lemma formatHexByte_padded:
  "(let part = formatHexByte b in if length part = 1 then ''0'' @ part else part) =
   [hexDigit (unat b div 16), hexDigit (unat b mod 16)]"
  by (simp add: formatHexByte_def Let_def hexDigit_0)

lemma FormatHex_Join:
  "v \<noteq> [] \<Longrightarrow> FormatHex v = Join (map (\<lambda>b. [hexDigit (unat b div 16), hexDigit (unat b mod 16)]) v) '':''"
  unfolding FormatHex_def formatHexByte_padded by simp

lemma nibble_bounds [simp]: "unat (b :: byte) div 16 < 16" "unat b mod 16 < 16"
  using unat_byte [of b] by (simp_all add: less_mult_imp_div_less)

lemma hexDecode_digits:
  "hexDecode (concat (map (\<lambda>b. [hexDigit (unat b div 16), hexDigit (unat b mod 16)]) v)) = Some v"
proof (induction v)
  case (Cons b v)
  then show ?case
    using nibbles_join [of b] by (simp add: hexVal_hexDigit del: of_nat_div of_nat_mod)
qed simp

lemma hexDigit_not_x: "n < 16 \<Longrightarrow> hexDigit n \<noteq> CHR ''x''"
  using hexDigit_range [of n] by auto

abbreviation hexPair :: "byte \<Rightarrow> string" where
  "hexPair b \<equiv> [hexDigit (unat b div 16), hexDigit (unat b mod 16)]"

lemma lower_hexPair_Join: "ToLower (Join (map hexPair v) '':'') = Join (map hexPair v) '':''"
proof -
  have "ToLower '':'' = '':''" by (simp add: ToLower_def lowerChar_def)
  moreover have "ToLower (hexPair b) = hexPair b" for b by (simp add: ToLower_def lowerChar_hexDigit)
  ultimately show ?thesis by (simp add: ToLower_Join o_def)
qed

lemma hexPair_Join_no_prefix: "\<not> HasPrefix (Join (map hexPair v) '':'') ''0x''"
proof -
  have "hexDigit (unat b mod 16) \<noteq> CHR ''x''" for b :: byte
    by (rule hexDigit_not_x) simp
  then show ?thesis
    by (cases v rule: list.exhaust; cases "tl v") (auto simp: HasPrefix_def)
qed

lemma concat_hexPair_even: "even (length (concat (map hexPair v)))"
  by (induction v) simp_all

lemma ParseHex_hexPair:
  "ParseHex (Join (map hexPair v) '':'') = Inr (stripLeadingZeros v)"
proof -
  have "dropChars '':'' (Join (map hexPair v) '':'') = concat (map hexPair v)"
  proof (rule dropChars_Join)
    have "hexDigit (unat b div 16) \<noteq> CHR '':''" "hexDigit (unat b mod 16) \<noteq> CHR '':''" for b :: byte
      by (simp_all add: hexDigit_not_colon)
    then show "\<forall>w\<in>set (map hexPair v). set '':'' \<inter> set w = {}" by (simp add: eq_commute)
  qed simp
  then show ?thesis
    using concat_hexPair_even [of v] hexDecode_digits [of v]
    by (simp add: ParseHex_def Let_def TrimPrefix_def hexPair_Join_no_prefix lower_hexPair_Join
        even_iff_mod_2_eq_zero)
qed

lemma ParseHex_FormatHex_lemma: "ParseHex (FormatHex v) = Inr (stripLeadingZeros v)"
proof (cases "v = []")
  case True
  have "ParseHex ''0'' = Inr [0]" by code_simp
  with True show ?thesis by (simp add: FormatHex_def stripLeadingZeros_def)
qed (simp only: FormatHex_Join ParseHex_hexPair not_False_eq_True)

subsection \<open>Prefixes as masks\<close>

text \<open>Clearing the low bits of a value that fits is masking with the prefix mask.\<close>

lemma prefix_mask_and:
  fixes x :: nat
  assumes "x < 2 ^ n" "k \<le> n"
  shows "x AND (2 ^ n - 2 ^ k) = x div 2 ^ k * 2 ^ k"
proof -
  have m: "(2::nat) ^ n - 2 ^ k = push_bit k (mask (n - k))"
    using assms(2) by (simp add: push_bit_eq_mult mask_eq_exp_minus_1 diff_mult_distrib flip: power_add)
  have "take_bit n x = x" using assms(1) by (simp add: take_bit_nat_eq_self)
  then have "bit x j \<Longrightarrow> j < n" for j by (metis bit_take_bit_iff)
  then have "x AND push_bit k (mask (n - k)) = push_bit k (drop_bit k x)"
    by (intro bit_eqI) (auto simp: bit_simps intro: diff_less_mono)
  then show ?thesis by (simp add: m push_bit_eq_mult drop_bit_eq_div)
qed

lemma TernaryMask_exists:
  assumes "0 < w" "w \<le> max_width" "0 \<le> p" "p \<le> w"
  shows "\<exists>m. TernaryMask p w = Inr m"
proof -
  have "byteLen w \<ge> 0" using assms by (simp add: byteLen_pos)
  then show ?thesis using assms by (simp add: TernaryMask_def Let_def)
qed

subsection \<open>Properties\<close>

text \<open>C14. \<open>EncodeBytes\<close> accepts a byte string exactly when its big-endian value fits the bit
  width, and then returns the one canonical string (no leading zero byte, at least one byte) of
  that value; every rejection of a value matches \<open>ErrInvalidBitWidth\<close>.\<close>

theorem EncodeBytes_correct:
  assumes "0 < w" "w \<le> max_width"
  shows "(EncodeBytes value w = Inr c \<longleftrightarrow>
            be_nat value < 2 ^ nat w \<and> canonical c \<and> be_nat c = be_nat value) \<and>
         (be_nat value \<ge> 2 ^ nat w \<longrightarrow>
            (\<exists>e. EncodeBytes value w = Inl e \<and> errors_Is fe e ErrInvalidBitWidth))"
  using assms ubytes.encode_Inr_iff [of w "value" c] ubytes.encode_error_iff [of w "value"]
    EncodeBytes_error [OF assms(1)]
  by fastforce

theorem EncodeBytes_correct_witness:
  "EncodeBytes [0, 1, 0x2a] 9 = Inr [1, 0x2a] \<and> \<not> isOk (EncodeBytes [2, 0x2a] 9)"
proof -
  have "EncodeBytes [0, 1, 0x2a] 9 = Inr [1, 0x2a]"
    using EncodeBytes_correct [of 9 "[0, 1, 0x2a]" "[1, 0x2a]" "\<lambda>e. (undefined, False)"]
    by (simp add: be_nat_def canonical_def)
  moreover have "\<exists>e. EncodeBytes [2, 0x2a] 9 = Inl e"
    using EncodeBytes_correct [of 9 "[2, 0x2a]" "[]" "\<lambda>e. (undefined, False)"]
    by (auto simp: be_nat_def)
  ultimately show ?thesis by auto
qed

text \<open>\<open>EncodeUint\<close> and \<open>DecodeUint\<close> are inverse: every 64-bit value that fits a width in 1..64
  is encoded, its encoding is canonical, is accepted unchanged by \<open>EncodeBytes\<close> at that width, and
  decodes to the value; every other value or width is an error.\<close>

theorem EncodeUint_roundtrip:
  "(isOk (EncodeUint v w) \<longleftrightarrow> 0 < w \<and> w \<le> 64 \<and> unat v < 2 ^ nat w) \<and>
   (\<forall>b. EncodeUint v w = Inr b \<longrightarrow>
      canonical b \<and> EncodeBytes b w = Inr b \<and> DecodeUint b = Inr v)"
proof (intro conjI allI impI)
  fix b assume e: "EncodeUint v w = Inr b"
  then have w: "0 < w" "w \<le> 64" using EncodeUint_ok_iff [of v w] by auto
  have b: "b = stripLeadingZeros (putUint64 v)" using e by (rule EncodeUint_Inr)
  show c: "canonical b" by (simp add: b)
  have v: "be_nat b = unat v" by (simp add: b be_nat_putUint64)
  have "EncodeBytes (putUint64 v) w = Inr b" using e w EncodeUint_EncodeBytes by blast
  then show "EncodeBytes b w = Inr b" using w ubytes.encode_idem by simp
  have "unat v < 2 ^ LENGTH(64)" by (rule unsigned_less)
  then have "length b \<le> 8" using c v by (intro canonical_length_le) simp_all
  then obtain u where u: "DecodeUint b = Inr u" using DecodeUint_ok_iff isOk_iff by metis
  then have "unat u = unat v" using DecodeUint_val v by simp
  then show "DecodeUint b = Inr v" using u by (simp add: word_unat_eq_iff)
qed (rule EncodeUint_ok_iff)

theorem EncodeUint_roundtrip_witness:
  "EncodeUint 300 9 = Inr [1, 44] \<and> DecodeUint [1, 44] = Inr 300"
proof -
  have "EncodeUint 300 9 = Inr [1, 44]" by code_simp
  then show ?thesis using EncodeUint_roundtrip [of 300 9] by blast
qed

text \<open>C23. \<open>LPMMask\<close> is the prefix mask of \<open>TernaryMask\<close> applied by \<open>TernaryApply\<close>: the two ways to
  cut a value to its first \<open>p\<close> bits agree on every valid prefix length, on the result and on which
  values are rejected. The mask itself has the value of \<open>p\<close> ones followed by zeros.\<close>

theorem LPMMask_is_ternary:
  assumes "0 < w" "w \<le> max_width" "0 \<le> p" "p \<le> w"
  shows "\<exists>m. TernaryMask p w = Inr m \<and> be_nat m = 2 ^ nat w - 2 ^ nat (w - p) \<and> canonical m \<and>
             (\<forall>c. LPMMask value p w = Inr c \<longleftrightarrow> TernaryApply value m w = Inr c)"
proof -
  obtain m where m: "TernaryMask p w = Inr m" using TernaryMask_exists [OF assms] by blast
  then have v: "canonical m" "be_nat m = 2 ^ nat w - 2 ^ nat (w - p)"
    using TernaryMask_Inr_iff [OF assms] by auto
  have "be_nat value < 2 ^ nat w \<Longrightarrow>
      be_nat value AND be_nat m = be_nat value div 2 ^ nat (w - p) * 2 ^ nat (w - p)"
    unfolding v by (rule prefix_mask_and) (use assms in auto)
  then have "LPMMask value p w = Inr c \<longleftrightarrow> TernaryApply value m w = Inr c" for c
    unfolding LPMMask_Inr_iff [OF assms] TernaryApply_Inr_iff [OF assms(1,2)] by (auto simp: v)
  with m v show ?thesis by blast
qed

theorem LPMMask_is_ternary_witness:
  "\<exists>m. TernaryMask 8 12 = Inr m \<and> be_nat m = 0xff0 \<and> TernaryApply [0xa, 0xbc] m 12 = Inr [0xa, 0xb0]"
proof -
  have "LPMMask [0xa, 0xbc] 8 12 = Inr [0xa, 0xb0]" by code_simp
  then show ?thesis using LPMMask_is_ternary [of 12 8 "[0xa, 0xbc]"] by auto
qed

text \<open>\<open>ValidateRange\<close> succeeds exactly when both endpoints fit the width and low is at most
  high as numbers, whatever redundant leading zeros the two strings carry.\<close>

theorem ValidateRange_correct:
  assumes "0 < w" "w \<le> max_width"
  shows "isOk (ValidateRange low high w) \<longleftrightarrow>
    be_nat low < 2 ^ nat w \<and> be_nat high < 2 ^ nat w \<and> be_nat low \<le> be_nat high"
  using assms by (rule ValidateRange_ok_iff)

theorem ValidateRange_correct_witness:
  "isOk (ValidateRange [0, 0, 9] [1, 0] 16) \<and> \<not> isOk (ValidateRange [2, 0] [1, 0xff] 16)"
  using ValidateRange_correct [of 16 "[0, 0, 9]" "[1, 0]"] ValidateRange_correct [of 16 "[2, 0]" "[1, 0xff]"]
  by (simp add: be_nat_def)

text \<open>Printing a byte string with \<open>FormatHex\<close> and reading it back with \<open>ParseHex\<close> gives the
  canonical form of its value; a canonical string is read back unchanged.\<close>

theorem ParseHex_FormatHex:
  "ParseHex (FormatHex v) = Inr (stripLeadingZeros v) \<and>
   (canonical v \<longrightarrow> ParseHex (FormatHex v) = Inr v)"
  using ParseHex_FormatHex_lemma strip_canonical by simp

theorem ParseHex_FormatHex_witness: "ParseHex (FormatHex [0x0a, 0xff]) = Inr [0x0a, 0xff]"
  using ParseHex_FormatHex [of "[0x0a, 0xff]"] by (auto simp: canonical_def)

text \<open>C24. The byte length of a bit width above \<open>2 ^ 63 - 8\<close> overflows Go's int and is negative:
  \<open>EncodeBytes\<close> then rejects every non-zero value although it fits, and \<open>TernaryMask\<close> panics
  where the package promises an error.\<close>

theorem byteLen_overflow:
  assumes "max_width < w" "w < 2 ^ 63"
  shows "byteLen w < 0 \<and> (be_nat value \<noteq> 0 \<longrightarrow> \<not> isOk (EncodeBytes value w)) \<and>
         TernaryMask w w = Inl (GoPanic ''makeslice: len out of range'')"
proof -
  have "w + 7 + 2 ^ 63 = (w + 7 - 2 ^ 63) + 2 ^ 64" by simp
  then have "(w + 7 + 2 ^ 63) mod 2 ^ 64 = (w + 7 - 2 ^ 63) mod 2 ^ 64"
    by (metis mod_add_self2)
  also have "\<dots> = w + 7 - 2 ^ 63" using assms by (intro mod_pos_pos_trivial) auto
  finally have "wrap64 (w + 7) = w + 7 - 2 ^ 64" by (simp add: wrap64_def)
  then have neg: "byteLen w < 0" using assms by (simp add: byteLen_def go_div_def sgn_if)
  moreover have "dropWhile (\<lambda>c. c = 0) value \<noteq> []" if "be_nat value \<noteq> 0"
    using that by (simp add: be_nat_eq_0_iff)
  ultimately show ?thesis using assms by (auto simp: EncodeBytes_def TernaryMask_def Let_def)
qed

theorem byteLen_overflow_witness:
  "\<not> isOk (EncodeBytes [1] (2 ^ 63 - 1)) \<and> TernaryMask (2 ^ 63 - 1) (2 ^ 63 - 1) = Inl (GoPanic ''makeslice: len out of range'')"
  using byteLen_overflow [of "2 ^ 63 - 1" "[1]"] by (simp add: be_nat_def)

end
