(* ===== verification/P4Info.thy ===== *)
theory P4Info
  imports Codec
begin

text \<open>
  The P4Info messages (package \<^verbatim>\<open>p4configv1\<close>, generated by protoc) as the sources read them:
  one record per message with the fields the program uses. A nil message is \<open>None\<close> where the
  program can meet one, and the generated getters on nil messages are the definitions
  \<open>Get...\<close>, which return the zero value. Protobuf enums are open, so they are \<open>int\<close>s with
  named values.
\<close>

subsection \<open>Enumerations\<close>

abbreviation (input) MatchField_UNSPECIFIED :: int where "MatchField_UNSPECIFIED \<equiv> 0"
abbreviation (input) MatchField_EXACT :: int where "MatchField_EXACT \<equiv> 2"
abbreviation (input) MatchField_LPM :: int where "MatchField_LPM \<equiv> 3"
abbreviation (input) MatchField_TERNARY :: int where "MatchField_TERNARY \<equiv> 4"
abbreviation (input) MatchField_RANGE :: int where "MatchField_RANGE \<equiv> 5"
abbreviation (input) MatchField_OPTIONAL :: int where "MatchField_OPTIONAL \<equiv> 6"

abbreviation (input) ActionRef_TABLE_AND_DEFAULT :: int where "ActionRef_TABLE_AND_DEFAULT \<equiv> 0"
abbreviation (input) ActionRef_TABLE_ONLY :: int where "ActionRef_TABLE_ONLY \<equiv> 1"
abbreviation (input) ActionRef_DEFAULT_ONLY :: int where "ActionRef_DEFAULT_ONLY \<equiv> 2"

abbreviation (input) Table_NO_TIMEOUT :: int where "Table_NO_TIMEOUT \<equiv> 0"
abbreviation (input) Table_NOTIFY_CONTROL :: int where "Table_NOTIFY_CONTROL \<equiv> 1"

subsection \<open>Data types of registers\<close>

text \<open>
  \<open>P4DataTypeSpec\<close>. The first component is the address of the message, because the register
  code compares type specifications by pointer. \<open>None\<close> as the oneof is a missing one; the
  declarations that may be nil inside a oneof are options.
\<close>

datatype BitstringLike = BS_Bit "int option" | BS_Int "int option" | BS_Varbit "int option"

type_synonym P4BitstringLikeTypeSpec = "BitstringLike option"

datatype P4DataTypeSpec = P4DataTypeSpec (spec_addr: nat) (TypeSpec: "P4TypeSpec option")
and P4TypeSpec =
    TS_Bitstring "P4BitstringLikeTypeSpec option"
  | TS_Bool "unit option"
  | TS_Tuple "P4DataTypeSpec option list option"
  | TS_Struct string
  | TS_Header string
  | TS_HeaderUnion string
  | TS_HeaderStack "(string \<times> int) option"
  | TS_HeaderUnionStack "(string \<times> int) option"
  | TS_Enum string
  | TS_Error "unit option"
  | TS_SerializableEnum string
  | TS_NewType string

datatype SdnType = SdnBitwidth int | SdnString "unit option"

text \<open>The representation of a new type: its original type, or a translation (maybe nil, maybe
  with no SDN type).\<close>

datatype P4NewTypeRep =
    OriginalType "P4DataTypeSpec option"
  | TranslatedType "SdnType option option"

text \<open>The declarations of the program, by name. The map of new types is an association list, because the
  register code follows it from declaration to declaration and stops for a map that is finite.\<close>

record P4TypeInfo =
  type_structs :: "string \<rightharpoonup> P4DataTypeSpec option list"
  type_headers :: "string \<rightharpoonup> P4BitstringLikeTypeSpec option list"
  type_header_unions :: "string \<rightharpoonup> (string \<times> string) list"
  type_enums :: "string \<rightharpoonup> string list"
  type_error :: "string list option"
  type_serializable_enums :: "string \<rightharpoonup> int option"
  type_new_types :: "(string \<times> P4NewTypeRep option) list"

subsection \<open>Resources\<close>

record Preamble =
  pre_id :: uint32
  pre_name :: string
  pre_alias :: string

definition GetId :: "Preamble option \<Rightarrow> uint32" where
  "GetId p = (case p of None \<Rightarrow> 0 | Some r \<Rightarrow> pre_id r)"

definition GetName :: "Preamble option \<Rightarrow> string" where
  "GetName p = (case p of None \<Rightarrow> '''' | Some r \<Rightarrow> pre_name r)"

definition GetAlias :: "Preamble option \<Rightarrow> string" where
  "GetAlias p = (case p of None \<Rightarrow> '''' | Some r \<Rightarrow> pre_alias r)"

lemma Get_simps [simp]:
  "GetId (Some r) = pre_id r" "GetName (Some r) = pre_name r" "GetAlias (Some r) = pre_alias r"
  by (simp_all add: GetId_def GetName_def GetAlias_def)

record MatchField_msg =
  mfm_id :: uint32
  mfm_name :: string
  mfm_bitwidth :: int
  mfm_match_type :: int
  mfm_other_match_type :: string

record ActionRef_msg =
  arm_id :: uint32
  arm_scope :: int

record Table_msg =
  tbl_preamble :: "Preamble option"
  tbl_match_fields :: "MatchField_msg list"
  tbl_action_refs :: "ActionRef_msg list"
  tbl_const_default_action_id :: uint32
  tbl_implementation_id :: uint32
  tbl_size :: int
  tbl_idle_timeout_behavior :: int
  tbl_is_const_table :: bool

record Param_msg =
  prm_id :: uint32
  prm_name :: string
  prm_bitwidth :: int

record Action_msg =
  act_preamble :: "Preamble option"
  act_params :: "Param_msg list"

text \<open>A nil spec of a counter or direct meter reads as unit 0; a nil index type name reads as the
  empty name. The spec of an indirect meter is kept, because the meter code checks for nil.\<close>

record MeterSpec =
  ms_unit :: int
  ms_type :: int

record Counter_msg =
  ctr_preamble :: "Preamble option"
  ctr_unit :: int
  ctr_size :: int
  ctr_index_type_name :: string

record DirectCounter_msg =
  dctr_preamble :: "Preamble option"
  dctr_unit :: int
  dctr_direct_table_id :: uint32

record Meter_msg =
  mtr_preamble :: "Preamble option"
  mtr_spec :: "MeterSpec option"
  mtr_size :: int
  mtr_index_type_name :: string

record DirectMeter_msg =
  dmtr_preamble :: "Preamble option"
  dmtr_unit :: int
  dmtr_direct_table_id :: uint32

record Register_msg =
  reg_preamble :: "Preamble option"
  reg_type_spec :: "P4DataTypeSpec option"
  reg_size :: int
  reg_index_type_name :: string

record Digest_msg =
  dig_preamble :: "Preamble option"

record ControllerPacketMetadata_msg =
  cpm_preamble :: "Preamble option"
  cpm_metadata :: "Param_msg list"

record P4Info_msg =
  info_tables :: "Table_msg list"
  info_actions :: "Action_msg list"
  info_counters :: "Counter_msg list"
  info_direct_counters :: "DirectCounter_msg list"
  info_meters :: "Meter_msg list"
  info_direct_meters :: "DirectMeter_msg list"
  info_controller_packet_metadata :: "ControllerPacketMetadata_msg list"
  info_registers :: "Register_msg list"
  info_digests :: "Digest_msg list"
  info_type_info :: "P4TypeInfo option"

end
