(* ===== verification/Message_Graph.thy ===== *)
theory Message_Graph
  imports Errors
begin

text \<open>
  The pointer-graph check of src/pipeline/message.go, run before a P4Info message is cloned.

  The protobuf reflection API is seen through a heap of message nodes: node \<open>a\<close> of the list is
  the message at address \<open>a\<close>, with its oneof struct fields (name, and whether it holds a typed
  nil) and its populated fields in the order \<^verbatim>\<open>Range\<close> visits them. The recursion of \<open>visit\<close>
  takes fuel; \<open>length g + 1\<close> is enough for every graph, because the active visits are of
  distinct nodes (lemma \<open>visit_returns\<close>).
\<close>

subsection \<open>Messages seen through reflection\<close>

type_synonym addr = nat

datatype field_value =
    FMap "(string \<times> addr option) list"
  | FList "addr option list"
  | FMessage bool "addr option"
  | FOther

record node =
  n_oneofs :: "(string \<times> bool) list"
  n_fields :: "(string \<times> field_value) list"

type_synonym message_graph = "node list"
type_synonym seen = "addr \<rightharpoonup> bool"

definition IsValid :: "message_graph \<Rightarrow> addr option \<Rightarrow> bool" where
  "IsValid g m = (case m of None \<Rightarrow> False | Some a \<Rightarrow> a < length g)"

subsection \<open>visit\<close>

text \<open>Visiting a list of messages until the first error; \<open>None\<close> is a visit that ran out of fuel.\<close>

type_synonym visitor = "seen \<Rightarrow> addr option \<Rightarrow> string \<Rightarrow> (goerr option \<times> seen) option"

fun visitList :: "visitor \<Rightarrow> seen \<Rightarrow> (string \<times> addr option) list \<Rightarrow> (goerr option \<times> seen) option" where
  "visitList v s [] = Some (None, s)"
| "visitList v s ((path, m) # rest) =
     (case v s m path of
        None \<Rightarrow> None
      | Some (Some e, s') \<Rightarrow> Some (Some e, s')
      | Some (None, s') \<Rightarrow> visitList v s' rest)"

text \<open>The messages of one field with their paths.\<close>

definition fieldMessages :: "string \<Rightarrow> field_value \<Rightarrow> (string \<times> addr option) list" where
  "fieldMessages fieldPath fv =
     (case fv of
        FMap kvs \<Rightarrow> map (\<lambda>(k, m). (fieldPath @ ''['' @ k @ '']'', m)) kvs
      | FList ms \<Rightarrow> map (\<lambda>(i, m). (fieldPath @ ''['' @ decimal i @ '']'', m)) (zip [0..<length ms] ms)
      | FMessage _ m \<Rightarrow> [(fieldPath, m)]
      | FOther \<Rightarrow> [])"

definition visitField :: "message_graph \<Rightarrow> visitor \<Rightarrow> seen \<Rightarrow> string \<Rightarrow> string \<times> field_value \<Rightarrow>
    (goerr option \<times> seen) option" where
  "visitField g v s path f =
     (let name = fst f; fieldPath = path @ ''.'' @ name in
      case snd f of
        FMessage inOneof m \<Rightarrow>
          if \<not> IsValid g m \<and> inOneof
          then Some (Some (Errorf ''%s: missing %s declaration'' [AStr fieldPath, AStr name]), s)
          else v s m fieldPath
      | fv \<Rightarrow> visitList v s (fieldMessages fieldPath fv))"

fun visitFields :: "message_graph \<Rightarrow> visitor \<Rightarrow> seen \<Rightarrow> string \<Rightarrow> (string \<times> field_value) list \<Rightarrow>
    (goerr option \<times> seen) option" where
  "visitFields g v s path [] = Some (None, s)"
| "visitFields g v s path (f # rest) =
     (case visitField g v s path f of
        None \<Rightarrow> None
      | Some (Some e, s') \<Rightarrow> Some (Some e, s')
      | Some (None, s') \<Rightarrow> visitFields g v s' path rest)"

primrec visit :: "message_graph \<Rightarrow> nat \<Rightarrow> visitor" where
  "visit g 0 = (\<lambda>s m path. None)"
| "visit g (Suc n) = (\<lambda>s m path.
     if \<not> IsValid g m then Some (Some (Errorf ''%s: missing P4Info message'' [AStr path]), s)
     else let a = the m in
       case s a of
         Some True \<Rightarrow> Some (None, s)
       | Some False \<Rightarrow> Some (Some (Errorf ''%s: recursive P4Info message'' [AStr path]), s)
       | None \<Rightarrow>
           (case find snd (n_oneofs (g ! a)) of
              Some (name, _) \<Rightarrow>
                Some (Some (Errorf ''%s.%s: missing P4Info oneof message'' [AStr path, AStr name]), s(a \<mapsto> False))
            | None \<Rightarrow>
                (case visitFields g (visit g n) (s(a \<mapsto> False)) path (n_fields (g ! a)) of
                   None \<Rightarrow> None
                 | Some (Some e, s') \<Rightarrow> Some (Some e, s')
                 | Some (None, s') \<Rightarrow> Some (None, s'(a \<mapsto> True)))))"

definition validateMessageGraph :: "message_graph \<Rightarrow> addr option \<Rightarrow> goerr + unit" where
  "validateMessageGraph g message =
     (case visit g (length g + 1) Map.empty message ''P4Info'' of
        None \<Rightarrow> Inl (GoPanic ''out of fuel'')
      | Some (None, _) \<Rightarrow> Inr ()
      | Some (Some e, _) \<Rightarrow> Inl e)"

subsection \<open>The messages that can be cloned\<close>

text \<open>The children of a node, in visiting order, and the contract of the check: a message is
  \<open>clonable\<close> when following its pointers ends after finitely many steps and never meets a nil
  message or a typed-nil oneof.\<close>

definition children :: "node \<Rightarrow> addr option list" where
  "children nd = concat (map (\<lambda>f. map snd (fieldMessages '''' (snd f))) (n_fields nd))"

inductive clonable :: "message_graph \<Rightarrow> addr \<Rightarrow> bool" for g where
  clonableI: "a < length g \<Longrightarrow> find snd (n_oneofs (g ! a)) = None \<Longrightarrow>
    (\<And>m. m \<in> set (children (g ! a)) \<Longrightarrow> \<exists>b. m = Some b \<and> clonable g b) \<Longrightarrow> clonable g a"

inductive_cases clonableE: "clonable g a"

inductive follows :: "message_graph \<Rightarrow> addr \<Rightarrow> addr \<Rightarrow> bool" for g where
  followsI: "a < length g \<Longrightarrow> Some b \<in> set (children (g ! a)) \<Longrightarrow> follows g a b"

lemma clonable_follows: "clonable g a \<Longrightarrow> follows g a b \<Longrightarrow> clonable g b"
  by (erule follows.cases) (auto elim: clonableE)

lemma clonable_reaches: "(follows g)\<^sup>*\<^sup>* a b \<Longrightarrow> clonable g a \<Longrightarrow> clonable g b"
  by (induction rule: rtranclp_induct) (auto intro: clonable_follows)

text \<open>No clonable message lies on a pointer cycle.\<close>

lemma clonable_acyclic: "clonable g a \<Longrightarrow> \<not> (follows g)\<^sup>+\<^sup>+ a a"
proof (induction rule: clonable.induct)
  case (clonableI a)
  show ?case
  proof
    assume "(follows g)\<^sup>+\<^sup>+ a a"
    then obtain b where b: "follows g a b" "(follows g)\<^sup>*\<^sup>* b a" by (auto dest: tranclpD)
    then have "Some b \<in> set (children (g ! a))" by (auto elim: follows.cases)
    then have "\<not> (follows g)\<^sup>+\<^sup>+ b b" using clonableI(3) by blast
    moreover have "(follows g)\<^sup>+\<^sup>+ b b" using b(2,1) by (rule rtranclp_into_tranclp1)
    ultimately show False by contradiction
  qed
qed

subsection \<open>From one message to lists of messages and fields\<close>

text \<open>
  Three contracts of a visitor carry over to \<open>visitList\<close>, \<open>visitField\<close> and \<open>visitFields\<close>: it
  returns and keeps \<open>P\<close>; when it succeeds, its message satisfies \<open>Q\<close> and \<open>P\<close> is kept; and it
  succeeds on every message satisfying \<open>Q\<close>, keeping \<open>P\<close>.
\<close>

abbreviation msgs :: "string \<Rightarrow> (string \<times> field_value) list \<Rightarrow> addr option set" where
  "msgs path fs \<equiv> (\<Union>f\<in>set fs. snd ` set (fieldMessages path (snd f)))"

lemma fieldMessages_set: "snd ` set (fieldMessages p fv) = snd ` set (fieldMessages q fv)"
  by (cases fv) (simp_all add: fieldMessages_def image_image case_prod_unfold)

lemma msgs_children: "msgs path (n_fields nd) = set (children nd)"
  using fieldMessages_set [of path _ "[]"] by (simp add: children_def)

lemma visitList_returns:
  assumes "\<And>s m p. P s \<Longrightarrow> \<exists>r s'. v s m p = Some (r, s') \<and> P s'"
  shows "P s \<Longrightarrow> \<exists>r s'. visitList v s xs = Some (r, s') \<and> P s'"
proof (induction xs arbitrary: s)
  case (Cons x xs)
  obtain path m where x: "x = (path, m)" by (cases x)
  obtain r s' where "v s m path = Some (r, s')" "P s'" using assms Cons.prems by blast
  with Cons.IH show ?case by (cases r) (auto simp: x)
qed simp

lemma visitFields_returns:
  assumes v: "\<And>s m p. P s \<Longrightarrow> \<exists>r s'. v s m p = Some (r, s') \<and> P s'"
  shows "P s \<Longrightarrow> \<exists>r s'. visitFields g v s path fs = Some (r, s') \<and> P s'"
proof (induction fs arbitrary: s)
  case (Cons f fs)
  have "\<exists>r s'. visitField g v s path f = Some (r, s') \<and> P s'"
    using Cons.prems v visitList_returns [of P v, OF v]
    by (auto simp: visitField_def Let_def split: field_value.splits)
  then obtain r s' where "visitField g v s path f = Some (r, s')" "P s'" by blast
  with Cons.IH show ?case by (cases r) auto
qed simp

lemma visitList_sound:
  assumes "\<And>s m p s'. v s m p = Some (None, s') \<Longrightarrow> P s \<Longrightarrow> P s' \<and> Q m"
  shows "visitList v s xs = Some (None, s') \<Longrightarrow> P s \<Longrightarrow> P s' \<and> (\<forall>m\<in>snd ` set xs. Q m)"
proof (induction xs arbitrary: s)
  case (Cons x xs)
  obtain path m where x: "x = (path, m)" by (cases x)
  then obtain s1 where "v s m path = Some (None, s1)" "visitList v s1 xs = Some (None, s')"
    using Cons.prems(1) by (auto split: option.splits prod.splits)
  with Cons.IH [of s1] Cons.prems(2) assms x show ?case by fastforce
qed simp

lemma visitFields_sound:
  assumes v: "\<And>s m p s'. v s m p = Some (None, s') \<Longrightarrow> P s \<Longrightarrow> P s' \<and> Q m"
  shows "visitFields g v s path fs = Some (None, s') \<Longrightarrow> P s \<Longrightarrow> P s' \<and> (\<forall>m\<in>msgs path fs. Q m)"
proof (induction fs arbitrary: s)
  case (Cons f fs)
  obtain s1 where 1: "visitField g v s path f = Some (None, s1)" "visitFields g v s1 path fs = Some (None, s')"
    using Cons.prems(1) by (auto split: option.splits prod.splits)
  have "P s1 \<and> (\<forall>m\<in>snd ` set (fieldMessages (path @ ''.'' @ fst f) (snd f)). Q m)"
  proof (cases "snd f")
    case (FMessage oneof m)
    then show ?thesis using 1(1) v Cons.prems(2)
      by (auto simp: visitField_def Let_def fieldMessages_def split: if_splits)
  qed (use 1(1) Cons.prems(2) visitList_sound [of v P Q, OF v] in
       \<open>auto simp: visitField_def Let_def\<close>)
  then have "P s1" "\<forall>m\<in>snd ` set (fieldMessages path (snd f)). Q m"
    using fieldMessages_set [of path "snd f" "path @ ''.'' @ fst f"] by simp_all
  with Cons.IH [OF 1(2)] show ?case by auto
qed simp

lemma visitList_complete:
  assumes "\<And>s m p r s'. v s m p = Some (r, s') \<Longrightarrow> P s \<Longrightarrow> Q m \<Longrightarrow> r = None \<and> P s'"
  shows "visitList v s xs = Some (r, s') \<Longrightarrow> P s \<Longrightarrow> (\<forall>m\<in>snd ` set xs. Q m) \<Longrightarrow> r = None \<and> P s'"
proof (induction xs arbitrary: s)
  case (Cons x xs)
  obtain path m where x: "x = (path, m)" by (cases x)
  then obtain r1 s1 where 1: "v s m path = Some (r1, s1)" using Cons.prems(1) by (auto split: option.splits)
  then have "r1 = None \<and> P s1" using assms Cons.prems(2,3) x by auto
  with Cons.IH [of s1] Cons.prems x 1 show ?case by auto
qed simp

lemma visitFields_complete:
  assumes v: "\<And>s m p r s'. v s m p = Some (r, s') \<Longrightarrow> P s \<Longrightarrow> Q m \<Longrightarrow> r = None \<and> P s'"
    and q: "\<And>m. Q m \<Longrightarrow> IsValid g m"
  shows "visitFields g v s path fs = Some (r, s') \<Longrightarrow> P s \<Longrightarrow> (\<forall>m\<in>msgs path fs. Q m) \<Longrightarrow> r = None \<and> P s'"
proof (induction fs arbitrary: s)
  case (Cons f fs)
  obtain r1 s1 where 1: "visitField g v s path f = Some (r1, s1)"
    using Cons.prems(1) by (auto split: option.splits)
  have Q: "\<forall>m\<in>snd ` set (fieldMessages (path @ ''.'' @ fst f) (snd f)). Q m"
    using Cons.prems(3) fieldMessages_set [of path "snd f" "path @ ''.'' @ fst f"] by simp
  have "r1 = None \<and> P s1"
  proof (cases "snd f")
    case (FMessage oneof m)
    then have "Q m" using Q by (simp add: fieldMessages_def)
    with FMessage show ?thesis using 1 v q Cons.prems(2) by (auto simp: visitField_def Let_def)
  qed (use 1 Q Cons.prems(2) visitList_complete [of v P Q, OF v] in
       \<open>auto simp: visitField_def Let_def\<close>)
  with Cons.IH [of s1] Cons.prems 1 show ?case by auto
qed simp

subsection \<open>The visit returns, and decides clonability\<close>

abbreviation unseen :: "message_graph \<Rightarrow> seen \<Rightarrow> addr set" where
  "unseen g s \<equiv> {..<length g} - dom s"

lemma unseen_mark: "a < length g \<Longrightarrow> s a = None \<Longrightarrow> card (unseen g (s(a \<mapsto> b))) < card (unseen g s)"
  by (intro psubset_card_mono) auto

lemma unseen_upd: "card (unseen g (s(a \<mapsto> b))) \<le> card (unseen g s)"
  by (intro card_mono) auto

lemma visit_returns:
  "card (unseen g s) < n \<Longrightarrow> k \<ge> card (unseen g s) \<Longrightarrow>
     \<exists>r s'. visit g n s m path = Some (r, s') \<and> card (unseen g s') \<le> k"
proof (induction n arbitrary: s m path k)
  case (Suc n)
  show ?case
  proof (cases "IsValid g m \<and> s (the m) = None \<and> find snd (n_oneofs (g ! the m)) = None")
    case False
    then show ?thesis using Suc.prems(2) order_trans [OF unseen_upd Suc.prems(2)]
      by (auto simp: Let_def simp del: dom_fun_upd split: option.splits bool.splits)
  next
    case True
    then obtain a where a: "m = Some a" "a < length g" "s a = None"
      by (auto simp: IsValid_def split: option.splits)
    have less: "card (unseen g (s(a \<mapsto> False))) < card (unseen g s)" using a by (intro unseen_mark)
    define P where "P s \<longleftrightarrow> card (unseen g s) < n \<and> card (unseen g s) \<le> k" for s
    have "\<exists>r s'. visit g n s m p = Some (r, s') \<and> P s'" if "P s" for s m p
      using Suc.IH [of s "card (unseen g s)" m p] that unfolding P_def by fastforce
    moreover have "P (s(a \<mapsto> False))" using less Suc.prems by (simp add: P_def)
    ultimately obtain r s' where "visitFields g (visit g n) (s(a \<mapsto> False)) path (n_fields (g ! a)) = Some (r, s')"
        "card (unseen g s') \<le> k"
      using visitFields_returns [of P "visit g n"] unfolding P_def by blast
    then show ?thesis using True a order_trans [OF unseen_upd]
      by (cases r) (auto simp: Let_def simp del: dom_fun_upd)
  qed
qed simp

definition done_ok :: "message_graph \<Rightarrow> seen \<Rightarrow> bool" where
  "done_ok g s = (\<forall>a. s a = Some True \<longrightarrow> clonable g a)"

lemma visit_sound:
  "visit g n s m path = Some (None, s') \<Longrightarrow> done_ok g s \<Longrightarrow>
     done_ok g s' \<and> (\<exists>a. m = Some a \<and> clonable g a)"
proof (induction n arbitrary: s m path s')
  case (Suc n)
  then obtain a where a: "m = Some a" "a < length g"
    by (auto simp: IsValid_def split: if_splits option.splits)
  show ?case
  proof (cases "s a")
    case (Some b)
    with Suc.prems a show ?thesis by (cases b) (auto simp: done_ok_def IsValid_def)
  next
    case None
    then obtain s1 where 1: "find snd (n_oneofs (g ! a)) = None"
        "visitFields g (visit g n) (s(a \<mapsto> False)) path (n_fields (g ! a)) = Some (None, s1)"
        "s' = s1(a \<mapsto> True)"
      using Suc.prems(1) a by (auto simp: IsValid_def split: option.splits prod.splits)
    have "done_ok g (s(a \<mapsto> False))" using Suc.prems(2) by (simp add: done_ok_def)
    then have "done_ok g s1 \<and> (\<forall>m\<in>msgs path (n_fields (g ! a)). \<exists>b. m = Some b \<and> clonable g b)"
      using visitFields_sound [of "visit g n" "done_ok g" "\<lambda>m. \<exists>b. m = Some b \<and> clonable g b"]
        Suc.IH 1(2) by blast
    then have "done_ok g s1" "clonable g a"
      using a 1(1) unfolding msgs_children by (auto intro: clonableI)
    then show ?thesis using a 1(3) by (simp add: done_ok_def)
  qed
qed simp

abbreviation active :: "seen \<Rightarrow> addr set" where
  "active s \<equiv> {a. s a = Some False}"

lemma visit_complete:
  "visit g n s m path = Some (r, s') \<Longrightarrow> active s = A \<Longrightarrow>
     (\<exists>a. m = Some a \<and> clonable g a \<and> (\<forall>b. (follows g)\<^sup>*\<^sup>* a b \<longrightarrow> b \<notin> A)) \<Longrightarrow> r = None \<and> active s' = A"
proof (induction n arbitrary: s m path r s' A)
  case (Suc n)
  then obtain a where a: "m = Some a" "clonable g a" "\<And>b. (follows g)\<^sup>*\<^sup>* a b \<Longrightarrow> b \<notin> A" by blast
  then have l: "a < length g" "find snd (n_oneofs (g ! a)) = None" by (auto elim: clonableE)
  have na: "s a \<noteq> Some False" using a(3) [of a] Suc.prems(2) by auto
  show ?case
  proof (cases "s a")
    case (Some b)
    with na Suc.prems a l show ?thesis by (cases b) (auto simp: IsValid_def)
  next
    case None
    define Q where "Q m \<longleftrightarrow> (\<exists>c. m = Some c \<and> clonable g c \<and> (\<forall>b. (follows g)\<^sup>*\<^sup>* c b \<longrightarrow> b \<notin> insert a A))" for m
    obtain r1 s1 where 1: "visitFields g (visit g n) (s(a \<mapsto> False)) path (n_fields (g ! a)) = Some (r1, s1)"
      using Suc.prems(1) a l None by (auto simp: IsValid_def split: option.splits)
    have q: "Q m" if mem: "m \<in> set (children (g ! a))" for m
    proof -
      obtain c where c: "m = Some c" "clonable g c" using mem a(2) by (blast elim: clonableE)
      then have f: "follows g a c" using mem l by (auto intro: followsI)
      have "b \<noteq> a" if "(follows g)\<^sup>*\<^sup>* c b" for b
        using that f clonable_acyclic [OF a(2)] by (meson rtranclp_into_tranclp2)
      moreover have "b \<notin> A" if "(follows g)\<^sup>*\<^sup>* c b" for b
        using that f a(3) by (meson converse_rtranclp_into_rtranclp)
      ultimately show ?thesis using c unfolding Q_def by blast
    qed
    have act: "active (s(a \<mapsto> False)) = insert a A" using Suc.prems(2) by auto
    have vld: "IsValid g m" if "Q m" for m
      using that unfolding Q_def IsValid_def by (auto elim: clonableE)
    have ih: "r = None \<and> active s' = insert a A"
      if "visit g n s m p = Some (r, s')" "active s = insert a A" "Q m" for s m p r s'
      using Suc.IH [of s m p r s' "insert a A"] that unfolding Q_def by blast
    have "\<forall>m\<in>msgs path (n_fields (g ! a)). Q m" unfolding msgs_children using q by blast
    then have "r1 = None \<and> active s1 = insert a A"
      using visitFields_complete [of "visit g n" "\<lambda>s. active s = insert a A" Q g, OF ih vld] 1 act by simp
    moreover have "a \<notin> A" using a(3) by blast
    ultimately have "r1 = None" "active (s1(a \<mapsto> True)) = A" by (auto split: if_splits)
    moreover have "r = r1" "s' = s1(a \<mapsto> True)"
      using Suc.prems(1) a l None 1 \<open>r1 = None\<close> by (simp_all add: IsValid_def)
    ultimately show ?thesis by simp
  qed
qed simp

lemma visit_total: "\<exists>r s. visit g (length g + 1) Map.empty m path = Some (r, s)"
  using visit_returns [of g Map.empty "length g + 1" "length g" m path] by auto

lemma validateMessageGraph_iff:
  "validateMessageGraph g m = Inr () \<longleftrightarrow> (\<exists>a. m = Some a \<and> clonable g a)"
proof -
  obtain r s where rs: "visit g (length g + 1) Map.empty m ''P4Info'' = Some (r, s)"
    using visit_total by blast
  have "done_ok g Map.empty" by (simp add: done_ok_def)
  then have "r = None \<longleftrightarrow> (\<exists>a. m = Some a \<and> clonable g a)"
    using visit_sound [of g "length g + 1" Map.empty m "''P4Info''" s]
      visit_complete [of g "length g + 1" Map.empty m "''P4Info''" r s "{}"] rs by auto
  then show ?thesis using rs by (auto simp: validateMessageGraph_def simp del: visit.simps split: option.splits)
qed

subsection \<open>Properties\<close>

text \<open>C16. The graph check returns on every message graph, and it accepts a message exactly when
  cloning it would end: following pointers from it meets no nil message, no typed-nil oneof and
  no cycle. Nothing reachable from an accepted message lies on a pointer cycle.\<close>

theorem validateMessageGraph_correct:
  "visit g (length g + 1) Map.empty m ''P4Info'' \<noteq> None \<and>
   (validateMessageGraph g m = Inr () \<longleftrightarrow> (\<exists>a. m = Some a \<and> clonable g a)) \<and>
   (\<forall>a b. validateMessageGraph g (Some a) = Inr () \<and> (follows g)\<^sup>*\<^sup>* a b \<longrightarrow> \<not> (follows g)\<^sup>+\<^sup>+ b b)"
  using visit_total [of g m "''P4Info''"] validateMessageGraph_iff clonable_reaches clonable_acyclic
  by (auto simp del: visit.simps)

text \<open>A message with a repeated field of two messages, one of them shared with a singular field.\<close>

abbreviation sample_graph :: message_graph where
  "sample_graph \<equiv>
    [\<lparr>n_oneofs = [], n_fields = [(''tables'', FList [Some 1, Some 1]), (''pkg_info'', FMessage False (Some 2))]\<rparr>,
     \<lparr>n_oneofs = [(''match'', False)], n_fields = [(''preamble'', FMessage False (Some 2)), (''size'', FOther)]\<rparr>,
     \<lparr>n_oneofs = [], n_fields = []\<rparr>]"

theorem validateMessageGraph_correct_witness:
  "\<not> (follows sample_graph)\<^sup>+\<^sup>+ 0 0"
proof -
  have "validateMessageGraph sample_graph (Some 0) = Inr ()" by code_simp
  then show ?thesis using validateMessageGraph_correct [of sample_graph "Some 0"] by blast
qed

end
