(* ===== verification/Pipeline.thy ===== *)
theory Pipeline
  imports P4Info Message_Graph
begin

text \<open>
  Package pipeline (src/pipeline/pipeline.go, copy.go): the controller-side view of a P4Info
  message. A \<open>Pipeline\<close> record keeps the message, the device configuration and the 18 lookup
  maps; \<open>index\<close> fills them in the order of the source, a later declaration overwriting an
  earlier one with the same key. Definitions are immutable once built, so pointers to them are
  values; the copies made by the lookup methods (\<open>clone\<close>, \<open>copyValue\<close>) are modelled with
  the maps they rebuild.

  The locale \<open>named_resource\<close> states what a lookup by name or alias promises, and
  \<open>identified_resource\<close> adds the lookup by ID; both are interpreted for the resource kinds.
\<close>

subsection \<open>Definitions of the declared objects\<close>

record MatchFieldDef =
  mf_ID :: uint32
  mf_Name :: string
  mf_Bitwidth :: int
  mf_MatchType :: int
  mf_OtherMatchType :: string

record ActionRef =
  ar_ID :: uint32
  ar_Scope :: int

record TableDef =
  t_ID :: uint32
  t_Name :: string
  t_Alias :: string
  t_Size :: int
  t_Const :: bool
  t_MatchFields :: "MatchFieldDef list"
  t_ActionRefs :: "ActionRef list"
  t_matchByName :: "string \<rightharpoonup> MatchFieldDef"
  t_matchByID :: "uint32 \<rightharpoonup> MatchFieldDef"
  t_raw :: Table_msg

record ActionParamDef =
  ap_ID :: uint32
  ap_Name :: string
  ap_Bitwidth :: int

record ActionDef =
  a_ID :: uint32
  a_Name :: string
  a_Alias :: string
  a_Params :: "ActionParamDef list"
  a_paramByName :: "string \<rightharpoonup> ActionParamDef"
  a_paramByID :: "uint32 \<rightharpoonup> ActionParamDef"
  a_raw :: Action_msg

record CounterDef =
  c_ID :: uint32
  c_Name :: string
  c_Unit :: int
  c_Size :: int
  c_raw :: Counter_msg

record DirectCounterDef =
  dc_ID :: uint32
  dc_Name :: string
  dc_Unit :: int
  dc_DirectTableID :: uint32
  dc_DirectTableName :: string
  dc_raw :: DirectCounter_msg

record MeterDef =
  m_ID :: uint32
  m_Name :: string
  m_Unit :: int
  m_Size :: int
  m_raw :: Meter_msg

record DirectMeterDef =
  dm_ID :: uint32
  dm_Name :: string
  dm_Unit :: int
  dm_DirectTableID :: uint32
  dm_DirectTableName :: string
  dm_raw :: DirectMeter_msg

record RegisterDef =
  r_ID :: uint32
  r_Name :: string
  r_Size :: int
  r_raw :: Register_msg

record DigestDef =
  d_ID :: uint32
  d_Name :: string
  d_raw :: Digest_msg

record PacketMetadataField =
  pf_ID :: uint32
  pf_Name :: string
  pf_Bitwidth :: int

record ControllerPacketMetadataDef =
  cp_ID :: uint32
  cp_Name :: string
  cp_Metadata :: "PacketMetadataField list"
  cp_byName :: "string \<rightharpoonup> PacketMetadataField"
  cp_byID :: "uint32 \<rightharpoonup> PacketMetadataField"
  cp_raw :: ControllerPacketMetadata_msg

record Pipeline =
  p_info :: P4Info_msg
  p_deviceConfig :: bytes
  tablesByName :: "string \<rightharpoonup> TableDef"
  tablesByID :: "uint32 \<rightharpoonup> TableDef"
  actionsByName :: "string \<rightharpoonup> ActionDef"
  actionsByID :: "uint32 \<rightharpoonup> ActionDef"
  countersByName :: "string \<rightharpoonup> CounterDef"
  countersByID :: "uint32 \<rightharpoonup> CounterDef"
  directCountersByName :: "string \<rightharpoonup> DirectCounterDef"
  directCountersByID :: "uint32 \<rightharpoonup> DirectCounterDef"
  metersByName :: "string \<rightharpoonup> MeterDef"
  metersByID :: "uint32 \<rightharpoonup> MeterDef"
  directMetersByName :: "string \<rightharpoonup> DirectMeterDef"
  directMetersByID :: "uint32 \<rightharpoonup> DirectMeterDef"
  registersByName :: "string \<rightharpoonup> RegisterDef"
  registersByID :: "uint32 \<rightharpoonup> RegisterDef"
  digestsByName :: "string \<rightharpoonup> DigestDef"
  digestsByID :: "uint32 \<rightharpoonup> DigestDef"
  ctrlPktByName :: "string \<rightharpoonup> ControllerPacketMetadataDef"
  ctrlPktByID :: "uint32 \<rightharpoonup> ControllerPacketMetadataDef"

subsection \<open>Lookups inside a definition; a nil receiver finds nothing\<close>

definition TableDef_MatchField :: "TableDef option \<Rightarrow> string \<Rightarrow> MatchFieldDef option" where
  "TableDef_MatchField t name = (case t of None \<Rightarrow> None | Some td \<Rightarrow> t_matchByName td name)"

definition TableDef_MatchFieldByID :: "TableDef option \<Rightarrow> uint32 \<Rightarrow> MatchFieldDef option" where
  "TableDef_MatchFieldByID t ident = (case t of None \<Rightarrow> None | Some td \<Rightarrow> t_matchByID td ident)"

definition ActionDef_Param :: "ActionDef option \<Rightarrow> string \<Rightarrow> ActionParamDef option" where
  "ActionDef_Param a name = (case a of None \<Rightarrow> None | Some ad \<Rightarrow> a_paramByName ad name)"

definition ActionDef_ParamByID :: "ActionDef option \<Rightarrow> uint32 \<Rightarrow> ActionParamDef option" where
  "ActionDef_ParamByID a ident = (case a of None \<Rightarrow> None | Some ad \<Rightarrow> a_paramByID ad ident)"

definition ControllerPacketMetadataDef_Field ::
  "ControllerPacketMetadataDef option \<Rightarrow> string \<Rightarrow> PacketMetadataField option" where
  "ControllerPacketMetadataDef_Field c name = (case c of None \<Rightarrow> None | Some cd \<Rightarrow> cp_byName cd name)"

definition ControllerPacketMetadataDef_FieldByID ::
  "ControllerPacketMetadataDef option \<Rightarrow> uint32 \<Rightarrow> PacketMetadataField option" where
  "ControllerPacketMetadataDef_FieldByID c ident = (case c of None \<Rightarrow> None | Some cd \<Rightarrow> cp_byID cd ident)"

subsection \<open>Copies (copy.go)\<close>

definition copyValue :: "'a option \<Rightarrow> 'a option" where
  "copyValue v = (case v of None \<Rightarrow> None | Some x \<Rightarrow> Some x)"

definition copyValues :: "'a list \<Rightarrow> 'a list" where
  "copyValues values = map (\<lambda>x. the (copyValue (Some x))) values"

definition TableDef_clone :: "TableDef option \<Rightarrow> TableDef option" where
  "TableDef_clone t = (case copyValue t of None \<Rightarrow> None
     | Some out \<Rightarrow>
         let fields = copyValues (t_MatchFields out) in
         Some (out\<lparr>t_MatchFields := fields, t_ActionRefs := copyValues (t_ActionRefs out),
                   t_matchByName := index_by mf_Name fields, t_matchByID := index_by mf_ID fields\<rparr>))"

definition ActionDef_clone :: "ActionDef option \<Rightarrow> ActionDef option" where
  "ActionDef_clone a = (case copyValue a of None \<Rightarrow> None
     | Some out \<Rightarrow>
         let params = copyValues (a_Params out) in
         Some (out\<lparr>a_Params := params, a_paramByName := index_by ap_Name params,
                   a_paramByID := index_by ap_ID params\<rparr>))"

definition ControllerPacketMetadataDef_clone ::
  "ControllerPacketMetadataDef option \<Rightarrow> ControllerPacketMetadataDef option" where
  "ControllerPacketMetadataDef_clone c = (case copyValue c of None \<Rightarrow> None
     | Some out \<Rightarrow>
         let fields = copyValues (cp_Metadata out) in
         Some (out\<lparr>cp_Metadata := fields, cp_byName := index_by pf_Name fields, cp_byID := index_by pf_ID fields\<rparr>))"

subsection \<open>Building the definitions and the maps: index\<close>

text \<open>\<^verbatim>\<open>m[d.Name] = d; if d.Alias != "" { m[d.Alias] = d }\<close> for every declaration.\<close>

definition assignNamed :: "('d \<Rightarrow> string) \<Rightarrow> ('d \<Rightarrow> string) \<Rightarrow> (string \<rightharpoonup> 'd) \<Rightarrow> 'd list \<Rightarrow> (string \<rightharpoonup> 'd)" where
  "assignNamed name nick m ds =
     foldl (\<lambda>m d. let m = m(name d \<mapsto> d) in if nick d \<noteq> [] then m(nick d \<mapsto> d) else m) m ds"

definition assignByID :: "('d \<Rightarrow> uint32) \<Rightarrow> (uint32 \<rightharpoonup> 'd) \<Rightarrow> 'd list \<Rightarrow> (uint32 \<rightharpoonup> 'd)" where
  "assignByID ident m ds = foldl (\<lambda>m d. m(ident d \<mapsto> d)) m ds"

definition newActionDef :: "Action_msg \<Rightarrow> ActionDef" where
  "newActionDef raw =
     (let params = map (\<lambda>pr. \<lparr>ap_ID = prm_id pr, ap_Name = prm_name pr, ap_Bitwidth = prm_bitwidth pr\<rparr>) (act_params raw) in
      \<lparr>a_ID = GetId (act_preamble raw), a_Name = GetName (act_preamble raw), a_Alias = GetAlias (act_preamble raw),
       a_Params = params, a_paramByName = index_by ap_Name params, a_paramByID = index_by ap_ID params, a_raw = raw\<rparr>)"

definition newTableDef :: "Table_msg \<Rightarrow> TableDef" where
  "newTableDef raw =
     (let fields = map (\<lambda>mf. \<lparr>mf_ID = mfm_id mf, mf_Name = mfm_name mf, mf_Bitwidth = mfm_bitwidth mf,
                               mf_MatchType = mfm_match_type mf, mf_OtherMatchType = mfm_other_match_type mf\<rparr>)
                    (tbl_match_fields raw);
          refs = map (\<lambda>ar. \<lparr>ar_ID = arm_id ar, ar_Scope = arm_scope ar\<rparr>) (tbl_action_refs raw) in
      \<lparr>t_ID = GetId (tbl_preamble raw), t_Name = GetName (tbl_preamble raw), t_Alias = GetAlias (tbl_preamble raw),
       t_Size = tbl_size raw, t_Const = tbl_is_const_table raw, t_MatchFields = fields, t_ActionRefs = refs,
       t_matchByName = index_by mf_Name fields, t_matchByID = index_by mf_ID fields, t_raw = raw\<rparr>)"

definition newCounterDef :: "Counter_msg \<Rightarrow> CounterDef" where
  "newCounterDef raw = \<lparr>c_ID = GetId (ctr_preamble raw), c_Name = GetName (ctr_preamble raw),
     c_Unit = ctr_unit raw, c_Size = ctr_size raw, c_raw = raw\<rparr>"

definition newDirectCounterDef :: "(uint32 \<rightharpoonup> TableDef) \<Rightarrow> DirectCounter_msg \<Rightarrow> DirectCounterDef" where
  "newDirectCounterDef tables raw =
     \<lparr>dc_ID = GetId (dctr_preamble raw), dc_Name = GetName (dctr_preamble raw), dc_Unit = dctr_unit raw,
      dc_DirectTableID = dctr_direct_table_id raw,
      dc_DirectTableName = (case tables (dctr_direct_table_id raw) of None \<Rightarrow> '''' | Some t \<Rightarrow> t_Name t),
      dc_raw = raw\<rparr>"

definition newMeterDef :: "Meter_msg \<Rightarrow> MeterDef" where
  "newMeterDef raw = \<lparr>m_ID = GetId (mtr_preamble raw), m_Name = GetName (mtr_preamble raw),
     m_Unit = (case mtr_spec raw of None \<Rightarrow> 0 | Some sp \<Rightarrow> ms_unit sp), m_Size = mtr_size raw, m_raw = raw\<rparr>"

definition newDirectMeterDef :: "(uint32 \<rightharpoonup> TableDef) \<Rightarrow> DirectMeter_msg \<Rightarrow> DirectMeterDef" where
  "newDirectMeterDef tables raw =
     \<lparr>dm_ID = GetId (dmtr_preamble raw), dm_Name = GetName (dmtr_preamble raw), dm_Unit = dmtr_unit raw,
      dm_DirectTableID = dmtr_direct_table_id raw,
      dm_DirectTableName = (case tables (dmtr_direct_table_id raw) of None \<Rightarrow> '''' | Some t \<Rightarrow> t_Name t),
      dm_raw = raw\<rparr>"

definition newRegisterDef :: "Register_msg \<Rightarrow> RegisterDef" where
  "newRegisterDef raw = \<lparr>r_ID = GetId (reg_preamble raw), r_Name = GetName (reg_preamble raw),
     r_Size = reg_size raw, r_raw = raw\<rparr>"

definition newDigestDef :: "Digest_msg \<Rightarrow> DigestDef" where
  "newDigestDef raw = \<lparr>d_ID = GetId (dig_preamble raw), d_Name = GetName (dig_preamble raw), d_raw = raw\<rparr>"

definition newPacketMetadataDef :: "ControllerPacketMetadata_msg \<Rightarrow> ControllerPacketMetadataDef" where
  "newPacketMetadataDef raw =
     (let fields = map (\<lambda>mf. \<lparr>pf_ID = prm_id mf, pf_Name = prm_name mf, pf_Bitwidth = prm_bitwidth mf\<rparr>) (cpm_metadata raw) in
      \<lparr>cp_ID = GetId (cpm_preamble raw), cp_Name = GetName (cpm_preamble raw), cp_Metadata = fields,
       cp_byName = index_by pf_Name fields, cp_byID = index_by pf_ID fields, cp_raw = raw\<rparr>)"

text \<open>The aliases of counters, meters, registers and digests are read from the message.\<close>

abbreviation c_alias :: "CounterDef \<Rightarrow> string" where "c_alias c \<equiv> GetAlias (ctr_preamble (c_raw c))"
abbreviation m_alias :: "MeterDef \<Rightarrow> string" where "m_alias m \<equiv> GetAlias (mtr_preamble (m_raw m))"
abbreviation r_alias :: "RegisterDef \<Rightarrow> string" where "r_alias r \<equiv> GetAlias (reg_preamble (r_raw r))"
abbreviation d_alias :: "DigestDef \<Rightarrow> string" where "d_alias d \<equiv> GetAlias (dig_preamble (d_raw d))"
abbreviation no_alias :: "'d \<Rightarrow> string" where "no_alias d \<equiv> []"

text \<open>The nine loops of \<open>index\<close>, in its order: direct counters and meters read the table map.\<close>

definition index :: "Pipeline \<Rightarrow> Pipeline" where
  "index p =
     (let info = p_info p;
          actions = map newActionDef (info_actions info);
          p = p\<lparr>actionsByName := assignNamed a_Name a_Alias (actionsByName p) actions,
                actionsByID := assignByID a_ID (actionsByID p) actions\<rparr>;
          tables = map newTableDef (info_tables info);
          p = p\<lparr>tablesByName := assignNamed t_Name t_Alias (tablesByName p) tables,
                tablesByID := assignByID t_ID (tablesByID p) tables\<rparr>;
          counters = map newCounterDef (info_counters info);
          p = p\<lparr>countersByName := assignNamed c_Name c_alias (countersByName p) counters,
                countersByID := assignByID c_ID (countersByID p) counters\<rparr>;
          directCounters = map (newDirectCounterDef (tablesByID p)) (info_direct_counters info);
          p = p\<lparr>directCountersByName := assignNamed dc_Name no_alias (directCountersByName p) directCounters,
                directCountersByID := assignByID dc_ID (directCountersByID p) directCounters\<rparr>;
          meters = map newMeterDef (info_meters info);
          p = p\<lparr>metersByName := assignNamed m_Name m_alias (metersByName p) meters,
                metersByID := assignByID m_ID (metersByID p) meters\<rparr>;
          directMeters = map (newDirectMeterDef (tablesByID p)) (info_direct_meters info);
          p = p\<lparr>directMetersByName := assignNamed dm_Name no_alias (directMetersByName p) directMeters,
                directMetersByID := assignByID dm_ID (directMetersByID p) directMeters\<rparr>;
          registers = map newRegisterDef (info_registers info);
          p = p\<lparr>registersByName := assignNamed r_Name r_alias (registersByName p) registers,
                registersByID := assignByID r_ID (registersByID p) registers\<rparr>;
          digests = map newDigestDef (info_digests info);
          p = p\<lparr>digestsByName := assignNamed d_Name d_alias (digestsByName p) digests,
                digestsByID := assignByID d_ID (digestsByID p) digests\<rparr>;
          packets = map newPacketMetadataDef (info_controller_packet_metadata info)
      in p\<lparr>ctrlPktByName := assignNamed cp_Name no_alias (ctrlPktByName p) packets,
           ctrlPktByID := assignByID cp_ID (ctrlPktByID p) packets\<rparr>)"

definition emptyPipeline :: "P4Info_msg \<Rightarrow> bytes \<Rightarrow> Pipeline" where
  "emptyPipeline info deviceConfig =
     \<lparr>p_info = info, p_deviceConfig = deviceConfig,
      tablesByName = Map.empty, tablesByID = Map.empty, actionsByName = Map.empty, actionsByID = Map.empty,
      countersByName = Map.empty, countersByID = Map.empty,
      directCountersByName = Map.empty, directCountersByID = Map.empty,
      metersByName = Map.empty, metersByID = Map.empty,
      directMetersByName = Map.empty, directMetersByID = Map.empty,
      registersByName = Map.empty, registersByID = Map.empty,
      digestsByName = Map.empty, digestsByID = Map.empty,
      ctrlPktByName = Map.empty, ctrlPktByID = Map.empty\<rparr>"

text \<open>
  \<open>New\<close>. The parameter \<open>reflect\<close> is the protobuf reflection of a message: its graph and the
  address of its root. \<^verbatim>\<open>proto.CloneOf\<close> returns an equal message.
\<close>

definition Pipeline_New ::
  "(P4Info_msg \<Rightarrow> message_graph \<times> addr) \<Rightarrow> P4Info_msg option \<Rightarrow> bytes \<Rightarrow> goerr + Pipeline" where
  "Pipeline_New reflect info deviceConfig =
     (case info of
        None \<Rightarrow> Inl (Errorf ''pipeline.New: nil P4Info'' [])
      | Some i \<Rightarrow>
          bindE (mapErr (\<lambda>e. Errorf ''pipeline.New: %w'' [AErr e])
                   (validateMessageGraph (fst (reflect i)) (Some (snd (reflect i)))))
            (\<lambda>_. Inr (index (emptyPipeline i deviceConfig))))"

text \<open>\<open>Load\<close> and \<open>LoadText\<close>: the parser of the wire or text format is a parameter.\<close>

definition Pipeline_Load ::
  "(P4Info_msg \<Rightarrow> message_graph \<times> addr) \<Rightarrow> (bytes \<Rightarrow> goerr + P4Info_msg) \<Rightarrow> bytes \<Rightarrow> bytes \<Rightarrow> goerr + Pipeline" where
  "Pipeline_Load reflect unmarshal p4infoBytes deviceConfig =
     bindE (mapErr (\<lambda>e. Errorf ''pipeline.Load: unmarshal P4Info: %w'' [AErr e]) (unmarshal p4infoBytes))
       (\<lambda>info. Pipeline_New reflect (Some info) deviceConfig)"

definition Pipeline_LoadText ::
  "(P4Info_msg \<Rightarrow> message_graph \<times> addr) \<Rightarrow> (bytes \<Rightarrow> goerr + P4Info_msg) \<Rightarrow> bytes \<Rightarrow> bytes \<Rightarrow> goerr + Pipeline" where
  "Pipeline_LoadText reflect unmarshalText p4infoText deviceConfig =
     bindE (mapErr (\<lambda>e. Errorf ''pipeline.LoadText: unmarshal P4Info: %w'' [AErr e]) (unmarshalText p4infoText))
       (\<lambda>info. Pipeline_New reflect (Some info) deviceConfig)"

definition Pipeline_Info :: "Pipeline \<Rightarrow> P4Info_msg" where
  "Pipeline_Info p = p_info p"

definition Pipeline_DeviceConfig :: "Pipeline \<Rightarrow> bytes option" where
  "Pipeline_DeviceConfig p = (if length (p_deviceConfig p) = 0 then None else Some (p_deviceConfig p))"

subsection \<open>The lookup methods\<close>

text \<open>The results \<^verbatim>\<open>(def, ok)\<close> of the source are options: \<open>None\<close> is \<^verbatim>\<open>(nil, false)\<close>. Every method
  but \<open>Tables\<close> accepts a nil pipeline.\<close>

definition Pipeline_Table :: "Pipeline option \<Rightarrow> string \<Rightarrow> TableDef option" where
  "Pipeline_Table p k = (case p of None \<Rightarrow> None | Some pl \<Rightarrow> TableDef_clone (tablesByName pl k))"

definition Pipeline_TableByID :: "Pipeline option \<Rightarrow> uint32 \<Rightarrow> TableDef option" where
  "Pipeline_TableByID p k = (case p of None \<Rightarrow> None | Some pl \<Rightarrow> TableDef_clone (tablesByID pl k))"

definition Pipeline_Tables :: "Pipeline \<Rightarrow> TableDef list" where
  "Pipeline_Tables p =
     concat (map (\<lambda>t. case tablesByID p (GetId (tbl_preamble t)) of
                        None \<Rightarrow> [] | Some td \<Rightarrow> [the (TableDef_clone (Some td))]) (info_tables (p_info p)))"

definition Pipeline_Action :: "Pipeline option \<Rightarrow> string \<Rightarrow> ActionDef option" where
  "Pipeline_Action p k = (case p of None \<Rightarrow> None | Some pl \<Rightarrow> ActionDef_clone (actionsByName pl k))"

definition Pipeline_ActionByID :: "Pipeline option \<Rightarrow> uint32 \<Rightarrow> ActionDef option" where
  "Pipeline_ActionByID p k = (case p of None \<Rightarrow> None | Some pl \<Rightarrow> ActionDef_clone (actionsByID pl k))"

definition Pipeline_Counter :: "Pipeline option \<Rightarrow> string \<Rightarrow> CounterDef option" where
  "Pipeline_Counter p k = (case p of None \<Rightarrow> None | Some pl \<Rightarrow> copyValue (countersByName pl k))"

definition Pipeline_CounterByID :: "Pipeline option \<Rightarrow> uint32 \<Rightarrow> CounterDef option" where
  "Pipeline_CounterByID p k = (case p of None \<Rightarrow> None | Some pl \<Rightarrow> copyValue (countersByID pl k))"

definition Pipeline_DirectCounter :: "Pipeline option \<Rightarrow> string \<Rightarrow> DirectCounterDef option" where
  "Pipeline_DirectCounter p k = (case p of None \<Rightarrow> None | Some pl \<Rightarrow> copyValue (directCountersByName pl k))"

definition Pipeline_Meter :: "Pipeline option \<Rightarrow> string \<Rightarrow> MeterDef option" where
  "Pipeline_Meter p k = (case p of None \<Rightarrow> None | Some pl \<Rightarrow> copyValue (metersByName pl k))"

definition Pipeline_DirectMeter :: "Pipeline option \<Rightarrow> string \<Rightarrow> DirectMeterDef option" where
  "Pipeline_DirectMeter p k = (case p of None \<Rightarrow> None | Some pl \<Rightarrow> copyValue (directMetersByName pl k))"

definition Pipeline_Register :: "Pipeline option \<Rightarrow> string \<Rightarrow> RegisterDef option" where
  "Pipeline_Register p k = (case p of None \<Rightarrow> None | Some pl \<Rightarrow> copyValue (registersByName pl k))"

definition Pipeline_Digest :: "Pipeline option \<Rightarrow> string \<Rightarrow> DigestDef option" where
  "Pipeline_Digest p k = (case p of None \<Rightarrow> None | Some pl \<Rightarrow> copyValue (digestsByName pl k))"

definition Pipeline_DigestByID :: "Pipeline option \<Rightarrow> uint32 \<Rightarrow> DigestDef option" where
  "Pipeline_DigestByID p k = (case p of None \<Rightarrow> None | Some pl \<Rightarrow> copyValue (digestsByID pl k))"

definition Pipeline_PacketMetadata :: "Pipeline option \<Rightarrow> string \<Rightarrow> ControllerPacketMetadataDef option" where
  "Pipeline_PacketMetadata p k = (case p of None \<Rightarrow> None | Some pl \<Rightarrow> ControllerPacketMetadataDef_clone (ctrlPktByName pl k))"

definition Pipeline_PacketMetadataByID :: "Pipeline option \<Rightarrow> uint32 \<Rightarrow> ControllerPacketMetadataDef option" where
  "Pipeline_PacketMetadataByID p k = (case p of None \<Rightarrow> None | Some pl \<Rightarrow> ControllerPacketMetadataDef_clone (ctrlPktByID pl k))"

lemmas pipeline_lookups =
  Pipeline_Table_def Pipeline_TableByID_def Pipeline_Action_def Pipeline_ActionByID_def
  Pipeline_Counter_def Pipeline_CounterByID_def Pipeline_DirectCounter_def Pipeline_Meter_def
  Pipeline_DirectMeter_def Pipeline_Register_def Pipeline_Digest_def Pipeline_DigestByID_def
  Pipeline_PacketMetadata_def Pipeline_PacketMetadataByID_def

subsection \<open>Maps of names and aliases\<close>

text \<open>The keys of a declaration, and the declarations that own a key.\<close>

definition has_key :: "('d \<Rightarrow> string) \<Rightarrow> ('d \<Rightarrow> string) \<Rightarrow> string \<Rightarrow> 'd \<Rightarrow> bool" where
  "has_key name nick n d = (name d = n \<or> (nick d = n \<and> n \<noteq> []))"

lemma assignNamed_snoc:
  "assignNamed name nick m (ds @ [d]) n =
     (if has_key name nick n d then Some d else assignNamed name nick m ds n)"
  by (auto simp: assignNamed_def has_key_def Let_def)

lemma assignNamed_find:
  "assignNamed name nick Map.empty ds n = find (has_key name nick n) (rev ds)"
proof (induction ds rule: rev_induct)
  case Nil
  then show ?case by (simp add: assignNamed_def)
next
  case (snoc d ds)
  then show ?case by (simp add: assignNamed_snoc)
qed

lemma assignByID_index_by: "assignByID ident Map.empty ds = index_by ident ds"
  by (simp add: assignByID_def index_by_def)

lemma copyValue_id [simp]: "copyValue v = v"
  by (cases v) (simp_all add: copyValue_def)

lemma copyValues_id [simp]: "copyValues vs = vs"
  by (simp add: copyValues_def)

text \<open>A definition is well formed when its inner maps are those of its list of fields; then the
  copy returned by a lookup is equal to it.\<close>

definition table_wf :: "TableDef \<Rightarrow> bool" where
  "table_wf t = (t_matchByName t = index_by mf_Name (t_MatchFields t) \<and>
                 t_matchByID t = index_by mf_ID (t_MatchFields t))"

definition action_wf :: "ActionDef \<Rightarrow> bool" where
  "action_wf a = (a_paramByName a = index_by ap_Name (a_Params a) \<and>
                  a_paramByID a = index_by ap_ID (a_Params a))"

definition packet_wf :: "ControllerPacketMetadataDef \<Rightarrow> bool" where
  "packet_wf c = (cp_byName c = index_by pf_Name (cp_Metadata c) \<and>
                  cp_byID c = index_by pf_ID (cp_Metadata c))"

lemma clone_id:
  "table_wf t \<Longrightarrow> TableDef_clone (Some t) = Some t"
  "action_wf a \<Longrightarrow> ActionDef_clone (Some a) = Some a"
  "packet_wf c \<Longrightarrow> ControllerPacketMetadataDef_clone (Some c) = Some c"
  by (simp_all add: TableDef_clone_def ActionDef_clone_def ControllerPacketMetadataDef_clone_def
      table_wf_def action_wf_def packet_wf_def Let_def)

lemma clone_None [simp]:
  "TableDef_clone None = None" "ActionDef_clone None = None"
  "ControllerPacketMetadataDef_clone None = None"
  by (simp_all add: TableDef_clone_def ActionDef_clone_def ControllerPacketMetadataDef_clone_def)

lemma new_wf:
  "table_wf (newTableDef raw_t)" "action_wf (newActionDef raw_a)" "packet_wf (newPacketMetadataDef raw_c)"
  by (simp_all add: table_wf_def action_wf_def packet_wf_def newTableDef_def newActionDef_def
      newPacketMetadataDef_def Let_def)

text \<open>Copying what a map holds is the identity when everything it can hold is well formed.\<close>

lemma copy_find:
  assumes "cl None = None" "\<And>d. d \<in> set ds \<Longrightarrow> cl (Some d) = Some d"
  shows "cl (find P (rev ds)) = find P (rev ds)"
proof (cases "find P (rev ds)")
  case (Some d)
  then have "d \<in> set ds" by (metis find_Some_iff nth_mem set_rev)
  with assms Some show ?thesis by simp
qed (simp add: assms)

subsection \<open>The contract of a lookup\<close>

text \<open>
  \<open>built info cfg\<close> is the pipeline that \<open>New\<close> returns. A named resource is looked up in the
  declarations of the message: the last one that has the key wins.
\<close>

abbreviation built :: "P4Info_msg \<Rightarrow> bytes \<Rightarrow> Pipeline" where
  "built info cfg \<equiv> index (emptyPipeline info cfg)"

definition lookup_spec :: "('k \<Rightarrow> 'd \<Rightarrow> bool) \<Rightarrow> 'd list \<Rightarrow> ('k \<Rightarrow> 'd option) \<Rightarrow> bool" where
  "lookup_spec key ds f \<longleftrightarrow>
     (\<forall>k. f k = None \<longleftrightarrow> (\<forall>d\<in>set ds. \<not> key k d)) \<and>
     (\<forall>k d. f k = Some d \<longrightarrow> d \<in> set ds \<and> key k d) \<and>
     (\<forall>k d. d \<in> set ds \<and> key k d \<and> (\<forall>d'\<in>set ds. key k d' \<longrightarrow> d' = d) \<longrightarrow> f k = Some d)"

lemma lookup_spec_find:
  assumes "\<And>k. f k = find (key k) (rev ds)"
  shows "lookup_spec key ds f"
proof -
  have s: "f k = Some d \<Longrightarrow> d \<in> set ds \<and> key k d" for k d
    unfolding assms by (metis find_Some_iff nth_mem set_rev)
  have n: "f k = None \<longleftrightarrow> (\<forall>d\<in>set ds. \<not> key k d)" for k
    by (auto simp: assms find_None_iff)
  have "f k = Some d" if "d \<in> set ds" "key k d" "\<forall>d'\<in>set ds. key k d' \<longrightarrow> d' = d" for k d
  proof -
    have "f k \<noteq> None" using that(1,2) n by blast
    then obtain d' where "f k = Some d'" by blast
    with s that(3) show ?thesis by blast
  qed
  with s n show ?thesis unfolding lookup_spec_def by blast
qed

locale named_resource =
  fixes decls :: "P4Info_msg \<Rightarrow> 'd list"
    and name :: "'d \<Rightarrow> string"
    and nick :: "'d \<Rightarrow> string"
    and lookup :: "Pipeline option \<Rightarrow> string \<Rightarrow> 'd option"
  assumes lookup_nil: "lookup None n = None"
    and lookup_built: "lookup (Some (built info cfg)) n = find (has_key name nick n) (rev (decls info))"
begin

lemma lookup_meets_spec: "lookup_spec (has_key name nick) (decls info) (lookup (Some (built info cfg)))"
  by (rule lookup_spec_find) (rule lookup_built)

lemma lookup_declared: "lookup (Some (built info cfg)) n = Some d \<Longrightarrow> d \<in> set (decls info)"
  using lookup_meets_spec [of info cfg] unfolding lookup_spec_def by blast

end

locale identified_resource = named_resource decls name nick lookup
  for decls :: "P4Info_msg \<Rightarrow> 'd list" and name nick lookup +
  fixes ident :: "'d \<Rightarrow> uint32"
    and lookupID :: "Pipeline option \<Rightarrow> uint32 \<Rightarrow> 'd option"
  assumes lookupID_nil: "lookupID None i = None"
    and lookupID_built: "lookupID (Some (built info cfg)) i = find (\<lambda>d. ident d = i) (rev (decls info))"
begin

lemma lookupID_meets_spec: "lookup_spec (\<lambda>i d. ident d = i) (decls info) (lookupID (Some (built info cfg)))"
  by (rule lookup_spec_find) (rule lookupID_built)

text \<open>With distinct IDs, the lookup by ID inverts the ID of whatever a lookup by name returns.\<close>

lemma lookupID_of_lookup:
  assumes "distinct (map ident (decls info))" "lookup (Some (built info cfg)) n = Some d"
  shows "lookupID (Some (built info cfg)) (ident d) = Some d"
proof -
  have "d \<in> set (decls info)" using assms(2) by (rule lookup_declared)
  then show ?thesis using lookupID_meets_spec [of info cfg] assms(1)
    unfolding lookup_spec_def by (metis distinct_map inj_onD)
qed

end

subsection \<open>The resource kinds\<close>

abbreviation tables_of :: "P4Info_msg \<Rightarrow> TableDef list" where
  "tables_of info \<equiv> map newTableDef (info_tables info)"
abbreviation actions_of :: "P4Info_msg \<Rightarrow> ActionDef list" where
  "actions_of info \<equiv> map newActionDef (info_actions info)"
abbreviation counters_of :: "P4Info_msg \<Rightarrow> CounterDef list" where
  "counters_of info \<equiv> map newCounterDef (info_counters info)"
abbreviation meters_of :: "P4Info_msg \<Rightarrow> MeterDef list" where
  "meters_of info \<equiv> map newMeterDef (info_meters info)"
abbreviation registers_of :: "P4Info_msg \<Rightarrow> RegisterDef list" where
  "registers_of info \<equiv> map newRegisterDef (info_registers info)"
abbreviation digests_of :: "P4Info_msg \<Rightarrow> DigestDef list" where
  "digests_of info \<equiv> map newDigestDef (info_digests info)"
abbreviation packets_of :: "P4Info_msg \<Rightarrow> ControllerPacketMetadataDef list" where
  "packets_of info \<equiv> map newPacketMetadataDef (info_controller_packet_metadata info)"
abbreviation direct_counters_of :: "P4Info_msg \<Rightarrow> DirectCounterDef list" where
  "direct_counters_of info \<equiv>
     map (newDirectCounterDef (index_by t_ID (tables_of info))) (info_direct_counters info)"
abbreviation direct_meters_of :: "P4Info_msg \<Rightarrow> DirectMeterDef list" where
  "direct_meters_of info \<equiv>
     map (newDirectMeterDef (index_by t_ID (tables_of info))) (info_direct_meters info)"

lemma built_maps:
  "tablesByName (built info cfg) = assignNamed t_Name t_Alias Map.empty (tables_of info)"
  "tablesByID (built info cfg) = index_by t_ID (tables_of info)"
  "actionsByName (built info cfg) = assignNamed a_Name a_Alias Map.empty (actions_of info)"
  "actionsByID (built info cfg) = index_by a_ID (actions_of info)"
  "countersByName (built info cfg) = assignNamed c_Name c_alias Map.empty (counters_of info)"
  "countersByID (built info cfg) = index_by c_ID (counters_of info)"
  "directCountersByName (built info cfg) = assignNamed dc_Name no_alias Map.empty (direct_counters_of info)"
  "metersByName (built info cfg) = assignNamed m_Name m_alias Map.empty (meters_of info)"
  "directMetersByName (built info cfg) = assignNamed dm_Name no_alias Map.empty (direct_meters_of info)"
  "registersByName (built info cfg) = assignNamed r_Name r_alias Map.empty (registers_of info)"
  "digestsByName (built info cfg) = assignNamed d_Name d_alias Map.empty (digests_of info)"
  "digestsByID (built info cfg) = index_by d_ID (digests_of info)"
  "ctrlPktByName (built info cfg) = assignNamed cp_Name no_alias Map.empty (packets_of info)"
  "ctrlPktByID (built info cfg) = index_by cp_ID (packets_of info)"
  "p_info (built info cfg) = info"
  "p_deviceConfig (built info cfg) = cfg"
  by (simp_all add: index_def emptyPipeline_def assignByID_index_by Let_def)

interpretation table: identified_resource tables_of t_Name t_Alias Pipeline_Table t_ID Pipeline_TableByID
  by unfold_locales
    (auto simp: pipeline_lookups built_maps assignNamed_find index_by_find
      intro!: copy_find clone_id new_wf)

interpretation action: identified_resource actions_of a_Name a_Alias Pipeline_Action a_ID Pipeline_ActionByID
  by unfold_locales
    (auto simp: pipeline_lookups built_maps assignNamed_find index_by_find
      intro!: copy_find clone_id new_wf)

interpretation counter: identified_resource counters_of c_Name c_alias Pipeline_Counter c_ID Pipeline_CounterByID
  by unfold_locales
    (auto simp: pipeline_lookups built_maps assignNamed_find index_by_find
      intro!: copy_find clone_id new_wf)

interpretation digest: identified_resource digests_of d_Name d_alias Pipeline_Digest d_ID Pipeline_DigestByID
  by unfold_locales
    (auto simp: pipeline_lookups built_maps assignNamed_find index_by_find
      intro!: copy_find clone_id new_wf)

interpretation packet: identified_resource packets_of cp_Name no_alias Pipeline_PacketMetadata cp_ID Pipeline_PacketMetadataByID
  by unfold_locales
    (auto simp: pipeline_lookups built_maps assignNamed_find index_by_find
      intro!: copy_find clone_id new_wf)

interpretation meter: named_resource meters_of m_Name m_alias Pipeline_Meter
  by unfold_locales
    (auto simp: pipeline_lookups built_maps assignNamed_find index_by_find
      intro!: copy_find clone_id new_wf)

interpretation reg: named_resource registers_of r_Name r_alias Pipeline_Register
  by unfold_locales
    (auto simp: pipeline_lookups built_maps assignNamed_find index_by_find
      intro!: copy_find clone_id new_wf)

interpretation dcounter: named_resource direct_counters_of dc_Name no_alias Pipeline_DirectCounter
  by unfold_locales
    (auto simp: pipeline_lookups built_maps assignNamed_find index_by_find
      intro!: copy_find clone_id new_wf)

interpretation dmeter: named_resource direct_meters_of dm_Name no_alias Pipeline_DirectMeter
  by unfold_locales
    (auto simp: pipeline_lookups built_maps assignNamed_find index_by_find
      intro!: copy_find clone_id new_wf)

subsection \<open>What New returns\<close>

lemma New_Inr_iff:
  "Pipeline_New reflect io cfg = Inr p \<longleftrightarrow>
     (\<exists>info. io = Some info \<and> clonable (fst (reflect info)) (snd (reflect info)) \<and> p = built info cfg)"
  using validateMessageGraph_iff
  by (auto simp: Pipeline_New_def bindE_Inr_iff split: option.splits)

text \<open>A definition found by a lookup is well formed: its inner lookups agree with its lists.\<close>

lemma Pipeline_Table_wf: "Pipeline_Table (Some (built info cfg)) n = Some t \<Longrightarrow> table_wf t"
  by (drule table.lookup_declared) (auto intro: new_wf)

lemma Pipeline_Action_wf: "Pipeline_Action (Some (built info cfg)) n = Some a \<Longrightarrow> action_wf a"
  by (drule action.lookup_declared) (auto intro: new_wf)

lemma table_wf_MatchField:
  "table_wf t \<Longrightarrow> lookup_spec (\<lambda>n f. mf_Name f = n) (t_MatchFields t) (TableDef_MatchField (Some t))"
  by (rule lookup_spec_find) (simp add: TableDef_MatchField_def table_wf_def index_by_find)

lemma action_wf_Param:
  "action_wf a \<Longrightarrow> lookup_spec (\<lambda>n f. ap_Name f = n) (a_Params a) (ActionDef_Param (Some a))"
  by (rule lookup_spec_find) (simp add: ActionDef_Param_def action_wf_def index_by_find)

lemma packet_wf_Field:
  "packet_wf c \<Longrightarrow>
     lookup_spec (\<lambda>n f. pf_Name f = n) (cp_Metadata c) (ControllerPacketMetadataDef_Field (Some c)) \<and>
     lookup_spec (\<lambda>i f. pf_ID f = i) (cp_Metadata c) (ControllerPacketMetadataDef_FieldByID (Some c))"
  by (intro conjI lookup_spec_find)
    (simp_all add: ControllerPacketMetadataDef_Field_def ControllerPacketMetadataDef_FieldByID_def
      packet_wf_def index_by_find)

lemma Pipeline_Tables_distinct:
  assumes "distinct (map t_ID (tables_of info))"
  shows "Pipeline_Tables (built info cfg) = tables_of info"
proof -
  have "TableDef_clone (tablesByID (built info cfg) (GetId (tbl_preamble t))) = Some (newTableDef t)"
    "tablesByID (built info cfg) (GetId (tbl_preamble t)) = Some (newTableDef t)"
    if "t \<in> set (info_tables info)" for t
  proof -
    have "t_ID (newTableDef t) = GetId (tbl_preamble t)" by (simp add: newTableDef_def Let_def)
    moreover have "newTableDef t \<in> set (tables_of info)" using that by simp
    ultimately show *: "tablesByID (built info cfg) (GetId (tbl_preamble t)) = Some (newTableDef t)"
      using index_by_distinct [OF assms] by (metis built_maps(2))
    show "TableDef_clone (tablesByID (built info cfg) (GetId (tbl_preamble t))) = Some (newTableDef t)"
      unfolding * by (simp add: clone_id new_wf)
  qed
  then have "concat (map (\<lambda>t. case tablesByID (built info cfg) (GetId (tbl_preamble t)) of
        None \<Rightarrow> [] | Some td \<Rightarrow> [the (TableDef_clone (Some td))]) ts) = map newTableDef ts"
    if "set ts \<subseteq> set (info_tables info)" for ts
    using that by (induction ts) auto
  then show ?thesis by (simp add: Pipeline_Tables_def built_maps)
qed

subsection \<open>Properties\<close>

text \<open>C26. Lookups by name on a pipeline built by \<open>New\<close>: for each of the nine resource kinds, a name
  is found exactly when some declaration of the P4Info message has it as its name or, where the
  kind has one, as its non-empty alias; what is returned is such a declaration, and the only one
  when the name is unambiguous.\<close>

theorem Pipeline_lookup_by_name:
  assumes "Pipeline_New reflect (Some info) cfg = Inr p"
  shows "lookup_spec (has_key t_Name t_Alias) (tables_of info) (Pipeline_Table (Some p)) \<and>
         lookup_spec (has_key a_Name a_Alias) (actions_of info) (Pipeline_Action (Some p)) \<and>
         lookup_spec (has_key c_Name c_alias) (counters_of info) (Pipeline_Counter (Some p)) \<and>
         lookup_spec (has_key dc_Name no_alias) (direct_counters_of info) (Pipeline_DirectCounter (Some p)) \<and>
         lookup_spec (has_key m_Name m_alias) (meters_of info) (Pipeline_Meter (Some p)) \<and>
         lookup_spec (has_key dm_Name no_alias) (direct_meters_of info) (Pipeline_DirectMeter (Some p)) \<and>
         lookup_spec (has_key r_Name r_alias) (registers_of info) (Pipeline_Register (Some p)) \<and>
         lookup_spec (has_key d_Name d_alias) (digests_of info) (Pipeline_Digest (Some p)) \<and>
         lookup_spec (has_key cp_Name no_alias) (packets_of info) (Pipeline_PacketMetadata (Some p))"
proof -
  have p: "p = built info cfg" using assms by (simp add: New_Inr_iff)
  show ?thesis unfolding p
    by (intro conjI table.lookup_meets_spec action.lookup_meets_spec counter.lookup_meets_spec
        dcounter.lookup_meets_spec meter.lookup_meets_spec dmeter.lookup_meets_spec
        reg.lookup_meets_spec digest.lookup_meets_spec packet.lookup_meets_spec)
qed

text \<open>A P4Info with one table of two match fields, one action and one direct counter.\<close>

definition sample_info :: P4Info_msg where
  "sample_info =
    \<lparr>info_tables =
       [\<lparr>tbl_preamble = Some \<lparr>pre_id = 33, pre_name = ''ingress.ipv4'', pre_alias = ''ipv4''\<rparr>,
         tbl_match_fields =
           [\<lparr>mfm_id = 2, mfm_name = ''port'', mfm_bitwidth = 9, mfm_match_type = MatchField_TERNARY, mfm_other_match_type = ''''\<rparr>,
            \<lparr>mfm_id = 1, mfm_name = ''dst'', mfm_bitwidth = 32, mfm_match_type = MatchField_LPM, mfm_other_match_type = ''''\<rparr>],
         tbl_action_refs = [\<lparr>arm_id = 17, arm_scope = ActionRef_TABLE_AND_DEFAULT\<rparr>],
         tbl_const_default_action_id = 0, tbl_implementation_id = 0, tbl_size = 1024,
         tbl_idle_timeout_behavior = Table_NOTIFY_CONTROL, tbl_is_const_table = False\<rparr>],
     info_actions =
       [\<lparr>act_preamble = Some \<lparr>pre_id = 17, pre_name = ''ingress.forward'', pre_alias = ''forward''\<rparr>,
         act_params = [\<lparr>prm_id = 1, prm_name = ''port'', prm_bitwidth = 9\<rparr>]\<rparr>],
     info_counters = [], info_direct_counters =
       [\<lparr>dctr_preamble = Some \<lparr>pre_id = 50, pre_name = ''ingress.hits'', pre_alias = ''hits''\<rparr>,
         dctr_unit = 1, dctr_direct_table_id = 33\<rparr>],
     info_meters = [], info_direct_meters = [],
     info_controller_packet_metadata = [], info_registers = [], info_digests = [], info_type_info = None\<rparr>"

abbreviation sample_reflect :: "P4Info_msg \<Rightarrow> message_graph \<times> addr" where
  "sample_reflect info \<equiv> ([\<lparr>n_oneofs = [], n_fields = []\<rparr>], 0)"

lemma sample_New: "Pipeline_New sample_reflect (Some sample_info) cfg = Inr (built sample_info cfg)"
proof -
  have "validateMessageGraph [\<lparr>n_oneofs = [], n_fields = []\<rparr>] (Some 0) = Inr ()" by code_simp
  then show ?thesis by (simp add: Pipeline_New_def)
qed

theorem Pipeline_lookup_by_name_witness:
  "lookup_spec (has_key t_Name t_Alias) (tables_of sample_info) (Pipeline_Table (Some (built sample_info [])))"
  using Pipeline_lookup_by_name [OF sample_New [of "[]"]] by blast

text \<open>Lookups by ID: the five kinds with a by-ID lookup find exactly the declared IDs, and with
  distinct IDs the lookup by ID returns what the lookup by name returned; \<open>Tables\<close> then lists
  every declared table, once each, in P4Info order.\<close>

theorem Pipeline_lookup_by_ID:
  assumes "Pipeline_New reflect (Some info) cfg = Inr p"
  shows "lookup_spec (\<lambda>i d. t_ID d = i) (tables_of info) (Pipeline_TableByID (Some p)) \<and>
         lookup_spec (\<lambda>i d. a_ID d = i) (actions_of info) (Pipeline_ActionByID (Some p)) \<and>
         lookup_spec (\<lambda>i d. c_ID d = i) (counters_of info) (Pipeline_CounterByID (Some p)) \<and>
         lookup_spec (\<lambda>i d. d_ID d = i) (digests_of info) (Pipeline_DigestByID (Some p)) \<and>
         lookup_spec (\<lambda>i d. cp_ID d = i) (packets_of info) (Pipeline_PacketMetadataByID (Some p)) \<and>
         (distinct (map t_ID (tables_of info)) \<longrightarrow>
            Pipeline_Tables p = tables_of info \<and>
            (\<forall>n t. Pipeline_Table (Some p) n = Some t \<longrightarrow> Pipeline_TableByID (Some p) (t_ID t) = Some t))"
proof -
  have p: "p = built info cfg" using assms by (simp add: New_Inr_iff)
  show ?thesis unfolding p
    by (intro conjI impI allI table.lookupID_meets_spec action.lookupID_meets_spec
        counter.lookupID_meets_spec digest.lookupID_meets_spec packet.lookupID_meets_spec
        Pipeline_Tables_distinct table.lookupID_of_lookup) assumption+
qed

theorem Pipeline_lookup_by_ID_witness:
  "Pipeline_Tables (built sample_info []) = tables_of sample_info"
  using Pipeline_lookup_by_ID [OF sample_New [of "[]"]] by (simp add: sample_info_def)

text \<open>C27. \<open>New\<close> refuses a nil message and a message whose pointers cannot be cloned; otherwise it
  returns a pipeline that keeps the message and the device configuration (reported as nil when
  empty), every table and action of which carries lookup maps equal to those of its own lists, and
  every direct counter of which names the table with its ID.\<close>

theorem Pipeline_New_correct:
  "(isOk (Pipeline_New reflect io cfg) \<longleftrightarrow>
      (\<exists>info. io = Some info \<and> clonable (fst (reflect info)) (snd (reflect info)))) \<and>
   (\<forall>info p. Pipeline_New reflect (Some info) cfg = Inr p \<longrightarrow>
      Pipeline_Info p = info \<and> Pipeline_DeviceConfig p = (if cfg = [] then None else Some cfg) \<and>
      (\<forall>n t. Pipeline_Table (Some p) n = Some t \<longrightarrow> table_wf t) \<and>
      (\<forall>n a. Pipeline_Action (Some p) n = Some a \<longrightarrow> action_wf a) \<and>
      (\<forall>n d. Pipeline_DirectCounter (Some p) n = Some d \<longrightarrow>
         dc_DirectTableName d = (case Pipeline_TableByID (Some p) (dc_DirectTableID d) of
                                   None \<Rightarrow> '''' | Some t \<Rightarrow> t_Name t)))"
proof (intro conjI allI impI)
  show "isOk (Pipeline_New reflect io cfg) \<longleftrightarrow>
      (\<exists>info. io = Some info \<and> clonable (fst (reflect info)) (snd (reflect info)))"
    by (auto simp: isOk_iff New_Inr_iff)
next
  fix info p assume "Pipeline_New reflect (Some info) cfg = Inr p"
  then have p: "p = built info cfg" by (simp add: New_Inr_iff)
  show "Pipeline_Info p = info" "Pipeline_DeviceConfig p = (if cfg = [] then None else Some cfg)"
    by (simp_all add: p Pipeline_Info_def Pipeline_DeviceConfig_def built_maps)
  show "table_wf t" if "Pipeline_Table (Some p) n = Some t" for n t
    using that unfolding p by (rule Pipeline_Table_wf)
  show "action_wf a" if "Pipeline_Action (Some p) n = Some a" for n a
    using that unfolding p by (rule Pipeline_Action_wf)
  show "dc_DirectTableName d = (case Pipeline_TableByID (Some p) (dc_DirectTableID d) of
      None \<Rightarrow> '''' | Some t \<Rightarrow> t_Name t)" if "Pipeline_DirectCounter (Some p) n = Some d" for n d
  proof -
    have "d \<in> set (direct_counters_of info)" using that unfolding p by (rule dcounter.lookup_declared)
    then show ?thesis
      by (auto simp: newDirectCounterDef_def p table.lookupID_built index_by_find)
  qed
qed

theorem Pipeline_New_correct_witness:
  "Pipeline_DeviceConfig (built sample_info [7]) = Some [7]"
  using Pipeline_New_correct [of sample_reflect "Some sample_info" "[7]"] sample_New [of "[7]"] by simp

end
