(* ===== verification/Table_Entry.thy ===== *)
theory Table_Entry
  imports Pipeline "HOL-Library.AList"
begin

text \<open>
  Package tableentry (src/tableentry/matchvalue.go and builder.go): the fluent builder of table
  entries. The builder's map of match values and the map of action parameters are association
  lists whose order is the order in which a Go \<^verbatim>\<open>range\<close> visits the map; no theorem depends on
  that order.

  What a match value means for a field, and what the encoded field match means on the wire, are
  the predicates \<open>accepts\<close> and \<open>wire_accepts\<close>; \<open>wire_ok\<close> is the form the P4Runtime specification
  requires of a field match. The main lemmas say that encoding preserves the meaning.
\<close>

unbundle bit_operations_syntax

subsection \<open>Match values (matchvalue.go)\<close>

text \<open>\<open>UnrecognizedMatch\<close> is any other dynamic type of the interface (nil, or a pointer), with its
  type name. A nil value of an OPTIONAL match is \<open>None\<close>.\<close>

datatype MatchValue =
    ExactMatch bytes
  | LPMMatch bytes int
  | TernaryMatch bytes bytes
  | RangeMatch bytes bytes
  | OptionalMatch "bytes option"
  | UnrecognizedMatch string

definition Exact :: "bytes \<Rightarrow> MatchValue" where "Exact v = ExactMatch v"
definition LPM :: "bytes \<Rightarrow> int \<Rightarrow> MatchValue" where "LPM v prefixLen = LPMMatch v prefixLen"
definition Ternary :: "bytes \<Rightarrow> bytes \<Rightarrow> MatchValue" where "Ternary v m = TernaryMatch v m"
definition Range :: "bytes \<Rightarrow> bytes \<Rightarrow> MatchValue" where "Range low high = RangeMatch low high"
definition Optional :: "bytes option \<Rightarrow> MatchValue" where "Optional v = OptionalMatch v"

subsection \<open>Wire messages\<close>

datatype FieldMatchType =
    FM_Exact bytes
  | FM_LPM bytes int
  | FM_Ternary bytes bytes
  | FM_Range bytes bytes
  | FM_Optional bytes

record FieldMatch =
  fm_FieldId :: uint32
  fm_type :: FieldMatchType

record Action_Param =
  param_ParamId :: uint32
  param_Value :: bytes

record Action_wire =
  aw_ActionId :: uint32
  aw_Params :: "Action_Param list"

record TableEntry =
  te_TableId :: uint32
  te_Match :: "FieldMatch list"
  te_Action :: "Action_wire option"
  te_Priority :: int
  te_IsDefaultAction :: bool
  te_IdleTimeoutNs :: int
  te_Metadata :: bytes

subsection \<open>The builder\<close>

record actionSpec =
  as_name :: string
  as_params :: "(string \<times> bytes) list"

record Builder =
  b_pipeline :: "Pipeline option"
  b_table :: "TableDef option"
  b_tableErr :: "goerr option"
  b_matches :: "(string \<times> MatchValue) list"
  b_action :: "actionSpec option"
  b_priority :: int
  b_timeout :: int
  b_isDefault :: bool
  b_metadata :: bytes

definition NewBuilder :: "Pipeline option \<Rightarrow> string \<Rightarrow> Builder" where
  "NewBuilder p table =
     (let b = \<lparr>b_pipeline = p, b_table = None, b_tableErr = None, b_matches = [], b_action = None,
               b_priority = 0, b_timeout = 0, b_isDefault = False, b_metadata = []\<rparr> in
      case p of
        None \<Rightarrow> b\<lparr>b_tableErr := Some (NewErr ''tableentry: nil pipeline'')\<rparr>
      | Some _ \<Rightarrow>
          (case Pipeline_Table p table of
             None \<Rightarrow> b\<lparr>b_tableErr := Some (Errorf ''tableentry: table %q not in pipeline'' [AStr table])\<rparr>
           | Some td \<Rightarrow> b\<lparr>b_table := Some td\<rparr>))"

definition Builder_Match :: "string \<Rightarrow> MatchValue \<Rightarrow> Builder \<Rightarrow> Builder" where
  "Builder_Match field v b = b\<lparr>b_matches := AList.update field v (b_matches b)\<rparr>"

definition Builder_Action :: "string \<Rightarrow> (string \<times> bytes) list \<Rightarrow> Builder \<Rightarrow> Builder" where
  "Builder_Action name params b =
     b\<lparr>b_action := Some \<lparr>as_name = name,
        as_params = foldl (\<lambda>m p. AList.update (fst p) (snd p) m) [] params\<rparr>\<rparr>"

definition Builder_Priority :: "int \<Rightarrow> Builder \<Rightarrow> Builder" where
  "Builder_Priority p b = b\<lparr>b_priority := p\<rparr>"

definition Builder_IdleTimeout :: "int \<Rightarrow> Builder \<Rightarrow> Builder" where
  "Builder_IdleTimeout ns b = b\<lparr>b_timeout := ns\<rparr>"

definition Builder_AsDefault :: "Builder \<Rightarrow> Builder" where
  "Builder_AsDefault b = b\<lparr>b_isDefault := True\<rparr>"

definition Builder_Metadata :: "bytes \<Rightarrow> Builder \<Rightarrow> Builder" where
  "Builder_Metadata m b = b\<lparr>b_metadata := m\<rparr>"

definition Param :: "string \<Rightarrow> bytes \<Rightarrow> string \<times> bytes" where
  "Param name value = (name, value)"

subsection \<open>Encoding a match field\<close>

definition allZero :: "bytes \<Rightarrow> bool" where
  "allZero b = list_all (\<lambda>c. c = 0) b"

definition isFullRange :: "bytes \<Rightarrow> bytes \<Rightarrow> int \<Rightarrow> bool" where
  "isFullRange low high bitwidth =
     (if \<not> allZero low \<or> int (length high) \<noteq> go_div (bitwidth - 1) 8 + 1 then False
      else let first = (if bitwidth mod 8 \<noteq> 0 then lowMask (bitwidth mod 8) else 0xff) in
        if hd high \<noteq> first then False else list_all (\<lambda>v. v = 0xff) (tl high))"

abbreviation unsupportedKind :: "MatchFieldDef \<Rightarrow> string \<Rightarrow> goerr" where
  "unsupportedKind mf got \<equiv> Errorf ''%w: field %q expects %s, got %s''
     [AErr (Sentinel ErrUnsupportedMatchKind), AStr (mf_Name mf), AInt (mf_MatchType mf), AStr got]"

definition matchErr :: "string \<Rightarrow> MatchFieldDef \<Rightarrow> goerr \<Rightarrow> goerr" where
  "matchErr fmt mf e = Errorf fmt [AStr (mf_Name mf), AErr e]"

definition encodeField :: "MatchFieldDef \<Rightarrow> MatchValue \<Rightarrow> goerr + FieldMatch option" where
  "encodeField mf mv =
     (let found = (\<lambda>t. Inr (Some \<lparr>fm_FieldId = mf_ID mf, fm_type = t\<rparr>)) in
      case mv of
        ExactMatch v \<Rightarrow>
          bindE (mapErr (matchErr ''match %q: %w'' mf) (EncodeBytes v (mf_Bitwidth mf))) (\<lambda>canon.
          if mf_MatchType mf \<noteq> MatchField_EXACT then Inl (unsupportedKind mf ''EXACT'')
          else found (FM_Exact canon))
      | LPMMatch v prefixLen \<Rightarrow>
          if mf_MatchType mf \<noteq> MatchField_LPM then Inl (unsupportedKind mf ''LPM'')
          else if prefixLen = 0 then Inr None
          else bindE (mapErr (matchErr ''match %q: %w'' mf) (LPMMask v prefixLen (mf_Bitwidth mf))) (\<lambda>canon.
               found (FM_LPM canon prefixLen))
      | TernaryMatch v m \<Rightarrow>
          if mf_MatchType mf \<noteq> MatchField_TERNARY then Inl (unsupportedKind mf ''TERNARY'')
          else if allZero m then Inr None
          else bindE (mapErr (matchErr ''match %q: %w'' mf) (TernaryApply v m (mf_Bitwidth mf))) (\<lambda>applied.
               bindE (mapErr (matchErr ''match %q mask: %w'' mf) (EncodeBytes m (mf_Bitwidth mf))) (\<lambda>msk.
               found (FM_Ternary applied msk)))
      | RangeMatch low high \<Rightarrow>
          if mf_MatchType mf \<noteq> MatchField_RANGE then Inl (unsupportedKind mf ''RANGE'')
          else bindE (mapErr (matchErr ''match %q: %w'' mf) (ValidateRange low high (mf_Bitwidth mf))) (\<lambda>_.
               bindE (mapErr (matchErr ''match %q low: %w'' mf) (EncodeBytes low (mf_Bitwidth mf))) (\<lambda>l.
               bindE (mapErr (matchErr ''match %q high: %w'' mf) (EncodeBytes high (mf_Bitwidth mf))) (\<lambda>h.
               if isFullRange l h (mf_Bitwidth mf) then Inr None else found (FM_Range l h))))
      | OptionalMatch vo \<Rightarrow>
          if mf_MatchType mf \<noteq> MatchField_OPTIONAL then Inl (unsupportedKind mf ''OPTIONAL'')
          else (case vo of
             None \<Rightarrow> Inr None
           | Some v \<Rightarrow> bindE (mapErr (matchErr ''match %q: %w'' mf) (EncodeBytes v (mf_Bitwidth mf))) (\<lambda>canon.
                        found (FM_Optional canon)))
      | UnrecognizedMatch ty \<Rightarrow>
          Inl (Errorf ''unrecognized match type %T on field %q'' [AStr ty, AStr (mf_Name mf)]))"

subsection \<open>Encoding the matches\<close>

text \<open>The loop over the fields in ID order, then the search for unknown names.\<close>

fun encodeFields :: "TableDef \<Rightarrow> (string \<times> MatchValue) list \<Rightarrow> MatchFieldDef list \<Rightarrow> goerr + FieldMatch list" where
  "encodeFields t ms [] = Inr []"
| "encodeFields t ms (mf # rest) =
     (case map_of ms (mf_Name mf) of
        None \<Rightarrow>
          if mf_MatchType mf = MatchField_EXACT then
            Inl (Errorf ''%w: exact field %q required on table %q''
              [AErr (Sentinel ErrInvalidMatchField), AStr (mf_Name mf), AStr (t_Name t)])
          else encodeFields t ms rest
      | Some mv \<Rightarrow>
          bindE (encodeField mf mv) (\<lambda>fm. bindE (encodeFields t ms rest) (\<lambda>fms.
            Inr (case fm of None \<Rightarrow> fms | Some f \<Rightarrow> f # fms))))"

definition encodeMatches :: "TableDef \<Rightarrow> (string \<times> MatchValue) list \<Rightarrow> TableEntry \<Rightarrow> goerr + TableEntry" where
  "encodeMatches t ms entry =
     bindE (encodeFields t ms (sort_key mf_ID (t_MatchFields t))) (\<lambda>fms.
       case find (\<lambda>(name, _). TableDef_MatchField (Some t) name = None) ms of
         Some (name, _) \<Rightarrow>
           Inl (Errorf ''%w: %q not on table %q'' [AErr (Sentinel ErrInvalidMatchField), AStr name, AStr (t_Name t)])
       | None \<Rightarrow> Inr (entry\<lparr>te_Match := te_Match entry @ fms\<rparr>))"

definition needsPriority :: "TableDef \<Rightarrow> bool" where
  "needsPriority t = list_ex (\<lambda>m. mf_MatchType m \<in> {MatchField_TERNARY, MatchField_RANGE, MatchField_OPTIONAL})
                       (t_MatchFields t)"

definition BuildKey :: "Builder \<Rightarrow> goerr + TableEntry" where
  "BuildKey b =
     (case b_tableErr b of
        Some e \<Rightarrow> Inl e
      | None \<Rightarrow>
          (case b_table b of
             None \<Rightarrow> Inl (GoPanic ''nil pointer dereference'')
           | Some t \<Rightarrow>
               let entry = \<lparr>te_TableId = t_ID t, te_Match = [], te_Action = None, te_Priority = 0,
                            te_IsDefaultAction = b_isDefault b, te_IdleTimeoutNs = 0, te_Metadata = []\<rparr> in
               if b_isDefault b then Inr entry
               else bindE (encodeMatches t (b_matches b) entry) (\<lambda>entry.
                 if needsPriority t then
                   (if b_priority b \<le> 0 then
                      Inl (Errorf ''tableentry: table %q requires positive priority'' [AStr (t_Name t)])
                    else Inr (entry\<lparr>te_Priority := b_priority b\<rparr>))
                 else if b_priority b \<noteq> 0 then
                   Inl (Errorf ''tableentry: table %q requires zero priority'' [AStr (t_Name t)])
                 else Inr entry)))"

subsection \<open>Encoding the action\<close>

definition validateIdleTimeout :: "TableDef \<Rightarrow> Builder \<Rightarrow> goerr + unit" where
  "validateIdleTimeout t b =
     (if b_timeout b < 0 then Inl (Errorf ''tableentry.Build: negative idle timeout %d'' [AInt (b_timeout b)])
      else if b_timeout b = 0 then Inr ()
      else if b_isDefault b then Inl (NewErr ''tableentry.Build: default entries require zero idle timeout'')
      else if tbl_idle_timeout_behavior (t_raw t) \<noteq> Table_NOTIFY_CONTROL then
        Inl (Errorf ''tableentry.Build: table %q does not support idle timeout'' [AStr (t_Name t)])
      else Inr ())"

definition encodeParam :: "actionSpec \<Rightarrow> ActionParamDef \<Rightarrow> goerr + Action_Param" where
  "encodeParam spec pdef =
     (case map_of (as_params spec) (ap_Name pdef) of
        None \<Rightarrow> Inl (Errorf ''%w: missing parameter %q on action %q''
          [AErr (Sentinel ErrInvalidActionParam), AStr (ap_Name pdef), AStr (as_name spec)])
      | Some v \<Rightarrow>
          bindE (mapErr (\<lambda>e. Errorf ''action %q param %q: %w'' [AStr (as_name spec), AStr (ap_Name pdef), AErr e])
                   (EncodeBytes v (ap_Bitwidth pdef)))
            (\<lambda>canon. Inr \<lparr>param_ParamId = ap_ID pdef, param_Value = canon\<rparr>))"

definition checkScope :: "TableDef \<Rightarrow> string \<Rightarrow> bool \<Rightarrow> ActionRef \<Rightarrow> goerr + unit" where
  "checkScope t name isDefault ref =
     (if ar_Scope ref = ActionRef_TABLE_AND_DEFAULT then Inr ()
      else if ar_Scope ref = ActionRef_TABLE_ONLY then
        (if isDefault then Inl (Errorf ''tableentry.Build: action %q is TABLE_ONLY on table %q'' [AStr name, AStr (t_Name t)])
         else Inr ())
      else if ar_Scope ref = ActionRef_DEFAULT_ONLY then
        (if \<not> isDefault then Inl (Errorf ''tableentry.Build: action %q is DEFAULT_ONLY on table %q'' [AStr name, AStr (t_Name t)])
         else Inr ())
      else Inl (Errorf ''tableentry.Build: action %q has unsupported scope %d on table %q''
             [AStr name, AInt (ar_Scope ref), AStr (t_Name t)]))"

definition encodeAction :: "TableDef \<Rightarrow> actionSpec \<Rightarrow> Builder \<Rightarrow> goerr + Action_wire" where
  "encodeAction t spec b =
     (case b_pipeline b of
        None \<Rightarrow> Inl (NewErr ''tableentry.Build: pipeline required to encode action'')
      | Some p \<Rightarrow>
          if b_isDefault b \<and> tbl_const_default_action_id (t_raw t) \<noteq> 0 then
            Inl (Errorf ''tableentry.Build: table %q has a constant default action'' [AStr (t_Name t)])
          else if \<not> b_isDefault b \<and> t_Const t then
            Inl (Errorf ''tableentry.Build: cannot write an action on constant table %q'' [AStr (t_Name t)])
          else if tbl_implementation_id (t_raw t) \<noteq> 0 then
            Inl (Errorf ''tableentry.Build: indirect table %q cannot use this direct-action builder'' [AStr (t_Name t)])
          else
            (case Pipeline_Action (Some p) (as_name spec) of
               None \<Rightarrow> Inl (Errorf ''tableentry.Build: action %q not in pipeline'' [AStr (as_name spec)])
             | Some act \<Rightarrow>
                 (case find (\<lambda>candidate. ar_ID candidate = a_ID act) (t_ActionRefs t) of
                    None \<Rightarrow> Inl (Errorf ''tableentry.Build: action %q not on table %q'' [AStr (as_name spec), AStr (t_Name t)])
                  | Some ref \<Rightarrow>
                      bindE (checkScope t (as_name spec) (b_isDefault b) ref) (\<lambda>_.
                      bindE (mapE (encodeParam spec) (a_Params act)) (\<lambda>params.
                      case find (\<lambda>(name, _). ActionDef_Param (Some act) name = None) (as_params spec) of
                        Some (name, _) \<Rightarrow> Inl (Errorf ''%w: %q not on action %q''
                          [AErr (Sentinel ErrInvalidActionParam), AStr name, AStr (as_name spec)])
                      | None \<Rightarrow> Inr \<lparr>aw_ActionId = a_ID act, aw_Params = params\<rparr>)))))"

definition Build :: "Builder \<Rightarrow> goerr + TableEntry" where
  "Build b =
     bindE (BuildKey b) (\<lambda>entry.
       case b_table b of
         None \<Rightarrow> Inl (GoPanic ''nil pointer dereference'')
       | Some t \<Rightarrow>
           bindE (validateIdleTimeout t b) (\<lambda>_.
           let entry = entry\<lparr>te_IdleTimeoutNs := b_timeout b\<rparr>;
               entry = (if length (b_metadata b) > 0 then entry\<lparr>te_Metadata := b_metadata b\<rparr> else entry) in
           case b_action b of
             None \<Rightarrow> Inl (NewErr ''tableentry.Build: action required'')
           | Some spec \<Rightarrow>
               bindE (encodeAction t spec b) (\<lambda>act. Inr (entry\<lparr>te_Action := Some act\<rparr>))))"

text \<open>\<open>Equals\<close>: the text form of a protobuf message is a parameter.\<close>

definition Equals :: "(FieldMatch \<Rightarrow> string) \<Rightarrow> FieldMatch option \<Rightarrow> FieldMatch option \<Rightarrow> bool" where
  "Equals message_text a b =
     (case (a, b) of
        (Some x, Some y) \<Rightarrow> if fm_FieldId x \<noteq> fm_FieldId y then False else message_text x = message_text y
      | (None, None) \<Rightarrow> True
      | _ \<Rightarrow> False)"

subsection \<open>What match values mean\<close>

text \<open>The field values of a \<open>w\<close>-bit field that a match value accepts, and those a wire match accepts.\<close>

definition top_bits :: "int \<Rightarrow> int \<Rightarrow> nat \<Rightarrow> nat" where
  "top_bits w p x = x div 2 ^ nat (w - p) mod 2 ^ nat p"

fun accepts :: "int \<Rightarrow> MatchValue \<Rightarrow> nat \<Rightarrow> bool" where
  "accepts w (ExactMatch v) x = (x = be_nat v)"
| "accepts w (LPMMatch v p) x = (top_bits w p x = top_bits w p (be_nat v))"
| "accepts w (TernaryMatch v m) x = (x AND be_nat m = be_nat v AND be_nat m)"
| "accepts w (RangeMatch l h) x = (be_nat l \<le> x \<and> x \<le> be_nat h)"
| "accepts w (OptionalMatch vo) x = (case vo of None \<Rightarrow> True | Some v \<Rightarrow> x = be_nat v)"
| "accepts w (UnrecognizedMatch ty) x = False"

fun wire_accepts :: "int \<Rightarrow> FieldMatchType \<Rightarrow> nat \<Rightarrow> bool" where
  "wire_accepts w (FM_Exact v) x = (x = be_nat v)"
| "wire_accepts w (FM_LPM v p) x = (x div 2 ^ nat (w - p) = be_nat v div 2 ^ nat (w - p))"
| "wire_accepts w (FM_Ternary v m) x = (x AND be_nat m = be_nat v)"
| "wire_accepts w (FM_Range l h) x = (be_nat l \<le> x \<and> x \<le> be_nat h)"
| "wire_accepts w (FM_Optional v) x = (x = be_nat v)"

text \<open>The form of a field match that the P4Runtime specification requires: canonical bytes that fit
  the width, no bits outside a prefix or a mask, and no match that accepts everything.\<close>

definition wire_bytes :: "int \<Rightarrow> bytes \<Rightarrow> bool" where
  "wire_bytes w v = (canonical v \<and> be_nat v < 2 ^ nat w)"

fun wire_ok :: "MatchFieldDef \<Rightarrow> FieldMatchType \<Rightarrow> bool" where
  "wire_ok mf (FM_Exact v) = (mf_MatchType mf = MatchField_EXACT \<and> wire_bytes (mf_Bitwidth mf) v)"
| "wire_ok mf (FM_LPM v p) = (mf_MatchType mf = MatchField_LPM \<and> wire_bytes (mf_Bitwidth mf) v \<and>
     0 < p \<and> p \<le> mf_Bitwidth mf \<and> 2 ^ nat (mf_Bitwidth mf - p) dvd be_nat v)"
| "wire_ok mf (FM_Ternary v m) = (mf_MatchType mf = MatchField_TERNARY \<and> wire_bytes (mf_Bitwidth mf) v \<and>
     wire_bytes (mf_Bitwidth mf) m \<and> be_nat m \<noteq> 0 \<and> be_nat v AND be_nat m = be_nat v)"
| "wire_ok mf (FM_Range l h) = (mf_MatchType mf = MatchField_RANGE \<and> wire_bytes (mf_Bitwidth mf) l \<and>
     wire_bytes (mf_Bitwidth mf) h \<and> be_nat l \<le> be_nat h \<and> \<not> (be_nat l = 0 \<and> be_nat h = 2 ^ nat (mf_Bitwidth mf) - 1))"
| "wire_ok mf (FM_Optional v) = (mf_MatchType mf = MatchField_OPTIONAL \<and> wire_bytes (mf_Bitwidth mf) v)"

text \<open>Widths come from \<^verbatim>\<open>int32\<close> fields, far below the overflow of \<open>byteLen\<close>.\<close>

abbreviation int32_max :: int where "int32_max \<equiv> 2 ^ 31 - 1"

lemma int32_width: "w \<le> int32_max \<Longrightarrow> w \<le> max_width"
  by simp

lemma EncodeBytes_Inr_iff:
  assumes "w \<le> int32_max"
  shows "EncodeBytes v w = Inr c \<longleftrightarrow> 0 < w \<and> be_nat v < 2 ^ nat w \<and> canonical c \<and> be_nat c = be_nat v"
proof (cases "0 < w")
  case True
  then show ?thesis using ubytes.encode_Inr_iff [of w v c] assms by auto
qed (simp add: EncodeBytes_def)

lemma allZero_iff: "allZero b \<longleftrightarrow> be_nat b = 0"
  by (induction b) (auto simp: allZero_def be_nat_Cons unsigned_eq_0_iff)

lemma top_bits_zero [simp]: "top_bits w 0 x = 0"
  by (simp add: top_bits_def)

lemma top_bits_fit:
  assumes "0 \<le> p" "p \<le> w" "x < 2 ^ nat w"
  shows "top_bits w p x = x div 2 ^ nat (w - p)"
proof -
  have "(2::nat) ^ nat w = 2 ^ nat (w - p) * 2 ^ nat p"
    using assms by (simp flip: power_add nat_add_distrib)
  then have "x div 2 ^ nat (w - p) < 2 ^ nat p" using assms(3) by (simp add: less_mult_imp_div_less mult.commute)
  then show ?thesis by (simp add: top_bits_def)
qed

subsection \<open>Full ranges\<close>

text \<open>The one canonical string of the largest \<open>w\<close>-bit value.\<close>

lemma full_mask_shape:
  assumes "0 < w" "w \<le> int32_max"
  defines "n \<equiv> nat ((w - 1) div 8 + 1)"
  shows "canonical ((if w mod 8 \<noteq> 0 then lowMask (w mod 8) else 0xff) # replicate (n - 1) 0xff) \<and>
         be_nat ((if w mod 8 \<noteq> 0 then lowMask (w mod 8) else 0xff) # replicate (n - 1) 0xff) = 2 ^ nat w - 1"
proof -
  have "byteLen w = (w + 7) div 8" using assms by (intro byteLen_pos) auto
  also have "(w + 7) div 8 = (w - 1) div 8 + 1" by simp
  finally have n: "nat (byteLen w) = Suc (n - 1)" using assms by (simp add: n_def nat_add_distrib)
  have "be_nat (if w mod 8 \<noteq> 0 then (replicate (nat (byteLen w)) 0xff)[0 := lowMask (w mod 8)]
      else replicate (nat (byteLen w)) 0xff) = 2 ^ nat w - 1"
    using assms by (intro be_nat_full_mask) auto
  then have v: "be_nat ((if w mod 8 \<noteq> 0 then lowMask (w mod 8) else 0xff) # replicate (n - 1) 0xff) = 2 ^ nat w - 1"
    unfolding n by (simp split: if_splits)
  have "lowMask (w mod 8) \<noteq> 0" if "w mod 8 \<noteq> 0"
  proof -
    have "0 < w mod 8" "w mod 8 < 8" using that by auto
    then have "unat (lowMask (w mod 8)) = 2 ^ nat (w mod 8) - 1" by (intro unat_lowMask) auto
    moreover have "(2::nat) ^ 1 \<le> 2 ^ nat (w mod 8)" using \<open>0 < w mod 8\<close> by (intro power_increasing) auto
    ultimately show ?thesis by auto
  qed
  with v show ?thesis by (simp add: canonical_def)
qed

lemma isFullRange_iff:
  assumes "0 < w" "w \<le> int32_max" "canonical h"
  shows "isFullRange l h w \<longleftrightarrow> be_nat l = 0 \<and> be_nat h = 2 ^ nat w - 1"
proof -
  define n where "n = nat ((w - 1) div 8 + 1)"
  define f where "f = (if w mod 8 \<noteq> 0 then lowMask (w mod 8) else 0xff)"
  have full: "canonical (f # replicate (n - 1) 0xff)" "be_nat (f # replicate (n - 1) 0xff) = 2 ^ nat w - 1"
    using full_mask_shape [OF assms(1,2)] unfolding f_def n_def by auto
  have "0 < n" using assms by (simp add: n_def nat_add_distrib)
  then have "h = f # replicate (n - 1) 0xff \<longleftrightarrow> length h = n \<and> hd h = f \<and> list_all (\<lambda>v. v = 0xff) (tl h)"
    by (cases h) (auto simp: list_all_iff replicate_length_same intro!: replicate_eqI)
  moreover have "h = f # replicate (n - 1) 0xff \<longleftrightarrow> be_nat h = 2 ^ nat w - 1"
    using full assms(3) canonical_inj by metis
  moreover have "go_div (w - 1) 8 + 1 = int n" using assms by (simp add: n_def go_div_nonneg)
  ultimately show ?thesis
    by (auto simp: isFullRange_def Let_def allZero_iff f_def)
qed

subsection \<open>Encoding a field keeps its meaning\<close>

text \<open>What a result of \<open>encodeField\<close> promises about its match value.\<close>

definition field_encodes :: "MatchFieldDef \<Rightarrow> MatchValue \<Rightarrow> FieldMatch option \<Rightarrow> bool" where
  "field_encodes mf mv fmo =
     (case fmo of
        None \<Rightarrow> \<forall>x < 2 ^ nat (mf_Bitwidth mf). accepts (mf_Bitwidth mf) mv x
      | Some fm \<Rightarrow> fm_FieldId fm = mf_ID mf \<and> wire_ok mf (fm_type fm) \<and>
          (\<forall>x < 2 ^ nat (mf_Bitwidth mf).
             wire_accepts (mf_Bitwidth mf) (fm_type fm) x \<longleftrightarrow> accepts (mf_Bitwidth mf) mv x))"

lemma encode_lpm_meaning:
  assumes "w \<le> int32_max" "p \<noteq> 0" "LPMMask v p w = Inr c"
  shows "0 < w \<and> 0 < p \<and> p \<le> w \<and> wire_bytes w c \<and> 2 ^ nat (w - p) dvd be_nat c \<and>
    (\<forall>x < 2 ^ nat w. x div 2 ^ nat (w - p) = be_nat c div 2 ^ nat (w - p) \<longleftrightarrow> top_bits w p x = top_bits w p (be_nat v))"
proof -
  have g: "0 < w" "0 < p" "p \<le> w" using assms by (auto simp: LPMMask_def split: if_splits)
  then have c: "be_nat v < 2 ^ nat w" "canonical c"
      "be_nat c = be_nat v div 2 ^ nat (w - p) * 2 ^ nat (w - p)"
    using LPMMask_Inr_iff [of w p v c] assms by auto
  have "be_nat c \<le> be_nat v" unfolding c(3) by (rule div_times_less_eq_dividend)
  then have "be_nat c < 2 ^ nat w" using c(1) by linarith
  then have "wire_bytes w c" using c(2) by (simp add: wire_bytes_def)
  moreover have "be_nat c div 2 ^ nat (w - p) = be_nat v div 2 ^ nat (w - p)" by (simp add: c(3))
  moreover have "2 ^ nat (w - p) dvd be_nat c" by (simp add: c(3))
  ultimately show ?thesis using g c(1) by (simp add: top_bits_fit)
qed

lemma and_less_exp:
  fixes x y :: nat
  assumes "x < 2 ^ n"
  shows "x AND y < 2 ^ n"
proof -
  have t: "take_bit n x = x" using assms by (simp add: take_bit_nat_eq_self)
  then have "take_bit n (x AND y) = x AND y" using and_take_bit [OF t, of y] by simp
  then show ?thesis by (simp only: take_bit_nat_eq_self_iff)
qed

lemma encode_ternary_meaning:
  assumes "w \<le> int32_max" "TernaryApply v m w = Inr a" "EncodeBytes m w = Inr mc"
  shows "wire_bytes w a \<and> wire_bytes w mc \<and> be_nat mc = be_nat m \<and> be_nat a AND be_nat mc = be_nat a \<and>
    be_nat a = be_nat v AND be_nat m"
proof -
  have m: "0 < w" "be_nat m < 2 ^ nat w" "canonical mc" "be_nat mc = be_nat m"
    using assms EncodeBytes_Inr_iff by auto
  then have a: "be_nat v < 2 ^ nat w" "canonical a" "be_nat a = be_nat v AND be_nat m"
    using TernaryApply_Inr_iff [of w v m a] assms by auto
  have "be_nat a < 2 ^ nat w" unfolding a(3) using a(1) by (rule and_less_exp)
  with a m show ?thesis by (auto simp: wire_bytes_def and.assoc)
qed

lemma encode_range_meaning:
  assumes "w \<le> int32_max" "isOk (ValidateRange l h w)" "EncodeBytes l w = Inr lc" "EncodeBytes h w = Inr hc"
  shows "0 < w \<and> wire_bytes w lc \<and> wire_bytes w hc \<and> be_nat lc = be_nat l \<and> be_nat hc = be_nat h \<and>
    be_nat l \<le> be_nat h \<and> (isFullRange lc hc w \<longleftrightarrow> be_nat l = 0 \<and> be_nat h = 2 ^ nat w - 1)"
proof -
  have e: "0 < w" "be_nat l < 2 ^ nat w" "canonical lc" "be_nat lc = be_nat l"
      "be_nat h < 2 ^ nat w" "canonical hc" "be_nat hc = be_nat h"
    using assms EncodeBytes_Inr_iff by auto
  then show ?thesis using ValidateRange_ok_iff [of w l h] isFullRange_iff [of w hc lc] assms
    by (auto simp: wire_bytes_def)
qed

lemma encodeField_sound:
  assumes "mf_Bitwidth mf \<le> int32_max" "encodeField mf mv = Inr fmo"
  shows "field_encodes mf mv fmo"
proof (cases mv)
  case (ExactMatch v)
  with assms show ?thesis
    by (auto simp: encodeField_def field_encodes_def bindE_Inr_iff EncodeBytes_Inr_iff wire_bytes_def split: if_splits)
next
  case (LPMMatch v p)
  with assms show ?thesis
    using encode_lpm_meaning [of "mf_Bitwidth mf" p v]
    by (auto simp: encodeField_def field_encodes_def bindE_Inr_iff split: if_splits)
next
  case (TernaryMatch v m)
  with assms show ?thesis
    using encode_ternary_meaning [of "mf_Bitwidth mf" v m]
    by (auto simp: encodeField_def field_encodes_def bindE_Inr_iff allZero_iff split: if_splits)
next
  case (RangeMatch l h)
  with assms show ?thesis
    using encode_range_meaning [of "mf_Bitwidth mf" l h]
    by (auto simp: encodeField_def field_encodes_def bindE_Inr_iff isOk_iff split: if_splits)
next
  case (OptionalMatch vo)
  with assms show ?thesis
    by (auto simp: encodeField_def field_encodes_def bindE_Inr_iff EncodeBytes_Inr_iff wire_bytes_def
        split: if_splits option.splits)
next
  case (UnrecognizedMatch ty)
  with assms show ?thesis by (simp add: encodeField_def)
qed

text \<open>When a match value can be encoded on a field: its kind is the field's, and its values fit,
  unless the value itself says don't-care.\<close>

fun encodable :: "MatchFieldDef \<Rightarrow> MatchValue \<Rightarrow> bool" where
  "encodable mf (ExactMatch v) =
     (mf_MatchType mf = MatchField_EXACT \<and> 0 < mf_Bitwidth mf \<and> be_nat v < 2 ^ nat (mf_Bitwidth mf))"
| "encodable mf (LPMMatch v p) =
     (mf_MatchType mf = MatchField_LPM \<and>
      (p = 0 \<or> (0 < p \<and> p \<le> mf_Bitwidth mf \<and> be_nat v < 2 ^ nat (mf_Bitwidth mf))))"
| "encodable mf (TernaryMatch v m) =
     (mf_MatchType mf = MatchField_TERNARY \<and>
      (be_nat m = 0 \<or> (0 < mf_Bitwidth mf \<and> be_nat v < 2 ^ nat (mf_Bitwidth mf) \<and> be_nat m < 2 ^ nat (mf_Bitwidth mf))))"
| "encodable mf (RangeMatch l h) =
     (mf_MatchType mf = MatchField_RANGE \<and> 0 < mf_Bitwidth mf \<and>
      be_nat l \<le> be_nat h \<and> be_nat h < 2 ^ nat (mf_Bitwidth mf))"
| "encodable mf (OptionalMatch vo) =
     (mf_MatchType mf = MatchField_OPTIONAL \<and>
      (case vo of None \<Rightarrow> True | Some v \<Rightarrow> 0 < mf_Bitwidth mf \<and> be_nat v < 2 ^ nat (mf_Bitwidth mf)))"
| "encodable mf (UnrecognizedMatch ty) = False"

lemma isOk_EncodeBytes:
  "w \<le> int32_max \<Longrightarrow> isOk (EncodeBytes v w) \<longleftrightarrow> 0 < w \<and> be_nat v < 2 ^ nat w"
proof (cases "0 < w")
  case True
  moreover assume "w \<le> int32_max"
  ultimately show ?thesis using EncodeBytes_ok_iff [of w v] by auto
qed (simp add: EncodeBytes_def)

lemma isOk_LPMMask:
  assumes "w \<le> int32_max" "p \<noteq> 0"
  shows "isOk (LPMMask v p w) \<longleftrightarrow> 0 < p \<and> p \<le> w \<and> be_nat v < 2 ^ nat w"
  using assms isOk_EncodeBytes [of w v]
  by (cases "EncodeBytes v w") (auto simp: LPMMask_def)

lemma isOk_TernaryApply:
  "w \<le> int32_max \<Longrightarrow> isOk (TernaryApply v m w) \<longleftrightarrow> isOk (EncodeBytes v w) \<and> isOk (EncodeBytes m w)"
  by (cases "EncodeBytes v w"; cases "EncodeBytes m w") (simp_all add: TernaryApply_def)

lemma isOk_ValidateRange:
  assumes "w \<le> int32_max"
  shows "isOk (ValidateRange l h w) \<longleftrightarrow> 0 < w \<and> be_nat l \<le> be_nat h \<and> be_nat h < 2 ^ nat w"
proof (cases "0 < w")
  case True
  then show ?thesis using ValidateRange_ok_iff [of w l h] assms by auto
qed (simp add: ValidateRange_def EncodeBytes_def)

lemma encodeField_ok_iff:
  assumes "mf_Bitwidth mf \<le> int32_max"
  shows "isOk (encodeField mf mv) \<longleftrightarrow> encodable mf mv"
proof (cases mv)
  case (ExactMatch v)
  then show ?thesis using isOk_EncodeBytes [OF assms, of v]
    by (cases "EncodeBytes v (mf_Bitwidth mf)") (auto simp: encodeField_def)
next
  case (LPMMatch v p)
  then show ?thesis using isOk_LPMMask [OF assms, of p v]
    by (cases "LPMMask v p (mf_Bitwidth mf)") (auto simp: encodeField_def)
next
  case (TernaryMatch v m)
  then show ?thesis
    using isOk_EncodeBytes [OF assms, of v] isOk_EncodeBytes [OF assms, of m] isOk_TernaryApply [OF assms, of v m]
    by (cases "TernaryApply v m (mf_Bitwidth mf)"; cases "EncodeBytes m (mf_Bitwidth mf)")
      (auto simp: encodeField_def allZero_iff)
next
  case (RangeMatch l h)
  then show ?thesis
    using isOk_EncodeBytes [OF assms, of l] isOk_EncodeBytes [OF assms, of h] isOk_ValidateRange [OF assms, of l h]
    by (cases "ValidateRange l h (mf_Bitwidth mf)"; cases "EncodeBytes l (mf_Bitwidth mf)";
        cases "EncodeBytes h (mf_Bitwidth mf)") (auto simp: encodeField_def)
next
  case (OptionalMatch vo)
  show ?thesis
  proof (cases vo)
    case (Some v)
    with OptionalMatch show ?thesis using isOk_EncodeBytes [OF assms, of v]
      by (cases "EncodeBytes v (mf_Bitwidth mf)") (auto simp: encodeField_def)
  qed (use OptionalMatch in \<open>simp add: encodeField_def\<close>)
next
  case (UnrecognizedMatch ty)
  then show ?thesis by (simp add: encodeField_def)
qed

subsection \<open>The match fields of an entry\<close>

text \<open>Whether a field of the table accepts what the builder holds for it, and what it contributes.\<close>

definition field_ready :: "(string \<times> MatchValue) list \<Rightarrow> MatchFieldDef \<Rightarrow> bool" where
  "field_ready ms mf = (case map_of ms (mf_Name mf) of
     None \<Rightarrow> mf_MatchType mf \<noteq> MatchField_EXACT | Some mv \<Rightarrow> isOk (encodeField mf mv))"

definition encoded_field :: "(string \<times> MatchValue) list \<Rightarrow> MatchFieldDef \<Rightarrow> FieldMatch list" where
  "encoded_field ms mf = (case map_of ms (mf_Name mf) of
     None \<Rightarrow> [] | Some mv \<Rightarrow> (case encodeField mf mv of Inr (Some f) \<Rightarrow> [f] | _ \<Rightarrow> []))"

lemma encodeFields_Inr_iff:
  "encodeFields t ms fs = Inr fms \<longleftrightarrow>
     (\<forall>mf\<in>set fs. field_ready ms mf) \<and> fms = concat (map (encoded_field ms) fs)"
proof (induction fs arbitrary: fms)
  case (Cons mf fs)
  show ?case
  proof (cases "map_of ms (mf_Name mf)")
    case None
    then show ?thesis using Cons by (auto simp: field_ready_def encoded_field_def)
  next
    case (Some mv)
    show ?thesis
    proof (cases "encodeField mf mv")
      case (Inr fmo)
      with Some Cons show ?thesis
        by (cases fmo) (auto simp: field_ready_def encoded_field_def bindE_Inr_iff)
    qed (use Some in \<open>simp add: field_ready_def\<close>)
  qed
qed auto

lemma encodeField_ID: "encodeField mf mv = Inr (Some fm) \<Longrightarrow> fm_FieldId fm = mf_ID mf"
  by (cases mv) (auto simp: encodeField_def bindE_Inr_iff split: option.splits if_splits)

lemma encoded_field_ID: "fm \<in> set (encoded_field ms mf) \<Longrightarrow> fm_FieldId fm = mf_ID mf"
  by (auto simp: encoded_field_def encodeField_ID split: option.splits sum.splits)

lemma encoded_field_cases: "encoded_field ms mf = [] \<or> (\<exists>fm. encoded_field ms mf = [fm] \<and> fm_FieldId fm = mf_ID mf)"
proof -
  have "encoded_field ms mf = [] \<or> (\<exists>fm. encoded_field ms mf = [fm])"
    by (auto simp: encoded_field_def split: option.splits sum.splits)
  then show ?thesis using encoded_field_ID by (metis list.set_intros(1))
qed

text \<open>The field IDs of the result are a subsequence of those of the fields.\<close>

lemma encoded_IDs_sorted:
  assumes "sorted (map mf_ID fs)" "distinct (map mf_ID fs)"
  shows "sorted_wrt (<) (map fm_FieldId (concat (map (encoded_field ms) fs)))"
  using assms
proof (induction fs)
  case (Cons mf fs)
  then have IH: "sorted_wrt (<) (map fm_FieldId (concat (map (encoded_field ms) fs)))" by simp
  have "mf_ID mf < i" if i: "i \<in> fm_FieldId ` set (concat (map (encoded_field ms) fs))" for i
  proof -
    obtain mf' fm where "mf' \<in> set fs" "fm \<in> set (encoded_field ms mf')" "i = fm_FieldId fm"
      using i by auto
    then have "i = mf_ID mf'" "mf' \<in> set fs" using encoded_field_ID by auto
    with Cons.prems show ?thesis by (auto simp: order_less_le)
  qed
  with IH show ?case using encoded_field_cases [of ms mf] by auto
qed simp

abbreviation known_names :: "TableDef \<Rightarrow> (string \<times> MatchValue) list \<Rightarrow> bool" where
  "known_names t ms \<equiv> \<forall>name\<in>fst ` set ms. TableDef_MatchField (Some t) name \<noteq> None"

abbreviation priority_ok :: "TableDef \<Rightarrow> int \<Rightarrow> bool" where
  "priority_ok t pri \<equiv> (if needsPriority t then 0 < pri else pri = 0)"

definition key_ready :: "Builder \<Rightarrow> TableDef \<Rightarrow> bool" where
  "key_ready b t \<longleftrightarrow> b_tableErr b = None \<and> b_table b = Some t \<and>
     (b_isDefault b \<or> ((\<forall>mf\<in>set (t_MatchFields t). field_ready (b_matches b) mf) \<and>
        known_names t (b_matches b) \<and> priority_ok t (b_priority b)))"

definition key_entry :: "Builder \<Rightarrow> TableDef \<Rightarrow> TableEntry" where
  "key_entry b t = \<lparr>te_TableId = t_ID t,
     te_Match = (if b_isDefault b then [] else concat (map (encoded_field (b_matches b)) (sort_key mf_ID (t_MatchFields t)))),
     te_Action = None, te_Priority = (if b_isDefault b then 0 else b_priority b),
     te_IsDefaultAction = b_isDefault b, te_IdleTimeoutNs = 0, te_Metadata = []\<rparr>"

lemma encodeMatches_Inr_iff:
  "encodeMatches t ms entry = Inr e \<longleftrightarrow>
     (\<forall>mf\<in>set (t_MatchFields t). field_ready ms mf) \<and> known_names t ms \<and>
     e = entry\<lparr>te_Match := te_Match entry @ concat (map (encoded_field ms) (sort_key mf_ID (t_MatchFields t)))\<rparr>"
proof -
  have "find (\<lambda>(name, _). TableDef_MatchField (Some t) name = None) ms = None \<longleftrightarrow> known_names t ms"
    by (auto simp: find_None_iff)
  then show ?thesis
    by (cases "find (\<lambda>(name, _). TableDef_MatchField (Some t) name = None) ms")
      (auto simp: encodeMatches_def bindE_Inr_iff encodeFields_Inr_iff)
qed

text \<open>\<open>BuildKey\<close> on every branch: when it succeeds, and with which entry.\<close>

lemma BuildKey_Inr_iff: "BuildKey b = Inr e \<longleftrightarrow> (\<exists>t. key_ready b t \<and> e = key_entry b t)"
proof (cases "b_tableErr b")
  case None
  then show ?thesis
    by (auto simp: BuildKey_def key_ready_def key_entry_def Let_def bindE_Inr_iff encodeMatches_Inr_iff
        split: option.splits if_splits)
qed (simp add: BuildKey_def key_ready_def)

subsection \<open>The action of an entry\<close>

definition action_allowed :: "Builder \<Rightarrow> TableDef \<Rightarrow> bool" where
  "action_allowed b t \<longleftrightarrow> tbl_implementation_id (t_raw t) = 0 \<and>
     (if b_isDefault b then tbl_const_default_action_id (t_raw t) = 0 else \<not> t_Const t)"

definition scope_ok :: "bool \<Rightarrow> ActionRef \<Rightarrow> bool" where
  "scope_ok isDefault ref \<longleftrightarrow> ar_Scope ref = ActionRef_TABLE_AND_DEFAULT \<or>
     (ar_Scope ref = ActionRef_TABLE_ONLY \<and> \<not> isDefault) \<or> (ar_Scope ref = ActionRef_DEFAULT_ONLY \<and> isDefault)"

lemma checkScope_iff: "checkScope t n d ref = Inr u \<longleftrightarrow> scope_ok d ref"
  by (auto simp: checkScope_def scope_ok_def)

text \<open>The parameters of the encoded action: those declared, in order, each the canonical form of
  the value supplied under its name; and no other name supplied.\<close>

definition params_encode :: "actionSpec \<Rightarrow> ActionDef \<Rightarrow> Action_Param list \<Rightarrow> bool" where
  "params_encode spec act ps \<longleftrightarrow>
     list_all2 (\<lambda>pdef p. \<exists>v. map_of (as_params spec) (ap_Name pdef) = Some v \<and>
        param_ParamId p = ap_ID pdef \<and> EncodeBytes v (ap_Bitwidth pdef) = Inr (param_Value p)) (a_Params act) ps \<and>
     (\<forall>name\<in>fst ` set (as_params spec). ActionDef_Param (Some act) name \<noteq> None)"

lemma encodeParam_Inr_iff:
  "encodeParam spec pdef = Inr p \<longleftrightarrow>
     (\<exists>v. map_of (as_params spec) (ap_Name pdef) = Some v \<and> param_ParamId p = ap_ID pdef \<and>
          EncodeBytes v (ap_Bitwidth pdef) = Inr (param_Value p))"
  by (cases p) (auto simp: encodeParam_def bindE_Inr_iff split: option.splits)

lemma case_found_Inr:
  "(case fnd of None \<Rightarrow> Inr x | Some (k, v) \<Rightarrow> Inl (h k v)) = Inr y \<longleftrightarrow> fnd = None \<and> x = y"
  by (auto split: option.splits)

text \<open>What an encoded action promises: the named action of the pipeline, allowed on the table in
  the role of the entry, with exactly its declared parameters.\<close>

definition action_encodes :: "Builder \<Rightarrow> TableDef \<Rightarrow> actionSpec \<Rightarrow> Action_wire \<Rightarrow> bool" where
  "action_encodes b t spec a \<longleftrightarrow>
     (\<exists>p act ref. b_pipeline b = Some p \<and> action_allowed b t \<and>
        Pipeline_Action (Some p) (as_name spec) = Some act \<and>
        find (\<lambda>c. ar_ID c = a_ID act) (t_ActionRefs t) = Some ref \<and> scope_ok (b_isDefault b) ref \<and>
        params_encode spec act (aw_Params a) \<and> aw_ActionId a = a_ID act)"

lemma encodeAction_Inr_iff: "encodeAction t spec b = Inr a \<longleftrightarrow> action_encodes b t spec a"
proof -
  have f: "find (\<lambda>(name, _). ActionDef_Param (Some act) name = None) (as_params spec) = None \<longleftrightarrow>
      (\<forall>name\<in>fst ` set (as_params spec). ActionDef_Param (Some act) name \<noteq> None)" for act
    by (auto simp: find_None_iff)
  show ?thesis
    by (cases a)
      (auto simp: encodeAction_def action_encodes_def action_allowed_def bindE_Inr_iff checkScope_iff case_found_Inr f params_encode_def
        mapE_Inr_iff encodeParam_Inr_iff split: option.splits if_splits)
qed

definition timeout_ok :: "Builder \<Rightarrow> TableDef \<Rightarrow> bool" where
  "timeout_ok b t \<longleftrightarrow> b_timeout b = 0 \<or>
     (0 < b_timeout b \<and> \<not> b_isDefault b \<and> tbl_idle_timeout_behavior (t_raw t) = Table_NOTIFY_CONTROL)"

lemma validateIdleTimeout_iff: "validateIdleTimeout t b = Inr u \<longleftrightarrow> timeout_ok b t"
  by (auto simp: validateIdleTimeout_def timeout_ok_def)

lemma Build_Inr_iff:
  "Build b = Inr e \<longleftrightarrow>
     (\<exists>t spec a. key_ready b t \<and> timeout_ok b t \<and> b_action b = Some spec \<and> encodeAction t spec b = Inr a \<and>
        e = (key_entry b t)\<lparr>te_IdleTimeoutNs := b_timeout b, te_Metadata := b_metadata b, te_Action := Some a\<rparr>)"
proof (cases "\<exists>t. key_ready b t")
  case True
  then obtain t where t: "key_ready b t" by blast
  then have k: "BuildKey b = Inr (key_entry b t)" "b_table b = Some t" "\<And>t'. key_ready b t' \<longleftrightarrow> t' = t"
    by (auto simp: BuildKey_Inr_iff key_ready_def)
  show ?thesis
    by (cases "b_action b"; cases "b_metadata b = []")
      (auto simp: Build_def k Let_def bindE_Inr_iff validateIdleTimeout_iff key_entry_def)
next
  case False
  then have "\<nexists>e. BuildKey b = Inr e" by (simp add: BuildKey_Inr_iff)
  with False show ?thesis by (simp add: Build_def bindE_Inr_iff)
qed

text \<open>The matches of the key accept what the builder's match values accept.\<close>

lemma encoded_field_meaning:
  assumes "mf_Bitwidth mf \<le> int32_max" "field_ready ms mf" "x < 2 ^ nat (mf_Bitwidth mf)"
  shows "(\<forall>fm\<in>set (encoded_field ms mf). wire_accepts (mf_Bitwidth mf) (fm_type fm) x) \<longleftrightarrow>
      (\<forall>mv. map_of ms (mf_Name mf) = Some mv \<longrightarrow> accepts (mf_Bitwidth mf) mv x)"
proof (cases "map_of ms (mf_Name mf)")
  case (Some mv)
  then obtain fmo where 1: "encodeField mf mv = Inr fmo" using assms(2) by (auto simp: field_ready_def isOk_iff)
  then have "field_encodes mf mv fmo" using encodeField_sound assms(1) by blast
  then show ?thesis using Some 1 assms(3)
    by (cases fmo) (auto simp: encoded_field_def field_encodes_def)
qed (simp add: encoded_field_def)

lemma key_entry_meaning:
  fixes key :: "MatchFieldDef \<Rightarrow> nat"
  assumes "\<not> b_isDefault b" "distinct (map mf_ID (t_MatchFields t))"
    and ok: "\<And>mf. mf \<in> set (t_MatchFields t) \<Longrightarrow> mf_Bitwidth mf \<le> int32_max \<and> field_ready (b_matches b) mf \<and>
      key mf < 2 ^ nat (mf_Bitwidth mf)"
  shows "(\<forall>mf\<in>set (t_MatchFields t). \<forall>fm\<in>set (te_Match (key_entry b t)). fm_FieldId fm = mf_ID mf \<longrightarrow>
      wire_accepts (mf_Bitwidth mf) (fm_type fm) (key mf)) \<longleftrightarrow>
    (\<forall>mf\<in>set (t_MatchFields t). \<forall>mv. map_of (b_matches b) (mf_Name mf) = Some mv \<longrightarrow>
      accepts (mf_Bitwidth mf) mv (key mf))"
proof -
  have mem: "fm \<in> set (te_Match (key_entry b t)) \<and> fm_FieldId fm = mf_ID mf \<longleftrightarrow>
      fm \<in> set (encoded_field (b_matches b) mf)"
    if mf: "mf \<in> set (t_MatchFields t)" for fm mf
  proof -
    have "mf' = mf" if "mf' \<in> set (t_MatchFields t)" "mf_ID mf' = mf_ID mf" for mf'
      using that mf assms(2) by (simp add: distinct_map inj_on_def)
    then show ?thesis using mf encoded_field_ID assms(1) by (fastforce simp: key_entry_def)
  qed
  have "(\<forall>fm\<in>set (te_Match (key_entry b t)). fm_FieldId fm = mf_ID mf \<longrightarrow>
        wire_accepts (mf_Bitwidth mf) (fm_type fm) (key mf)) \<longleftrightarrow>
      (\<forall>mv. map_of (b_matches b) (mf_Name mf) = Some mv \<longrightarrow> accepts (mf_Bitwidth mf) mv (key mf))"
    if "mf \<in> set (t_MatchFields t)" for mf
    using mem [OF that] encoded_field_meaning [of mf "b_matches b" "key mf"] ok [OF that] by blast
  then show ?thesis by blast
qed

subsection \<open>Properties\<close>

text \<open>C3. Encoding one match field preserves its meaning. When \<open>encodeField\<close> succeeds on a field of
  width \<open>w\<close>, an omitted match (don't-care) means that the match value accepts every \<open>w\<close>-bit value;
  a match put on the wire carries the field's ID, has the kind the field declares and the canonical
  form the P4Runtime specification requires, and accepts exactly the \<open>w\<close>-bit values that the
  match value accepts. It succeeds exactly on the values of the declared kind that fit.\<close>

theorem encodeField_preserves_meaning:
  assumes "mf_Bitwidth mf \<le> int32_max"
  shows "(isOk (encodeField mf mv) \<longleftrightarrow> encodable mf mv) \<and>
         (\<forall>fmo. encodeField mf mv = Inr fmo \<longrightarrow> field_encodes mf mv fmo)"
  using assms by (simp add: encodeField_ok_iff encodeField_sound)

abbreviation sample_field :: MatchFieldDef where
  "sample_field \<equiv> \<lparr>mf_ID = 2, mf_Name = ''port'', mf_Bitwidth = 9, mf_MatchType = MatchField_RANGE, mf_OtherMatchType = ''''\<rparr>"

theorem encodeField_preserves_meaning_witness:
  "encodeField sample_field (RangeMatch [0] [0, 1, 0xff]) = Inr None \<and>
   accepts 9 (RangeMatch [0] [0, 1, 0xff]) 300"
proof -
  have none: "encodeField sample_field (RangeMatch [0] [0, 1, 0xff]) = Inr None" by code_simp
  then have "field_encodes sample_field (RangeMatch [0] [0, 1, 0xff]) None"
    using encodeField_preserves_meaning [of sample_field "RangeMatch [0] [0, 1, 0xff]"] by simp
  with none show ?thesis by (simp add: field_encodes_def)
qed

text \<open>C7. \<open>BuildKey\<close> for an ordinary entry: it succeeds exactly when the table is known, every EXACT
  field is given, every given value encodes on its field, no unknown field is named, and the
  priority is positive if the table has a TERNARY, RANGE or OPTIONAL field and zero otherwise. The
  matches of the entry then have strictly increasing field IDs, and a packet key satisfies them all
  if and only if it satisfies every constraint given to the builder.\<close>

theorem BuildKey_correct:
  assumes "b_tableErr b = None" "b_table b = Some t" "\<not> b_isDefault b" "table_wf t"
    and "distinct (map mf_ID (t_MatchFields t))" "\<forall>mf\<in>set (t_MatchFields t). mf_Bitwidth mf \<le> int32_max"
  shows "(isOk (BuildKey b) \<longleftrightarrow>
            (\<forall>mf\<in>set (t_MatchFields t). case map_of (b_matches b) (mf_Name mf) of
                None \<Rightarrow> mf_MatchType mf \<noteq> MatchField_EXACT | Some mv \<Rightarrow> encodable mf mv) \<and>
            fst ` set (b_matches b) \<subseteq> mf_Name ` set (t_MatchFields t) \<and>
            priority_ok t (b_priority b)) \<and>
         (\<forall>e. BuildKey b = Inr e \<longrightarrow>
            te_TableId e = t_ID t \<and> te_Priority e = b_priority b \<and>
            sorted_wrt (<) (map fm_FieldId (te_Match e)) \<and>
            (\<forall>key. (\<forall>mf\<in>set (t_MatchFields t). key mf < 2 ^ nat (mf_Bitwidth mf)) \<longrightarrow>
               ((\<forall>mf\<in>set (t_MatchFields t). \<forall>fm\<in>set (te_Match e). fm_FieldId fm = mf_ID mf \<longrightarrow>
                   wire_accepts (mf_Bitwidth mf) (fm_type fm) (key mf)) \<longleftrightarrow>
                (\<forall>mf\<in>set (t_MatchFields t). \<forall>mv. map_of (b_matches b) (mf_Name mf) = Some mv \<longrightarrow>
                   accepts (mf_Bitwidth mf) mv (key mf)))))"
proof (intro conjI allI impI)
  have names: "known_names t (b_matches b) \<longleftrightarrow> fst ` set (b_matches b) \<subseteq> mf_Name ` set (t_MatchFields t)"
    using assms(4) by (auto simp: TableDef_MatchField_def table_wf_def index_by_None_iff)
  have ready: "field_ready ms mf \<longleftrightarrow> (case map_of ms (mf_Name mf) of
      None \<Rightarrow> mf_MatchType mf \<noteq> MatchField_EXACT | Some mv \<Rightarrow> encodable mf mv)"
    if "mf \<in> set (t_MatchFields t)" for mf ms
    using that assms(6) by (simp add: field_ready_def encodeField_ok_iff split: option.splits)
  have kr: "key_ready b t' \<longleftrightarrow> t' = t \<and> (\<forall>mf\<in>set (t_MatchFields t). field_ready (b_matches b) mf) \<and>
      known_names t (b_matches b) \<and> priority_ok t (b_priority b)" for t'
    using assms(1-3) by (auto simp: key_ready_def)
  show "isOk (BuildKey b) \<longleftrightarrow> (\<forall>mf\<in>set (t_MatchFields t). case map_of (b_matches b) (mf_Name mf) of
      None \<Rightarrow> mf_MatchType mf \<noteq> MatchField_EXACT | Some mv \<Rightarrow> encodable mf mv) \<and>
      fst ` set (b_matches b) \<subseteq> mf_Name ` set (t_MatchFields t) \<and> priority_ok t (b_priority b)"
    using ready unfolding isOk_iff BuildKey_Inr_iff kr names by simp
next
  fix e assume "BuildKey b = Inr e"
  then have e: "e = key_entry b t" and fr: "\<forall>mf\<in>set (t_MatchFields t). field_ready (b_matches b) mf"
    using assms(2,3) by (auto simp: BuildKey_Inr_iff key_ready_def)
  show "te_TableId e = t_ID t" "te_Priority e = b_priority b"
    using assms(3) by (simp_all add: e key_entry_def)
  show "sorted_wrt (<) (map fm_FieldId (te_Match e))"
    using encoded_IDs_sorted [of "sort_key mf_ID (t_MatchFields t)" "b_matches b"] assms(3,5)
    by (simp add: e key_entry_def distinct_map)
  fix key :: "MatchFieldDef \<Rightarrow> nat" assume fits: "\<forall>mf\<in>set (t_MatchFields t). key mf < 2 ^ nat (mf_Bitwidth mf)"
  show "(\<forall>mf\<in>set (t_MatchFields t). \<forall>fm\<in>set (te_Match e). fm_FieldId fm = mf_ID mf \<longrightarrow>
      wire_accepts (mf_Bitwidth mf) (fm_type fm) (key mf)) \<longleftrightarrow>
    (\<forall>mf\<in>set (t_MatchFields t). \<forall>mv. map_of (b_matches b) (mf_Name mf) = Some mv \<longrightarrow>
      accepts (mf_Bitwidth mf) mv (key mf))"
    unfolding e by (rule key_entry_meaning) (use assms fr fits in auto)
qed

text \<open>A builder on the sample table: match the low bit of the port, in priority order 10.\<close>

abbreviation sample_builder :: Builder where
  "sample_builder \<equiv> Builder_Priority 10 (Builder_Match ''port'' (Ternary [0xff] [1])
     (NewBuilder (Some (built sample_info [])) ''ipv4''))"

abbreviation sample_table :: TableDef where
  "sample_table \<equiv> newTableDef (hd (info_tables sample_info))"

lemma sample_lookup: "Pipeline_Table (Some (built sample_info [])) ''ipv4'' = Some sample_table"
  unfolding table.lookup_built
  by (simp add: sample_info_def has_key_def newTableDef_def Let_def)

theorem BuildKey_correct_witness:
  "isOk (BuildKey sample_builder) \<and> \<not> isOk (BuildKey (Builder_Priority 0 sample_builder))"
proof -
  have b: "b_tableErr sample_builder = None" "b_table sample_builder = Some sample_table"
      "\<not> b_isDefault sample_builder" "b_matches sample_builder = [(''port'', TernaryMatch [0xff] [1])]"
      "b_priority sample_builder = 10"
    by (simp_all add: Builder_Priority_def Builder_Match_def NewBuilder_def sample_lookup Ternary_def Let_def)
  have f: "t_MatchFields sample_table =
      [\<lparr>mf_ID = 2, mf_Name = ''port'', mf_Bitwidth = 9, mf_MatchType = MatchField_TERNARY, mf_OtherMatchType = ''''\<rparr>,
       \<lparr>mf_ID = 1, mf_Name = ''dst'', mf_Bitwidth = 32, mf_MatchType = MatchField_LPM, mf_OtherMatchType = ''''\<rparr>]"
    by (simp add: newTableDef_def sample_info_def Let_def)
  have "isOk (BuildKey sample_builder)"
    using BuildKey_correct [of sample_builder sample_table] new_wf(1) b
    by (simp add: f needsPriority_def be_nat_def)
  moreover have "\<not> isOk (BuildKey (Builder_Priority 0 sample_builder))"
    using BuildKey_correct [of "Builder_Priority 0 sample_builder" sample_table] new_wf(1) b
    by (simp add: f needsPriority_def Builder_Priority_def)
  ultimately show ?thesis ..
qed

text \<open>C13. \<open>Build\<close> on every branch: it returns an entry exactly when the key can be built, the idle
  timeout is zero or a positive one on an ordinary entry of a table that supports it, and the
  action is given, allowed on the table in this role (direct, not constant, right scope) and called
  with exactly its declared parameters, each fitting its width. The entry is the key plus the
  timeout, the metadata and that action; its parameters are canonical and in declaration order.\<close>

theorem Build_correct:
  "Build b = Inr e \<longleftrightarrow>
     (\<exists>t spec a. BuildKey b = Inr (key_entry b t) \<and> b_table b = Some t \<and> timeout_ok b t \<and>
        b_action b = Some spec \<and> action_encodes b t spec a \<and>
        e = (key_entry b t)\<lparr>te_IdleTimeoutNs := b_timeout b, te_Metadata := b_metadata b, te_Action := Some a\<rparr>)"
proof -
  have "key_ready b t \<longleftrightarrow> BuildKey b = Inr (key_entry b t) \<and> b_table b = Some t" for t
    by (auto simp: BuildKey_Inr_iff key_ready_def)
  then show ?thesis by (simp add: Build_Inr_iff encodeAction_Inr_iff)
qed

end
