(* ===== verification/Election_ID.thy ===== *)
theory Election_ID
  imports Codec
begin

text \<open>
  The election ID (src/client/electionid.go): an unsigned 128-bit integer in two 64-bit words.
  Its comparison and its increment are refined to arithmetic on the 128-bit value, and the type
  is an instance of \<open>linorder\<close> with the code's \<open>Less\<close> as its order.
\<close>

unbundle bit_operations_syntax

subsection \<open>Operations\<close>

datatype ElectionID = ElectionID (High: uint64) (Low: uint64)

definition IsZero :: "ElectionID \<Rightarrow> bool" where
  "IsZero e = (High e = 0 \<and> Low e = 0)"

definition Equal :: "ElectionID \<Rightarrow> ElectionID \<Rightarrow> bool" where
  "Equal e other = (High e = High other \<and> Low e = Low other)"

definition Less :: "ElectionID \<Rightarrow> ElectionID \<Rightarrow> bool" where
  "Less e other = (if High e \<noteq> High other then High e < High other else Low e < Low other)"

definition Cmp :: "ElectionID \<Rightarrow> ElectionID \<Rightarrow> int" where
  "Cmp e other = (if Less e other then - 1 else if Equal e other then 0 else 1)"

definition Increment :: "ElectionID \<Rightarrow> ElectionID \<times> bool" where
  "Increment e =
     (if Low e = NOT 0 then
        (if High e = NOT 0 then (e, False) else (ElectionID (High e + 1) 0, True))
      else (ElectionID (High e) (Low e + 1), True))"

text \<open>\<^verbatim>\<open>math/big\<close> integers are unbounded: shift by 64, then bitwise or.\<close>

definition BigInt :: "ElectionID \<Rightarrow> int" where
  "BigInt e = push_bit 64 (uint (High e)) OR uint (Low e)"

subsection \<open>The 128-bit value\<close>

lemma uint64_bounds: "0 \<le> uint (x :: uint64)" "uint x < 2 ^ 64"
  using uint_ge_0 [of x] uint_lt2p [of x] by simp_all

lemma BigInt_value: "BigInt e = uint (High e) * 2 ^ 64 + uint (Low e)"
proof -
  have "push_bit 64 (uint (High e)) OR uint (Low e) = push_bit 64 (uint (High e)) + uint (Low e)"
    by (rule disjunctive_add [symmetric]) (auto simp: bit_simps dest: bit_imp_le_length)
  then show ?thesis by (simp add: BigInt_def push_bit_eq_mult)
qed

lemma BigInt_range: "0 \<le> BigInt e \<and> BigInt e < 2 ^ 128"
  using uint64_bounds [of "High e"] uint64_bounds [of "Low e"] by (simp add: BigInt_value)

text \<open>Two-digit numbers in base \<open>2 ^ 64\<close> compare digit by digit.\<close>

lemma two_digits_less:
  fixes a b c d :: int
  assumes "0 \<le> b" "b < B" "0 \<le> d" "d < B" "a < c"
  shows "a * B + b < c * B + d"
proof -
  have "(a + 1) * B \<le> c * B" using assms by (intro mult_right_mono) simp_all
  then show ?thesis using assms by (simp add: algebra_simps)
qed

lemma two_digits:
  fixes a b c d :: int
  assumes "0 \<le> b" "b < B" "0 \<le> d" "d < B"
  shows "a * B + b = c * B + d \<longleftrightarrow> a = c \<and> b = d"
    and "a * B + b < c * B + d \<longleftrightarrow> a < c \<or> (a = c \<and> b < d)"
  using two_digits_less [of b B d a c] two_digits_less [of d B b c a] assms
  by (cases a c rule: linorder_cases; force)+

lemma BigInt_cmp:
  "BigInt e = BigInt f \<longleftrightarrow> uint (High e) = uint (High f) \<and> uint (Low e) = uint (Low f)"
  "BigInt e < BigInt f \<longleftrightarrow> uint (High e) < uint (High f) \<or>
     (uint (High e) = uint (High f) \<and> uint (Low e) < uint (Low f))"
proof -
  have b: "0 \<le> uint (Low g)" "uint (Low g) < 18446744073709551616" for g
    using uint64_bounds [of "Low g"] by simp_all
  show "BigInt e = BigInt f \<longleftrightarrow> uint (High e) = uint (High f) \<and> uint (Low e) = uint (Low f)"
    using two_digits(1) [OF b b, of "uint (High e)" e "uint (High f)" f] by (simp add: BigInt_value)
  show "BigInt e < BigInt f \<longleftrightarrow> uint (High e) < uint (High f) \<or>
     (uint (High e) = uint (High f) \<and> uint (Low e) < uint (Low f))"
    using two_digits(2) [OF b b, of "uint (High e)" e "uint (High f)" f] by (simp add: BigInt_value)
qed

lemma BigInt_inject: "BigInt e = BigInt f \<longleftrightarrow> e = f"
  by (cases e; cases f) (simp add: BigInt_cmp word_uint_eq_iff)

lemma Less_iff: "Less e f \<longleftrightarrow> BigInt e < BigInt f"
  by (auto simp: Less_def BigInt_cmp word_less_alt word_uint_eq_iff)

lemma Equal_iff: "Equal e f \<longleftrightarrow> e = f"
  by (cases e; cases f) (simp add: Equal_def)

instantiation ElectionID :: linorder
begin

definition less_ElectionID :: "ElectionID \<Rightarrow> ElectionID \<Rightarrow> bool" where
  "less_ElectionID e f = Less e f"

definition less_eq_ElectionID :: "ElectionID \<Rightarrow> ElectionID \<Rightarrow> bool" where
  "less_eq_ElectionID e f = (Less e f \<or> Equal e f)"

instance
  by standard (auto simp: less_ElectionID_def less_eq_ElectionID_def Less_iff Equal_iff BigInt_inject
      simp flip: BigInt_inject)

end

lemma IsZero_iff: "IsZero e \<longleftrightarrow> BigInt e = 0"
proof -
  have "BigInt (ElectionID 0 0) = 0" by (simp add: BigInt_value)
  then have "BigInt e = 0 \<longleftrightarrow> e = ElectionID 0 0" using BigInt_inject by metis
  then show ?thesis by (cases e) (simp add: IsZero_def)
qed

lemma uint_not_0: "uint (NOT 0 :: uint64) = 2 ^ 64 - 1"
  by (simp only: bit.compl_zero unsigned_minus_1_eq_mask) (simp add: mask_eq_exp_minus_1)

lemma uint_succ64: "x \<noteq> NOT 0 \<Longrightarrow> uint (x + 1 :: uint64) = uint x + 1"
proof -
  assume "x \<noteq> NOT 0"
  then have "uint x \<noteq> 2 ^ 64 - 1" by (metis uint_not_0 word_uint_eq_iff)
  then have "uint x + 1 < 2 ^ 64" using uint64_bounds [of x] by linarith
  then show ?thesis using uint64_bounds [of x]
    by (simp add: uint_word_ariths)
qed

subsection \<open>Properties\<close>

text \<open>C25. The election ID operations implement unsigned 128-bit arithmetic: \<open>Less\<close>, \<open>Equal\<close> and the
  sign of \<open>Cmp\<close> agree with the order of the 128-bit values, and the reserved zero ID is below
  every other one.\<close>

theorem ElectionID_order_refines:
  "(Less e f \<longleftrightarrow> BigInt e < BigInt f) \<and> (Equal e f \<longleftrightarrow> BigInt e = BigInt f) \<and>
   Cmp e f = sgn (BigInt e - BigInt f) \<and> (IsZero e \<and> \<not> IsZero f \<longrightarrow> Less e f)"
  using BigInt_range [of f]
  by (auto simp: Cmp_def Less_iff Equal_iff IsZero_iff sgn_if BigInt_inject simp flip: BigInt_inject)

theorem ElectionID_order_refines_witness:
  "Less (ElectionID 0 0) (ElectionID 0 1)"
  using ElectionID_order_refines [of "ElectionID 0 0" "ElectionID 0 1"] by (auto simp: IsZero_def)

text \<open>\<open>Increment\<close> adds one to the 128-bit value with the carry into the high word, and fails,
  leaving the ID unchanged, exactly at the largest value; a successful increment is never zero.\<close>

theorem Increment_correct:
  "case Increment e of
     (f, ok) \<Rightarrow> (ok \<longleftrightarrow> BigInt e \<noteq> 2 ^ 128 - 1) \<and>
                BigInt f = (if ok then BigInt e + 1 else BigInt e) \<and> (ok \<longrightarrow> \<not> IsZero f)"
proof -
  have max: "Low e = NOT 0 \<and> High e = NOT 0 \<longleftrightarrow> BigInt e = 2 ^ 128 - 1"
  proof -
    have "BigInt (ElectionID (NOT 0) (NOT 0)) = 2 ^ 128 - 1"
      by (simp add: BigInt_value uint_not_0 del: bit.compl_zero)
    then have "BigInt e = 2 ^ 128 - 1 \<longleftrightarrow> e = ElectionID (NOT 0) (NOT 0)"
      using BigInt_inject by metis
    then show ?thesis by (cases e) auto
  qed
  have "BigInt (ElectionID (High e + 1) 0) = BigInt e + 1" if "Low e = NOT 0" "High e \<noteq> NOT 0"
    using that uint_succ64 [of "High e"] uint_not_0 by (simp add: BigInt_value)
  moreover have "BigInt (ElectionID (High e) (Low e + 1)) = BigInt e + 1" if "Low e \<noteq> NOT 0"
    using that uint_succ64 [of "Low e"] by (simp add: BigInt_value)
  ultimately show ?thesis using max BigInt_range [of e]
    by (auto simp: Increment_def IsZero_iff)
qed

theorem Increment_correct_witness:
  "Increment (ElectionID 4 (NOT 0)) = (ElectionID 5 0, True) \<and> \<not> IsZero (ElectionID 5 0)"
proof -
  have "Increment (ElectionID 4 (NOT 0)) = (ElectionID 5 0, True)" by code_simp
  then show ?thesis using Increment_correct [of "ElectionID 4 (NOT 0)"] by simp
qed

end
