(* ===== verification/P4_Messages.thy ===== *)
theory P4_Messages
  imports Table_Entry Election_ID
begin

text \<open>
  The P4Runtime messages (package \<^verbatim>\<open>p4v1\<close>, generated by protoc) that the client exchanges with
  a target, with the fields the sources read or set. A nil message is \<open>None\<close> where the program
  tests for one.
\<close>

subsection \<open>Data of registers\<close>

record P4Varbit =
  vb_Bitstring :: bytes
  vb_Bitwidth :: int
  vb_unknown :: bytes

record P4Header =
  hd_IsValid :: bool
  hd_Bitstrings :: "bytes list"
  hd_unknown :: bytes

record P4HeaderUnion =
  hu_ValidHeaderName :: string
  hu_ValidHeader :: "P4Header option"
  hu_unknown :: bytes

record P4HeaderStack =
  hs_Entries :: "P4Header option list"
  hs_unknown :: bytes

record P4HeaderUnionStack =
  hus_Entries :: "P4HeaderUnion option list"
  hus_unknown :: bytes

text \<open>\<open>P4Data\<close>: the oneof (\<open>None\<close> when missing or a typed nil) and the unknown fields.\<close>

datatype P4Data = P4Data (data_oneof: "P4DataValue option") (data_unknown: bytes)
and P4DataValue =
    D_Bitstring bytes
  | D_Varbit "P4Varbit option"
  | D_Bool bool
  | D_Tuple "P4StructLike option"
  | D_Struct "P4StructLike option"
  | D_Header "P4Header option"
  | D_HeaderUnion "P4HeaderUnion option"
  | D_HeaderStack "P4HeaderStack option"
  | D_HeaderUnionStack "P4HeaderUnionStack option"
  | D_Enum string
  | D_Error string
  | D_EnumValue bytes
and P4StructLike = P4StructLike (sl_Members: "P4Data option list") (sl_unknown: bytes)

subsection \<open>Entities\<close>

record CounterEntry =
  ce_CounterId :: uint32
  ce_Index :: "int option"
  ce_Data :: "(int \<times> int) option"

record MeterConfig =
  mc_Cir :: int
  mc_Cburst :: int
  mc_Pir :: int
  mc_Pburst :: int
  mc_Eburst :: int

record MeterEntry =
  me_MeterId :: uint32
  me_Index :: "int option"
  me_Config :: "MeterConfig option"

record RegisterEntry =
  re_RegisterId :: uint32
  re_Index :: "int option"
  re_Data :: "P4Data option"

datatype PortKind = PK_EgressPort "uint32 option" | PK_Port "bytes option"

record BackupReplica_msg =
  brm_Port :: bytes
  brm_Instance :: uint32

record Replica_msg =
  rm_PortKind :: "PortKind option"
  rm_Instance :: uint32
  rm_BackupReplicas :: "BackupReplica_msg option list"

record MulticastGroupEntry =
  mge_MulticastGroupId :: uint32
  mge_Replicas :: "Replica_msg option list"
  mge_Metadata :: bytes

record CloneSessionEntry =
  cse_SessionId :: uint32
  cse_Replicas :: "Replica_msg option list"
  cse_ClassOfService :: uint32
  cse_PacketLengthBytes :: int

record DigestEntry =
  de_DigestId :: uint32
  de_Config :: "(int \<times> int \<times> int) option"

text \<open>An entity of another kind, or a nil one, is \<open>E_Other\<close>.\<close>

datatype Entity =
    E_TableEntry "TableEntry option"
  | E_CounterEntry "CounterEntry option"
  | E_MeterEntry "MeterEntry option"
  | E_RegisterEntry "RegisterEntry option"
  | E_MulticastGroupEntry "MulticastGroupEntry option"
  | E_CloneSessionEntry "CloneSessionEntry option"
  | E_DigestEntry "DigestEntry option"
  | E_Other

fun GetTableEntry :: "Entity \<Rightarrow> TableEntry option" where
  "GetTableEntry (E_TableEntry t) = t" | "GetTableEntry _ = None"
fun GetCounterEntry :: "Entity \<Rightarrow> CounterEntry option" where
  "GetCounterEntry (E_CounterEntry t) = t" | "GetCounterEntry _ = None"
fun GetMeterEntry :: "Entity \<Rightarrow> MeterEntry option" where
  "GetMeterEntry (E_MeterEntry t) = t" | "GetMeterEntry _ = None"
fun GetRegisterEntry :: "Entity \<Rightarrow> RegisterEntry option" where
  "GetRegisterEntry (E_RegisterEntry t) = t" | "GetRegisterEntry _ = None"
fun GetMulticastGroupEntry :: "Entity \<Rightarrow> MulticastGroupEntry option" where
  "GetMulticastGroupEntry (E_MulticastGroupEntry t) = t" | "GetMulticastGroupEntry _ = None"
fun GetCloneSessionEntry :: "Entity \<Rightarrow> CloneSessionEntry option" where
  "GetCloneSessionEntry (E_CloneSessionEntry t) = t" | "GetCloneSessionEntry _ = None"

subsection \<open>Requests\<close>

abbreviation (input) UpdateInsert :: int where "UpdateInsert \<equiv> 1"
abbreviation (input) UpdateModify :: int where "UpdateModify \<equiv> 2"
abbreviation (input) UpdateDelete :: int where "UpdateDelete \<equiv> 3"

record Update =
  up_Type :: int
  up_Entity :: Entity

record WriteRequest =
  wr_DeviceId :: uint64
  wr_ElectionId :: ElectionID
  wr_Role :: string
  wr_Updates :: "Update list"
  wr_Atomicity :: int

record ReadRequest =
  rr_DeviceId :: uint64
  rr_Role :: string
  rr_Entities :: "Entity list"

record ForwardingPipelineConfig =
  fpc_P4Info :: "P4Info_msg option"
  fpc_P4DeviceConfig :: "bytes option"

record SetPipelineRequest =
  sp_DeviceId :: uint64
  sp_ElectionId :: ElectionID
  sp_Role :: string
  sp_Action :: int
  sp_Config :: "ForwardingPipelineConfig option"

record GetPipelineRequest =
  gp_DeviceId :: uint64
  gp_ResponseType :: int

end
