(* ===== verification/Client_RPC.thy ===== *)
theory Client_RPC
  imports P4_Messages
begin

text \<open>
  The unary and streaming RPCs of the client (src/client/write.go, src/client/pipeline.go).

  The target is a parameter: each RPC is a function from the target's state and the request to
  its next state and its answer, so a theorem can say that a call sent nothing (the target's
  state is unchanged for every target) or exactly one request. \<open>fromError\<close> (\<open>fe\<close>) is
  \<^verbatim>\<open>status.FromError\<close>, \<open>unmarshal\<close> is \<^verbatim>\<open>Any.UnmarshalTo\<close> for a \<^verbatim>\<open>p4.v1.Error\<close>. An error result is
  \<open>goerr option\<close>, with \<open>None\<close> for nil. Contexts and deadlines show only as errors returned by the
  RPC; logging is not modelled.
\<close>

subsection \<open>The client\<close>

text \<open>What the RPCs read of the client: the options of \<open>Dial\<close> and whether the stream supervisor
  is primary at the moment of the call.\<close>

record Client =
  cl_deviceID :: uint64
  cl_electionID :: ElectionID
  cl_role :: string
  cl_primary :: bool

type_synonym 's rpc_write = "'s \<Rightarrow> WriteRequest \<Rightarrow> 's \<times> goerr option"
type_synonym from_error = "goerr \<Rightarrow> rpc_status \<times> bool"
type_synonym unmarshal_any = "any_msg \<Rightarrow> p4_error option"

subsection \<open>Write\<close>

definition TableEntryUpdate :: "int \<Rightarrow> TableEntry \<Rightarrow> Update" where
  "TableEntryUpdate kind entry = \<lparr>up_Type = kind, up_Entity = E_TableEntry (Some entry)\<rparr>"

fun collectUpdates :: "unmarshal_any \<Rightarrow> any_msg option list \<Rightarrow> p4_error list option" where
  "collectUpdates unmarshal [] = Some []"
| "collectUpdates unmarshal (detail # rest) =
     (case detail of
        None \<Rightarrow> None
      | Some a \<Rightarrow>
          (case unmarshal a of
             None \<Rightarrow> None
           | Some update \<Rightarrow>
               if canonical_code update < codes_OK \<or> canonical_code update > codes_Unauthenticated then None
               else map_option (\<lambda>us. update # us) (collectUpdates unmarshal rest)))"

definition writeUpdateResults :: "unmarshal_any \<Rightarrow> rpc_status \<Rightarrow> int \<Rightarrow> p4_error list option" where
  "writeUpdateResults unmarshal st updateCount =
     (let details = st_details st in
      if st_code st \<noteq> codes_Unknown \<or> updateCount \<le> 0 \<or> int (length details) \<noteq> updateCount then None
      else case collectUpdates unmarshal details of
        None \<Rightarrow> None
      | Some updates \<Rightarrow>
          let failed = list_ex (\<lambda>u. canonical_code u \<noteq> codes_OK) updates in
          if \<not> failed then None else Some updates)"

definition translateWriteError :: "from_error \<Rightarrow> unmarshal_any \<Rightarrow> goerr \<Rightarrow> int \<Rightarrow> goerr" where
  "translateWriteError fe unmarshal err updateCount =
     (let (st, ok) = fe err in
      if \<not> ok then err else WriteError err (writeUpdateResults unmarshal st updateCount))"

definition writeRequest :: "Client \<Rightarrow> int \<Rightarrow> Update list \<Rightarrow> WriteRequest" where
  "writeRequest c atomicity updates =
     \<lparr>wr_DeviceId = cl_deviceID c, wr_ElectionId = cl_electionID c, wr_Role = cl_role c,
      wr_Updates = updates, wr_Atomicity = atomicity\<rparr>"

definition Client_Write :: "'s rpc_write \<Rightarrow> from_error \<Rightarrow> unmarshal_any \<Rightarrow> Client \<Rightarrow> int \<Rightarrow> Update list \<Rightarrow>
    's \<Rightarrow> 's \<times> goerr option" where
  "Client_Write rpc fe unmarshal c atomicity updates s =
     (if \<not> cl_primary c then (s, Some (Sentinel ErrNotPrimary))
      else if length updates = 0 then (s, None)
      else case rpc s (writeRequest c atomicity updates) of
        (s', None) \<Rightarrow> (s', None)
      | (s', Some err) \<Rightarrow> (s', Some (translateWriteError fe unmarshal err (int (length updates)))))"

definition WriteTableEntry :: "'s rpc_write \<Rightarrow> from_error \<Rightarrow> unmarshal_any \<Rightarrow> Client \<Rightarrow> int \<Rightarrow> TableEntry \<Rightarrow>
    's \<Rightarrow> 's \<times> goerr option" where
  "WriteTableEntry rpc fe unmarshal c kind entry s =
     Client_Write rpc fe unmarshal c 0 [TableEntryUpdate kind entry] s"

subsection \<open>Read\<close>

text \<open>
  A response stream answers the \<open>i\<close>-th \<^verbatim>\<open>Recv\<close> with entities or with an error. The receive loop
  runs until the first error; a stream that never fails gives no result.
\<close>

type_synonym recv = "nat \<Rightarrow> goerr + Entity list"
type_synonym 's rpc_read = "'s \<Rightarrow> ReadRequest \<Rightarrow> 's \<times> (goerr + recv)"

partial_function (option) recvLoop :: "recv \<Rightarrow> nat \<Rightarrow> Entity list \<Rightarrow> (goerr + Entity list) option" where
  "recvLoop recv i out =
     (case recv i of
        Inl err \<Rightarrow> Some (if errors_Is_EOF err then Inr out else Inl (Errorf ''Read recv: %w'' [AErr err]))
      | Inr es \<Rightarrow> recvLoop recv (Suc i) (out @ es))"

definition Client_Read :: "'s rpc_read \<Rightarrow> Client \<Rightarrow> Entity list \<Rightarrow> 's \<Rightarrow> 's \<times> (goerr + Entity list) option" where
  "Client_Read rpc c entities s =
     (if length entities = 0 then (s, Some (Inl (NewErr ''client.Read: no entities supplied'')))
      else case rpc s \<lparr>rr_DeviceId = cl_deviceID c, rr_Role = cl_role c, rr_Entities = entities\<rparr> of
        (s', Inl err) \<Rightarrow> (s', Some (Inl (Errorf ''Read: %w'' [AErr err])))
      | (s', Inr recv) \<Rightarrow> (s', recvLoop recv 0 []))"

definition readEntries :: "'s rpc_read \<Rightarrow> Client \<Rightarrow> Entity \<Rightarrow> 's \<Rightarrow> 's \<times> (goerr + TableEntry list) option" where
  "readEntries rpc c selector s =
     (case Client_Read rpc c [selector] s of
        (s', r) \<Rightarrow> (s', map_option (\<lambda>res. bindE res (\<lambda>ents. Inr (List.map_filter GetTableEntry ents))) r))"

definition ReadTableEntries :: "'s rpc_read \<Rightarrow> Client \<Rightarrow> uint32 \<Rightarrow> 's \<Rightarrow> 's \<times> (goerr + TableEntry list) option" where
  "ReadTableEntries rpc c tableID s =
     readEntries rpc c (E_TableEntry (Some \<lparr>te_TableId = tableID, te_Match = [], te_Action = None, te_Priority = 0,
       te_IsDefaultAction = False, te_IdleTimeoutNs = 0, te_Metadata = []\<rparr>)) s"

subsection \<open>SetPipeline\<close>

abbreviation (input) PipelineVerify :: int where "PipelineVerify \<equiv> 1"
abbreviation (input) PipelineVerifyAndSave :: int where "PipelineVerifyAndSave \<equiv> 2"
abbreviation (input) PipelineVerifyAndCommit :: int where "PipelineVerifyAndCommit \<equiv> 3"
abbreviation (input) PipelineCommit :: int where "PipelineCommit \<equiv> 4"
abbreviation (input) PipelineReconcileAndCommit :: int where "PipelineReconcileAndCommit \<equiv> 5"

record SetPipelineOptions =
  spo_Action :: int
  spo_NoFallback :: bool

record SetPipelineResult =
  spr_Action :: int
  spr_Attempted :: "int list"

type_synonym 's rpc_set = "'s \<Rightarrow> SetPipelineRequest \<Rightarrow> 's \<times> goerr option"

text \<open>\<^verbatim>\<open>p4v1.SetForwardingPipelineConfigRequest_Action_name\<close>, and \<^verbatim>\<open>%d\<close> of an \<^verbatim>\<open>int32\<close> otherwise.\<close>

definition actionName :: "int \<Rightarrow> string" where
  "actionName a =
     (case map_of [(0, ''UNSPECIFIED''), (1, ''VERIFY''), (2, ''VERIFY_AND_SAVE''), (3, ''VERIFY_AND_COMMIT''),
                   (4, ''COMMIT''), (5, ''RECONCILE_AND_COMMIT'')] a of
        Some s \<Rightarrow> s
      | None \<Rightarrow> ''unknown('' @ (if a < 0 then ''-'' else '''') @ decimal (nat \<bar>a\<bar>) @ '')'')"

text \<open>\<^verbatim>\<open>strings.NewReplacer(":", " ", "'", "", "\"", "")\<close>\<close>

definition replaceMarks :: "string \<Rightarrow> string" where
  "replaceMarks s = concat (map (\<lambda>c. if c = CHR '':'' then '' '' else if c = CHR 39 \<or> c = CHR 34 then '''' else [c]) s)"

definition isFallbackError :: "from_error \<Rightarrow> goerr \<Rightarrow> int \<Rightarrow> bool" where
  "isFallbackError fe err action =
     (let (st, ok) = fe err in
      if \<not> ok then False
      else if st_code st = codes_Unimplemented then True
      else if st_code st = codes_InvalidArgument then
        let msg = replaceMarks (ToLower (st_message st));
            msg = Trim (Join (Fields msg) '' '') '' .'';
            msg = foldl TrimSuffix msg ['' on this target'', '' on the target'', '' by this target'', '' by the target''];
            name = ToLower (actionName action)
        in list_ex (\<lambda>subject. msg = ''unsupported '' @ subject \<or> msg = subject @ '' not supported'' \<or>
                              msg = subject @ '' is not supported'' \<or> msg = subject @ '' unsupported'' \<or>
                              msg = subject @ '' is unsupported'')
             [''action'', name, ''action '' @ name, ''setforwardingpipelineconfig action'',
              ''setforwardingpipelineconfig action '' @ name]
      else False)"

definition setRequest :: "Client \<Rightarrow> ForwardingPipelineConfig option \<Rightarrow> int \<Rightarrow> SetPipelineRequest" where
  "setRequest c cfg act =
     \<lparr>sp_DeviceId = cl_deviceID c, sp_ElectionId = cl_electionID c, sp_Role = cl_role c,
      sp_Action = act, sp_Config = cfg\<rparr>"

text \<open>The loop over the actions to attempt.\<close>

fun setPipelineLoop :: "'s rpc_set \<Rightarrow> from_error \<Rightarrow> Client \<Rightarrow> ForwardingPipelineConfig option \<Rightarrow> int list \<Rightarrow>
    SetPipelineResult \<Rightarrow> goerr option \<Rightarrow> 's \<Rightarrow> 's \<times> SetPipelineResult \<times> goerr option" where
  "setPipelineLoop rpc fe c cfg [] result lastErr s = (s, result, lastErr)"
| "setPipelineLoop rpc fe c cfg (act # rest) result lastErr s =
     (let result = result\<lparr>spr_Attempted := spr_Attempted result @ [act]\<rparr> in
      case rpc s (setRequest c cfg act) of
        (s', None) \<Rightarrow> (s', result\<lparr>spr_Action := act\<rparr>, None)
      | (s', Some err) \<Rightarrow>
          let unsupported = isFallbackError fe err act;
              err = (if unsupported then Errorf ''%w: %w'' [AErr (Sentinel ErrTargetUnsupported), AErr err] else err);
              lastErr = Some (Errorf ''SetForwardingPipelineConfig(%s): %w'' [AStr (actionName act), AErr err])
          in if \<not> unsupported \<or> rest = [] then (s', result, lastErr)
             else setPipelineLoop rpc fe c cfg rest result lastErr s')"

definition SetPipeline :: "'s rpc_set \<Rightarrow> from_error \<Rightarrow> Client \<Rightarrow> Pipeline option \<Rightarrow> SetPipelineOptions \<Rightarrow>
    's \<Rightarrow> 's \<times> SetPipelineResult \<times> goerr option" where
  "SetPipeline rpc fe c p opts s =
     (let action = (if spo_Action opts = 0 then PipelineVerifyAndCommit else spo_Action opts);
          none = \<lparr>spr_Action = 0, spr_Attempted = []\<rparr>
      in if action = PipelineCommit \<and> p \<noteq> None then
           (s, none, Some (Errorf ''client.SetPipeline: COMMIT requires a nil pipeline'' []))
         else if action \<in> {PipelineVerify, PipelineVerifyAndSave, PipelineVerifyAndCommit, PipelineReconcileAndCommit} \<and> p = None then
           (s, none, Some (Errorf ''client.SetPipeline: nil pipeline'' []))
         else if action \<notin> {PipelineCommit, PipelineVerify, PipelineVerifyAndSave, PipelineVerifyAndCommit, PipelineReconcileAndCommit} then
           (s, none, Some (Errorf ''client.SetPipeline: invalid action %d'' [AInt action]))
         else if \<not> cl_primary c then (s, none, Some (Sentinel ErrNotPrimary))
         else
           let actions = [action] @ (if action = PipelineVerifyAndCommit \<and> \<not> spo_NoFallback opts then [PipelineReconcileAndCommit] else []);
               cfg = (case p of None \<Rightarrow> None
                      | Some pl \<Rightarrow> Some \<lparr>fpc_P4Info = Some (Pipeline_Info pl), fpc_P4DeviceConfig = Pipeline_DeviceConfig pl\<rparr>)
           in setPipelineLoop rpc fe c cfg actions none None s)"

subsection \<open>GetPipeline\<close>

type_synonym 's rpc_get = "'s \<Rightarrow> GetPipelineRequest \<Rightarrow> 's \<times> (goerr + ForwardingPipelineConfig option)"

definition GetPipeline :: "'s rpc_get \<Rightarrow> from_error \<Rightarrow> (P4Info_msg \<Rightarrow> message_graph \<times> addr) \<Rightarrow> Client \<Rightarrow>
    's \<Rightarrow> 's \<times> (goerr + Pipeline)" where
  "GetPipeline rpc fe reflect c s =
     (case rpc s \<lparr>gp_DeviceId = cl_deviceID c, gp_ResponseType = 0\<rparr> of
        (s', Inl err) \<Rightarrow>
          (s', Inl (case asGRPCStatus fe err of
                      Some st \<Rightarrow> GetPipelineError err st
                    | None \<Rightarrow> Errorf ''GetForwardingPipelineConfig: %w'' [AErr err]))
      | (s', Inr cfg) \<Rightarrow>
          (s', case cfg of
                 None \<Rightarrow> Inl (Sentinel ErrPipelineNotSet)
               | Some f \<Rightarrow>
                   if fpc_P4Info f = None then Inl (Sentinel ErrPipelineNotSet)
                   else Pipeline_New reflect (fpc_P4Info f)
                          (case fpc_P4DeviceConfig f of None \<Rightarrow> [] | Some b \<Rightarrow> b)))"

subsection \<open>Per-update results\<close>

text \<open>A detail that decodes to a canonical code in range.\<close>

definition good_detail :: "unmarshal_any \<Rightarrow> any_msg option \<Rightarrow> p4_error \<Rightarrow> bool" where
  "good_detail unmarshal detail u \<longleftrightarrow> (\<exists>a. detail = Some a \<and> unmarshal a = Some u) \<and>
     codes_OK \<le> canonical_code u \<and> canonical_code u \<le> codes_Unauthenticated"

lemma collectUpdates_Some_iff:
  "collectUpdates unmarshal ds = Some us \<longleftrightarrow> list_all2 (good_detail unmarshal) ds us"
proof (induction ds arbitrary: us)
  case (Cons d ds)
  show ?case
  proof (cases "\<exists>u. good_detail unmarshal d u")
    case True
    then obtain a u where a: "d = Some a" "unmarshal a = Some u" "\<not> canonical_code u < codes_OK"
        "\<not> canonical_code u > codes_Unauthenticated"
      by (auto simp: good_detail_def not_less)
    then have "good_detail unmarshal d v \<longleftrightarrow> v = u" for v by (auto simp: good_detail_def)
    then show ?thesis using Cons.IH a by (auto simp: list_all2_Cons1)
  next
    case False
    then show ?thesis
      by (auto simp: list_all2_Cons1 good_detail_def not_less split: option.splits)
  qed
qed auto

lemma writeUpdateResults_Some_iff:
  "writeUpdateResults unmarshal st n = Some us \<longleftrightarrow>
     st_code st = codes_Unknown \<and> 0 < n \<and> int (length us) = n \<and>
     list_all2 (good_detail unmarshal) (st_details st) us \<and> (\<exists>u\<in>set us. canonical_code u \<noteq> codes_OK)"
proof -
  have len: "list_all2 (good_detail unmarshal) (st_details st) us \<Longrightarrow> length (st_details st) = length us"
    by (rule list_all2_lengthD)
  show ?thesis
  proof (cases "collectUpdates unmarshal (st_details st)")
    case None
    then have "\<not> list_all2 (good_detail unmarshal) (st_details st) us"
      using collectUpdates_Some_iff [of unmarshal "st_details st" us] by simp
    with None show ?thesis by (simp add: writeUpdateResults_def Let_def)
  next
    case (Some vs)
    then have "list_all2 (good_detail unmarshal) (st_details st) us \<longleftrightarrow> us = vs"
      using collectUpdates_Some_iff [of unmarshal "st_details st" us] by auto
    with Some len show ?thesis by (auto simp: writeUpdateResults_def Let_def list_ex_iff)
  qed
qed

text \<open>The sentinels of a translated error: those of the RPC's own status, those of the failed
  updates, and those the cause already had.\<close>

lemma translateWriteError_Is:
  assumes "fe err = (st, True)"
  shows "errors_Is fe (translateWriteError fe unmarshal err n) t \<longleftrightarrow>
    writeSentinel (st_code st) (st_message st) True = Some t \<or>
    (\<exists>us. writeUpdateResults unmarshal st n = Some us \<and>
       (\<exists>u\<in>set us. writeSentinel (canonical_code u) (p4_message u) False = Some t)) \<or>
    errors_Is fe err t"
  using assms by (auto simp: translateWriteError_def WriteError_Is_iff)

subsection \<open>The contract of a guarded write\<close>

text \<open>
  Every typed write of the SDK (counters, meters, registers, replication groups) validates its
  arguments into one update and hands it to \<open>Client_Write\<close>. The locale states that shape; its
  lemmas say what the target sees.
\<close>

locale guarded_write =
  fixes prepare :: "'a \<Rightarrow> goerr + Update"
    and op :: "'s rpc_write \<Rightarrow> from_error \<Rightarrow> unmarshal_any \<Rightarrow> Client \<Rightarrow> 'a \<Rightarrow> 's \<Rightarrow> 's \<times> goerr option"
  assumes op_prepare: "op rpc fe unmarshal c x s =
    (case prepare x of Inl e \<Rightarrow> (s, Some e) | Inr u \<Rightarrow> Client_Write rpc fe unmarshal c 0 [u] s)"
begin

lemma op_invalid: "prepare x = Inl e \<Longrightarrow> op rpc fe unmarshal c x s = (s, Some e)"
  by (simp add: op_prepare)

lemma op_not_primary:
  "\<not> cl_primary c \<Longrightarrow> \<exists>e. op rpc fe unmarshal c x s = (s, Some e) \<and>
     (isOk (prepare x) \<longrightarrow> e = Sentinel ErrNotPrimary)"
  by (cases "prepare x") (simp_all add: op_prepare Client_Write_def)

lemma op_sends_one:
  assumes "cl_primary c" "prepare x = Inr u"
  shows "fst (op rpc fe unmarshal c x s) = fst (rpc s (writeRequest c 0 [u])) \<and>
    (snd (op rpc fe unmarshal c x s) = None \<longleftrightarrow> snd (rpc s (writeRequest c 0 [u])) = None)"
  using assms by (auto simp: op_prepare Client_Write_def split: prod.splits option.splits)

text \<open>An operation that is not valid, or a client that is not primary, sends nothing and fails.\<close>

lemma op_refused:
  assumes "(\<nexists>u. prepare x = Inr u) \<or> \<not> cl_primary c"
  shows "fst (op rpc fe unmarshal c x s) = s \<and> snd (op rpc fe unmarshal c x s) \<noteq> None"
  using assms by (cases "prepare x") (auto simp: op_prepare Client_Write_def)

text \<open>The operation reaches the target exactly when it is valid and the client is primary.\<close>

lemma op_effect:
  "fst (op rpc fe unmarshal c x s) =
     (case prepare x of Inr u \<Rightarrow> if cl_primary c then fst (rpc s (writeRequest c 0 [u])) else s | Inl e \<Rightarrow> s)"
  by (cases "prepare x") (auto simp: op_prepare Client_Write_def split: prod.splits option.splits)

end

interpretation table_write: guarded_write
  "\<lambda>(kind, entry). Inr (TableEntryUpdate kind entry)"
  "\<lambda>rpc fe unmarshal c (kind, entry). WriteTableEntry rpc fe unmarshal c kind entry"
  by unfold_locales (auto simp: WriteTableEntry_def)

subsection \<open>Reading\<close>

text \<open>The first failing \<^verbatim>\<open>Recv\<close> decides: before it the entities are collected in order.\<close>

lemma recvLoop_first_error:
  assumes "recv n = Inl err" "i \<le> n" "\<And>k. i \<le> k \<Longrightarrow> k < n \<Longrightarrow> recv k = Inr (es k)"
  shows "recvLoop recv i out =
    Some (if errors_Is_EOF err then Inr (out @ concat (map es [i..<n])) else Inl (Errorf ''Read recv: %w'' [AErr err]))"
  using assms(2,3)
proof (induction "n - i" arbitrary: i out)
  case 0
  then have "i = n" by simp
  then show ?case using assms(1) by (simp add: recvLoop.simps [of recv n])
next
  case (Suc d)
  then have i: "i < n" "recv i = Inr (es i)" by auto
  have "recvLoop recv (Suc i) (out @ es i) = Some (if errors_Is_EOF err
      then Inr ((out @ es i) @ concat (map es [Suc i..<n])) else Inl (Errorf ''Read recv: %w'' [AErr err]))"
    using Suc i by (intro Suc.hyps(1)) auto
  then show ?case using i by (simp add: recvLoop.simps [of recv i] upt_conv_Cons)
qed

lemma recvLoop_returns: "recvLoop recv i out = Some r \<Longrightarrow> \<exists>n\<ge>i. \<exists>err. recv n = Inl err"
proof (rule recvLoop.raw_induct [of "\<lambda>recv i out r. \<exists>n\<ge>i. \<exists>err. recv n = Inl err"])
  fix loop :: "recv \<Rightarrow> nat \<Rightarrow> Entity list \<Rightarrow> (goerr + Entity list) option" and recv i out r
  assume IH: "\<And>recv i out r. loop recv i out = Some r \<Longrightarrow> \<exists>n\<ge>i. \<exists>err. recv n = Inl err"
    and st: "(case recv i of
        Inl err \<Rightarrow> Some (if errors_Is_EOF err then Inr out else Inl (Errorf ''Read recv: %w'' [AErr err]))
      | Inr es \<Rightarrow> loop recv (Suc i) (out @ es)) = Some r"
  show "\<exists>n\<ge>i. \<exists>err. recv n = Inl err"
  proof (cases "recv i")
    case (Inr es)
    then have "\<exists>n\<ge>Suc i. \<exists>err. recv n = Inl err" using st IH by simp
    then show ?thesis by (meson Suc_leD)
  qed auto
qed assumption

subsection \<open>SetPipeline\<close>

text \<open>The four ways the loop can go.\<close>

lemma setPipelineLoop_one:
  "setPipelineLoop rpc fe c cfg [act] \<lparr>spr_Action = 0, spr_Attempted = tried\<rparr> le s =
     (case rpc s (setRequest c cfg act) of
        (s', None) \<Rightarrow> (s', \<lparr>spr_Action = act, spr_Attempted = tried @ [act]\<rparr>, None)
      | (s', Some err) \<Rightarrow> (s', \<lparr>spr_Action = 0, spr_Attempted = tried @ [act]\<rparr>,
          Some (Errorf ''SetForwardingPipelineConfig(%s): %w'' [AStr (actionName act),
            AErr (if isFallbackError fe err act
                  then Errorf ''%w: %w'' [AErr (Sentinel ErrTargetUnsupported), AErr err] else err)])))"
  by (simp add: Let_def split: prod.splits option.splits)

lemma setPipelineLoop_attempts:
  "setPipelineLoop rpc fe c cfg acts r0 le s = (s', r, e) \<Longrightarrow> acts \<noteq> [] \<Longrightarrow>
     \<exists>k. 0 < k \<and> k \<le> length acts \<and> spr_Attempted r = spr_Attempted r0 @ take k acts \<and>
       (e = None \<longrightarrow> spr_Action r = acts ! (k - 1))"
proof (induction acts arbitrary: r0 le s)
  case (Cons act acts)
  obtain s1 o1 where rpc: "rpc s (setRequest c cfg act) = (s1, o1)" by force
  show ?case
  proof (cases "o1 = None \<or> \<not> isFallbackError fe (the o1) act \<or> acts = []")
    case True
    then show ?thesis using Cons.prems rpc
      by (intro exI [of _ 1]) (auto simp: Let_def split: option.splits if_splits)
  next
    case False
    then obtain r1 le1 where "setPipelineLoop rpc fe c cfg acts r1 le1 s1 = (s', r, e)"
        "spr_Attempted r1 = spr_Attempted r0 @ [act]"
      using Cons.prems rpc by (auto simp: Let_def)
    with Cons.IH [of r1 le1 s1] False obtain k where "0 < k" "k \<le> length acts"
        "spr_Attempted r = spr_Attempted r0 @ [act] @ take k acts" "e = None \<longrightarrow> spr_Action r = acts ! (k - 1)"
      by auto
    then show ?thesis by (intro exI [of _ "Suc k"]) (auto simp: nth_Cons')
  qed
qed simp

text \<open>Which actions \<open>SetPipeline\<close> attempts.\<close>

lemma SetPipeline_attempts_lemma:
  assumes "SetPipeline rpc fe c p opts s = (s', r, e)"
  defines "action \<equiv> (if spo_Action opts = 0 then PipelineVerifyAndCommit else spo_Action opts)"
  shows "(spr_Attempted r \<in> {[], [action]} \<or>
            (action = PipelineVerifyAndCommit \<and> \<not> spo_NoFallback opts \<and>
             spr_Attempted r = [PipelineVerifyAndCommit, PipelineReconcileAndCommit])) \<and>
         (e = None \<longrightarrow> spr_Attempted r \<noteq> [] \<and> spr_Action r = last (spr_Attempted r)) \<and>
         (spr_Attempted r = [] \<longleftrightarrow>
            action \<notin> {1..5} \<or> (action = PipelineCommit \<longleftrightarrow> p \<noteq> None) \<or> \<not> cl_primary c) \<and>
         (spr_Attempted r = [] \<longrightarrow> s' = s \<and> e \<noteq> None)"
proof (cases "action \<notin> {1..5} \<or> (action = PipelineCommit \<longleftrightarrow> p \<noteq> None) \<or> \<not> cl_primary c")
  case True
  have r5: "action \<in> {1..5} \<longleftrightarrow> action \<in> {PipelineCommit, PipelineVerify, PipelineVerifyAndSave,
      PipelineVerifyAndCommit, PipelineReconcileAndCommit}" by auto
  have "r = \<lparr>spr_Action = 0, spr_Attempted = []\<rparr> \<and> s' = s \<and> e \<noteq> None"
    using assms(1) True unfolding SetPipeline_def action_def [symmetric] r5 Let_def
    by (auto split: if_splits)
  with True show ?thesis by simp
next
  case False
  define acts where "acts = [action] @ (if action = PipelineVerifyAndCommit \<and> \<not> spo_NoFallback opts
    then [PipelineReconcileAndCommit] else [])"
  obtain cfg where "setPipelineLoop rpc fe c cfg acts \<lparr>spr_Action = 0, spr_Attempted = []\<rparr> None s = (s', r, e)"
    using assms(1) False unfolding SetPipeline_def action_def [symmetric] Let_def acts_def
    by (auto split: if_splits)
  from setPipelineLoop_attempts [OF this] obtain k where k: "0 < k" "k \<le> length acts"
      "spr_Attempted r = take k acts" "e = None \<longrightarrow> spr_Action r = acts ! (k - 1)"
    by (auto simp: acts_def)
  then have "last (spr_Attempted r) = acts ! (k - 1)" "spr_Attempted r \<noteq> []"
    by (auto simp: last_conv_nth acts_def)
  moreover have "k = 1 \<or> (k = 2 \<and> action = PipelineVerifyAndCommit \<and> \<not> spo_NoFallback opts)"
    using k(1,2) by (auto simp: acts_def split: if_splits)
  ultimately show ?thesis using False k by (auto simp: acts_def)
qed

subsection \<open>Errors that call for the fallback\<close>

text \<open>
  What the message of an INVALID_ARGUMENT has to say: one of these sentences about the action, up to case,
  quotation marks, colons and spacing, between full stops, and followed at most by phrases that mean the target.
\<close>

definition unsupported_sentences :: "string \<Rightarrow> string list" where
  "unsupported_sentences name =
     [sentence. subject \<leftarrow> [''action'', name, ''action '' @ name, ''setforwardingpipelineconfig action'',
                   ''setforwardingpipelineconfig action '' @ name],
                sentence \<leftarrow> [''unsupported '' @ subject, subject @ '' not supported'', subject @ '' is not supported'',
                   subject @ '' unsupported'', subject @ '' is unsupported'']]"

definition target_phrases :: "string set" where
  "target_phrases = {a @ b @ c @ d | a b c d. a \<in> {'''', '' by the target''} \<and> b \<in> {'''', '' by this target''} \<and>
     c \<in> {'''', '' on the target''} \<and> d \<in> {'''', '' on this target''}}"

definition says_unsupported :: "string \<Rightarrow> int \<Rightarrow> bool" where
  "says_unsupported message act \<longleftrightarrow>
     (\<exists>before sentence phrases after. Join (Fields (replaceMarks (ToLower message))) '' '' = before @ sentence @ phrases @ after \<and>
        set before \<union> set after \<subseteq> {CHR '' '', CHR ''.''} \<and>
        sentence \<in> set (unsupported_sentences (ToLower (actionName act))) \<and> phrases \<in> target_phrases)"

text \<open>An error says that the target does not support an action: its status is UNIMPLEMENTED, or INVALID_ARGUMENT with
  such a message.\<close>

definition action_unsupported :: "from_error \<Rightarrow> goerr \<Rightarrow> int \<Rightarrow> bool" where
  "action_unsupported fe err act \<longleftrightarrow> (\<exists>st. fe err = (st, True) \<and>
     (st_code st = codes_Unimplemented \<or> st_code st = codes_InvalidArgument \<and> says_unsupported (st_message st) act))"

lemma Trim_parts: "\<exists>before after. s = before @ Trim s cs @ after \<and> set before \<union> set after \<subseteq> set cs"
proof -
  let ?P = "\<lambda>c. c \<in> set cs" and ?r = "rev (dropWhile (\<lambda>c. c \<in> set cs) s)"
  have "s = takeWhile ?P s @ rev (takeWhile ?P ?r @ dropWhile ?P ?r)" by simp
  then have "s = takeWhile ?P s @ Trim s cs @ rev (takeWhile ?P ?r)" unfolding Trim_def rev_append .
  moreover have "set (takeWhile ?P s) \<union> set (rev (takeWhile ?P ?r)) \<subseteq> set cs" using set_takeWhileD by fastforce
  ultimately show ?thesis by blast
qed

lemma Trim_middle:
  assumes "set before \<union> set after \<subseteq> set cs" and "t \<noteq> []" and "hd t \<notin> set cs" and "last t \<notin> set cs"
  shows "Trim (before @ t @ after) cs = t"
proof -
  have "dropWhile (\<lambda>c. c \<in> set cs) (before @ u) = dropWhile (\<lambda>c. c \<in> set cs) u" for u
    using assms(1) by (induction before) auto
  moreover have "dropWhile (\<lambda>c. c \<in> set cs) (t @ after) = t @ after" using assms(2,3) by (cases t) auto
  moreover have "dropWhile (\<lambda>c. c \<in> set cs) (rev after @ u) = dropWhile (\<lambda>c. c \<in> set cs) u" for u
    using assms(1) by (induction after arbitrary: u) auto
  moreover have "dropWhile (\<lambda>c. c \<in> set cs) (rev t) = rev t" using assms(2,4) by (cases t rule: rev_cases) auto
  ultimately show ?thesis by (simp add: Trim_def)
qed

lemma TrimSuffix_parts: "\<exists>x \<in> {'''', p}. s = TrimSuffix s p @ x"
  by (auto simp: TrimSuffix_def HasSuffix_def) (metis append_take_drop_id)

lemma HasSuffix_rev: "HasSuffix s p \<longleftrightarrow> HasPrefix (rev s) (rev p)"
  by (auto simp: HasSuffix_def HasPrefix_def take_rev) (metis diff_is_0_eq' drop0 nle_le)

lemma TrimSuffix_append [simp]: "TrimSuffix (s @ p) p = s"
  by (simp add: TrimSuffix_def HasSuffix_def)

lemma TrimSuffix_other: "\<not> HasSuffix s p \<Longrightarrow> TrimSuffix s p = s"
  by (simp add: TrimSuffix_def)

abbreviation target_suffixes :: "string list" where
  "target_suffixes \<equiv> ['' on this target'', '' on the target'', '' by this target'', '' by the target'']"

lemma target_suffixes_trimmed:
  assumes "\<forall>p\<in>set target_suffixes. \<not> HasSuffix t p" and "phrases \<in> target_phrases"
  shows "foldl TrimSuffix (t @ phrases) target_suffixes = t"
proof -
  obtain a b c d where p: "a \<in> {'''', '' by the target''}" "b \<in> {'''', '' by this target''}"
      "c \<in> {'''', '' on the target''}" "d \<in> {'''', '' on this target''}" "phrases = a @ b @ c @ d"
    using assms(2) by (auto simp: target_phrases_def)
  have d: "TrimSuffix (t @ a @ b @ c @ d) '' on this target'' = t @ a @ b @ c"
  proof (cases "d = ''''")
    case True
    then have "\<not> HasSuffix (t @ a @ b @ c) '' on this target''" using p assms(1) by (auto simp: HasSuffix_rev HasPrefix_def)
    with True show ?thesis by (simp add: TrimSuffix_other)
  next
    case False
    with p(4) TrimSuffix_append [of "t @ a @ b @ c"] show ?thesis by simp
  qed
  have c: "TrimSuffix (t @ a @ b @ c) '' on the target'' = t @ a @ b"
  proof (cases "c = ''''")
    case True
    then have "\<not> HasSuffix (t @ a @ b) '' on the target''" using p assms(1) by (auto simp: HasSuffix_rev HasPrefix_def)
    with True show ?thesis by (simp add: TrimSuffix_other)
  next
    case False
    with p(3) TrimSuffix_append [of "t @ a @ b"] show ?thesis by simp
  qed
  have b: "TrimSuffix (t @ a @ b) '' by this target'' = t @ a"
  proof (cases "b = ''''")
    case True
    then have "\<not> HasSuffix (t @ a) '' by this target''" using p assms(1) by (auto simp: HasSuffix_rev HasPrefix_def)
    with True show ?thesis by (simp add: TrimSuffix_other)
  next
    case False
    with p(2) TrimSuffix_append [of "t @ a"] show ?thesis by simp
  qed
  have a: "TrimSuffix (t @ a) '' by the target'' = t"
    using p(1) assms(1) TrimSuffix_append [of t "'' by the target''"] by (auto simp: TrimSuffix_other)
  show ?thesis unfolding p(5) by (simp add: a b c d)
qed

lemma target_suffixes_parts: "\<exists>phrases\<in>target_phrases. m = foldl TrimSuffix m target_suffixes @ phrases"
proof -
  define m1 m2 m3 m4 where m: "m1 = TrimSuffix m '' on this target''" "m2 = TrimSuffix m1 '' on the target''"
    "m3 = TrimSuffix m2 '' by this target''" "m4 = TrimSuffix m3 '' by the target''"
  obtain d where d: "d \<in> {'''', '' on this target''}" "m = m1 @ d" unfolding m(1) using TrimSuffix_parts by blast
  obtain c where c: "c \<in> {'''', '' on the target''}" "m1 = m2 @ c" unfolding m(2) using TrimSuffix_parts by blast
  obtain b where b: "b \<in> {'''', '' by this target''}" "m2 = m3 @ b" unfolding m(3) using TrimSuffix_parts by blast
  obtain a where a: "a \<in> {'''', '' by the target''}" "m3 = m4 @ a" unfolding m(4) using TrimSuffix_parts by blast
  have "foldl TrimSuffix m target_suffixes = m4" by (simp add: m)
  moreover have "m = m4 @ a @ b @ c @ d" using a(2) b(2) c(2) d(2) by simp
  moreover have "a @ b @ c @ d \<in> target_phrases" unfolding target_phrases_def using a(1) b(1) c(1) d(1) by blast
  ultimately show ?thesis by metis
qed

text \<open>No sentence about one of the two actions of the fallback is touched by the trimming.\<close>

definition plain_sentence :: "string \<Rightarrow> bool" where
  "plain_sentence t \<longleftrightarrow> t \<noteq> '''' \<and> hd t \<notin> set '' .'' \<and> last t \<notin> set '' .'' \<and> list_all (\<lambda>p. \<not> HasSuffix t p) target_suffixes"

lemma sentences_plain:
  "act \<in> {PipelineVerifyAndCommit, PipelineReconcileAndCommit} \<Longrightarrow>
     \<forall>t\<in>set (unsupported_sentences (ToLower (actionName act))). plain_sentence t"
proof -
  have "list_all plain_sentence (unsupported_sentences (ToLower (actionName 3)))"
    "list_all plain_sentence (unsupported_sentences (ToLower (actionName 5)))" by code_simp+
  then show "act \<in> {PipelineVerifyAndCommit, PipelineReconcileAndCommit} \<Longrightarrow> ?thesis" by (auto simp: list_all_iff)
qed

lemma phrases_last: "phrases \<in> target_phrases \<Longrightarrow> phrases = '''' \<or> last phrases = CHR ''t''"
  by (auto simp: target_phrases_def)

lemma message_unsupported_iff:
  assumes "act \<in> {PipelineVerifyAndCommit, PipelineReconcileAndCommit}"
  shows "foldl TrimSuffix (Trim (Join (Fields (replaceMarks (ToLower message))) '' '') '' .'') target_suffixes \<in>
      set (unsupported_sentences (ToLower (actionName act))) \<longleftrightarrow> says_unsupported message act"
proof
  let ?s = "Join (Fields (replaceMarks (ToLower message))) '' ''"
  define m where "m = Trim ?s '' .''"
  define t where "t = foldl TrimSuffix m target_suffixes"
  obtain before after where s: "?s = before @ m @ after" "set before \<union> set after \<subseteq> {CHR '' '', CHR ''.''}"
    unfolding m_def using Trim_parts [of ?s "'' .''"] by auto
  obtain phrases where "phrases \<in> target_phrases" "m = t @ phrases" unfolding t_def using target_suffixes_parts by blast
  moreover assume "foldl TrimSuffix (Trim ?s '' .'') target_suffixes \<in> set (unsupported_sentences (ToLower (actionName act)))"
  then have "t \<in> set (unsupported_sentences (ToLower (actionName act)))" unfolding t_def m_def .
  moreover from calculation(2) s(1) have "?s = before @ t @ phrases @ after" by simp
  ultimately show "says_unsupported message act" unfolding says_unsupported_def using s(2) by blast
next
  assume "says_unsupported message act"
  then obtain before t phrases after where s: "Join (Fields (replaceMarks (ToLower message))) '' '' = before @ (t @ phrases) @ after"
      "set before \<union> set after \<subseteq> set '' .''" "t \<in> set (unsupported_sentences (ToLower (actionName act)))" "phrases \<in> target_phrases"
    unfolding says_unsupported_def by auto
  have t: "plain_sentence t" using sentences_plain [OF assms] s(3) by blast
  then have "Trim (before @ (t @ phrases) @ after) '' .'' = t @ phrases"
    by (intro Trim_middle) (use s(2) phrases_last [OF s(4)] in \<open>auto simp: plain_sentence_def last_append\<close>)
  moreover have "foldl TrimSuffix (t @ phrases) target_suffixes = t"
    by (rule target_suffixes_trimmed) (use t s(4) in \<open>auto simp: plain_sentence_def\<close>)
  ultimately show "foldl TrimSuffix (Trim (Join (Fields (replaceMarks (ToLower message))) '' '') '' .'') target_suffixes \<in>
      set (unsupported_sentences (ToLower (actionName act)))" using s(1,3) by simp
qed

lemma isFallbackError_iff:
  assumes "act \<in> {PipelineVerifyAndCommit, PipelineReconcileAndCommit}"
  shows "isFallbackError fe err act \<longleftrightarrow> action_unsupported fe err act"
proof -
  obtain st ok where fe: "fe err = (st, ok)" by force
  have "isFallbackError fe err act \<longleftrightarrow> ok \<and> (st_code st = codes_Unimplemented \<or> st_code st = codes_InvalidArgument \<and>
      foldl TrimSuffix (Trim (Join (Fields (replaceMarks (ToLower (st_message st)))) '' '') '' .'') target_suffixes \<in>
        set (unsupported_sentences (ToLower (actionName act))))"
    by (simp add: isFallbackError_def fe Let_def unsupported_sentences_def del: foldl_Cons)
  then show ?thesis unfolding message_unsupported_iff [OF assms] action_unsupported_def fe by auto
qed

text \<open>The error that \<open>SetPipeline\<close> makes of the target's error: it matches \<open>ErrTargetUnsupported\<close> when that error says so.\<close>

definition reports :: "from_error \<Rightarrow> int \<Rightarrow> goerr \<Rightarrow> goerr \<Rightarrow> bool" where
  "reports fe act err e \<longleftrightarrow> (errors_Is fe e ErrTargetUnsupported \<longleftrightarrow> action_unsupported fe err act \<or> errors_Is fe err ErrTargetUnsupported)"

subsection \<open>Properties\<close>

abbreviation sample_client :: Client where
  "sample_client \<equiv> \<lparr>cl_deviceID = 1, cl_electionID = ElectionID 0 7, cl_role = '''', cl_primary = True\<rparr>"

abbreviation sample_update :: Update where
  "sample_update \<equiv> \<lparr>up_Type = UpdateModify, up_Entity = E_Other\<rparr>"

text \<open>A target that logs the requests it receives and accepts them, and errors that carry no status.\<close>

abbreviation logging_target :: "WriteRequest list rpc_write" where
  "logging_target \<equiv> \<lambda>log req. (log @ [req], None)"

abbreviation no_status :: from_error where
  "no_status \<equiv> \<lambda>e. (\<lparr>st_code = codes_Unknown, st_message = '''', st_details = []\<rparr>, False)"

text \<open>C17. Classification of a failed \<open>Write\<close> with a gRPC status: the error keeps the RPC error as its
  cause and carries per-update results exactly when the status is UNKNOWN with one well-formed
  result per update, in request order, and at least one failure. It matches a sentinel exactly when
  the RPC's own status or one of those updates has it, or the cause already had it.\<close>

theorem Write_error_classified:
  assumes "cl_primary c" "us \<noteq> []" "rpc s (writeRequest c a us) = (s', Some err)" "fe err = (st, True)"
  shows "\<exists>results. Client_Write rpc fe unmarshal c a us s = (s', Some (WriteError err results)) \<and>
    (\<forall>vs. results = Some vs \<longleftrightarrow>
       st_code st = codes_Unknown \<and> length vs = length us \<and>
       list_all2 (good_detail unmarshal) (st_details st) vs \<and> (\<exists>v\<in>set vs. canonical_code v \<noteq> codes_OK)) \<and>
    (\<forall>t. errors_Is fe (WriteError err results) t \<longleftrightarrow>
       writeSentinel (st_code st) (st_message st) True = Some t \<or>
       (\<exists>vs. results = Some vs \<and> (\<exists>v\<in>set vs. writeSentinel (canonical_code v) (p4_message v) False = Some t)) \<or>
       errors_Is fe err t)"
proof (intro exI conjI allI)
  let ?r = "writeUpdateResults unmarshal st (int (length us))"
  have t: "translateWriteError fe unmarshal err (int (length us)) = WriteError err ?r"
    using assms(4) by (simp add: translateWriteError_def)
  show "Client_Write rpc fe unmarshal c a us s = (s', Some (WriteError err ?r))"
    using assms(1-3) t by (simp add: Client_Write_def)
  show "?r = Some vs \<longleftrightarrow> st_code st = codes_Unknown \<and> length vs = length us \<and>
      list_all2 (good_detail unmarshal) (st_details st) vs \<and> (\<exists>v\<in>set vs. canonical_code v \<noteq> codes_OK)" for vs
    using assms(2) by (auto simp: writeUpdateResults_Some_iff)
  show "errors_Is fe (WriteError err ?r) t \<longleftrightarrow>
      writeSentinel (st_code st) (st_message st) True = Some t \<or>
      (\<exists>vs. ?r = Some vs \<and> (\<exists>v\<in>set vs. writeSentinel (canonical_code v) (p4_message v) False = Some t)) \<or>
      errors_Is fe err t" for t
    using translateWriteError_Is [of fe err st unmarshal "int (length us)" t, OF assms(4)] t by simp
qed

abbreviation sample_status :: rpc_status where
  "sample_status \<equiv> \<lparr>st_code = codes_Unknown, st_message = ''batch'',
     st_details = [Some \<lparr>any_type_url = '''', any_value = [0]\<rparr>, Some \<lparr>any_type_url = '''', any_value = [5]\<rparr>]\<rparr>"

abbreviation code_byte :: unmarshal_any where
  "code_byte \<equiv> \<lambda>a. Some \<lparr>canonical_code = uint (hd (any_value a)), p4_message = ''''\<rparr>"

theorem Write_error_classified_witness:
  "\<exists>results. Client_Write (\<lambda>s req. (s, Some (StatusError sample_status))) (\<lambda>e. (sample_status, True)) code_byte
       sample_client 0 [sample_update, sample_update] (0 :: nat) =
     (0, Some (WriteError (StatusError sample_status) results)) \<and>
     results = Some [\<lparr>canonical_code = 0, p4_message = ''''\<rparr>, \<lparr>canonical_code = 5, p4_message = ''''\<rparr>]"
  using Write_error_classified [of sample_client "[sample_update, sample_update]"
      "\<lambda>s req. (s, Some (StatusError sample_status))" "0 :: nat" 0 0 "StatusError sample_status"
      "\<lambda>e. (sample_status, True)" sample_status code_byte]
  by (auto simp: good_detail_def)

text \<open>C28. \<open>Read\<close> needs no primary role: with no entities it fails without a request; otherwise it sends
  one request and collects the responses in order up to the first error, which ends the read when
  it is io.EOF and fails it otherwise. It returns exactly when the stream ends or fails.\<close>

theorem Read_correct:
  assumes "es \<noteq> []"
    and "rpc s \<lparr>rr_DeviceId = cl_deviceID c, rr_Role = cl_role c, rr_Entities = es\<rparr> = (s', Inr recv)"
  shows "((\<exists>r. Client_Read rpc c es s = (s', Some r)) \<longleftrightarrow> (\<exists>n err. recv n = Inl err)) \<and>
    (\<forall>n err bs. recv n = Inl err \<and> (\<forall>k<n. recv k = Inr (bs k)) \<longrightarrow>
       Client_Read rpc c es s =
         (s', Some (if errors_Is_EOF err then Inr (concat (map bs [0..<n]))
                    else Inl (Errorf ''Read recv: %w'' [AErr err]))))"
proof -
  have run: "Client_Read rpc c es s = (s', recvLoop recv 0 [])" using assms by (simp add: Client_Read_def)
  have "\<exists>r. recvLoop recv 0 [] = Some r" if "recv n = Inl err" for n err
  proof -
    define m where "m = (LEAST m. \<exists>e. recv m = Inl e)"
    have "\<exists>e. recv m = Inl e" unfolding m_def by (rule LeastI [of "\<lambda>m. \<exists>e. recv m = Inl e" n]) (use that in blast)
    then obtain e where e: "recv m = Inl e" by blast
    have "recv k = Inr (projr (recv k))" if "k < m" for k
      using not_less_Least [OF that [unfolded m_def]] by (cases "recv k") auto
    then show ?thesis using recvLoop_first_error [of recv m e 0 "\<lambda>k. projr (recv k)" "[]"] e by simp
  qed
  then show ?thesis unfolding run using recvLoop_returns [of recv 0] recvLoop_first_error [of recv _ _ 0 _ "[]"]
    by fastforce
qed

theorem Read_correct_witness:
  "Client_Read (\<lambda>s req. (s, Inr (\<lambda>i. if i = 0 then Inr [E_Other] else Inl EOF))) sample_client [E_Other] (0 :: nat)
     = (0, Some (Inr [E_Other]))"
proof -
  let ?recv = "\<lambda>i. if i = 0 then Inr [E_Other] else Inl EOF"
  have "\<forall>n err bs. ?recv n = Inl err \<and> (\<forall>k<n. ?recv k = Inr (bs k)) \<longrightarrow>
      Client_Read (\<lambda>s req. (s, Inr ?recv)) sample_client [E_Other] (0 :: nat) =
        (0, Some (if errors_Is_EOF err then Inr (concat (map bs [0..<n])) else Inl (Errorf ''Read recv: %w'' [AErr err])))"
    using Read_correct [of "[E_Other]" "\<lambda>s req. (s, Inr ?recv)" "0 :: nat" sample_client 0 ?recv] by blast
  from this [rule_format, of 1 EOF "\<lambda>_. [E_Other]"] show ?thesis by simp
qed

text \<open>\<open>SetPipeline\<close> attempts the requested action first and at most one fallback: every list of
  attempts is empty (a request that is refused before any RPC), the action alone, or
  VERIFY_AND_COMMIT followed by RECONCILE_AND_COMMIT, the latter only without \<open>NoFallback\<close>. On
  success the reported action is the last one attempted. COMMIT is refused with a pipeline, every
  other action without one, and nothing is sent unless the client is primary.\<close>

theorem SetPipeline_attempts:
  assumes "SetPipeline rpc fe c p opts s = (s', r, e)"
  defines "action \<equiv> (if spo_Action opts = 0 then PipelineVerifyAndCommit else spo_Action opts)"
  shows "(spr_Attempted r \<in> {[], [action]} \<or>
            (action = PipelineVerifyAndCommit \<and> \<not> spo_NoFallback opts \<and>
             spr_Attempted r = [PipelineVerifyAndCommit, PipelineReconcileAndCommit])) \<and>
         (e = None \<longrightarrow> spr_Attempted r \<noteq> [] \<and> spr_Action r = last (spr_Attempted r)) \<and>
         (spr_Attempted r = [] \<longleftrightarrow>
            action \<notin> {1..5} \<or> (action = PipelineCommit \<longleftrightarrow> p \<noteq> None) \<or> \<not> cl_primary c) \<and>
         (spr_Attempted r = [] \<longrightarrow> s' = s \<and> e \<noteq> None)"
  using SetPipeline_attempts_lemma [OF assms(1)] unfolding action_def .

abbreviation no_commit_target :: "int list rpc_set" where
  "no_commit_target \<equiv> \<lambda>log req. (log @ [sp_Action req],
     if sp_Action req = PipelineReconcileAndCommit then None else Some (StatusError sample_status))"

abbreviation unimplemented :: from_error where
  "unimplemented \<equiv> \<lambda>e. (\<lparr>st_code = codes_Unimplemented, st_message = '''', st_details = []\<rparr>, True)"

theorem SetPipeline_attempts_witness:
  "spr_Action (fst (snd (SetPipeline no_commit_target unimplemented sample_client
     (Some (built sample_info [])) \<lparr>spo_Action = 0, spo_NoFallback = False\<rparr> []))) = PipelineReconcileAndCommit"
proof -
  let ?run = "SetPipeline no_commit_target unimplemented sample_client
     (Some (built sample_info [])) \<lparr>spo_Action = 0, spo_NoFallback = False\<rparr> []"
  obtain s' r e where run: "?run = (s', r, e)" by (cases ?run) auto
  then have "e = None" "spr_Attempted r = [PipelineVerifyAndCommit, PipelineReconcileAndCommit]"
    by (auto simp: SetPipeline_def Let_def isFallbackError_def setRequest_def)
  then have "spr_Action r = PipelineReconcileAndCommit" using SetPipeline_attempts [OF run] by simp
  then show ?thesis unfolding run by simp
qed

text \<open>C29. \<open>SetPipeline\<close> falls back from VERIFY_AND_COMMIT to RECONCILE_AND_COMMIT exactly when it may and has to: the client is
  primary, the action is the default or VERIFY_AND_COMMIT, the caller allows the fallback, and the first attempt
  failed with an error that says the action is unsupported (UNIMPLEMENTED, or INVALID_ARGUMENT with a message of that form).
  Then the outcome is that of the second attempt; any other failure is reported at once. The reported error matches
  \<open>ErrTargetUnsupported\<close> exactly when the target's error says so, or already matched it.\<close>

theorem SetPipeline_fallback_only_when_unsupported:
  assumes "SetPipeline rpc fe c (Some p) opts s = (s', r, e)"
  defines "cfg \<equiv> Some \<lparr>fpc_P4Info = Some (Pipeline_Info p), fpc_P4DeviceConfig = Pipeline_DeviceConfig p\<rparr>"
  shows "(spr_Attempted r = [PipelineVerifyAndCommit, PipelineReconcileAndCommit] \<longleftrightarrow>
            cl_primary c \<and> spo_Action opts \<in> {0, PipelineVerifyAndCommit} \<and> \<not> spo_NoFallback opts \<and>
            (\<exists>s1 err. rpc s (setRequest c cfg PipelineVerifyAndCommit) = (s1, Some err) \<and> action_unsupported fe err PipelineVerifyAndCommit)) \<and>
         (\<forall>s1 err. rpc s (setRequest c cfg PipelineVerifyAndCommit) = (s1, Some err) \<longrightarrow>
            (spr_Attempted r = [PipelineVerifyAndCommit, PipelineReconcileAndCommit] \<longrightarrow>
               s' = fst (rpc s1 (setRequest c cfg PipelineReconcileAndCommit)) \<and>
               rel_option (reports fe PipelineReconcileAndCommit) (snd (rpc s1 (setRequest c cfg PipelineReconcileAndCommit))) e) \<and>
            (spr_Attempted r = [PipelineVerifyAndCommit] \<longrightarrow>
               s' = s1 \<and> rel_option (reports fe PipelineVerifyAndCommit) (Some err) e))"
proof (cases "cl_primary c \<and> spo_Action opts \<in> {0, PipelineVerifyAndCommit}")
  case False
  then have "spr_Attempted r \<noteq> [PipelineVerifyAndCommit, PipelineReconcileAndCommit] \<and> spr_Attempted r \<noteq> [PipelineVerifyAndCommit]"
    using SetPipeline_attempts_lemma [OF assms(1)] by (auto split: if_splits)
  with False show ?thesis by blast
next
  case True
  obtain s1 o1 where rpc1: "rpc s (setRequest c cfg PipelineVerifyAndCommit) = (s1, o1)" by force
  obtain s2 o2 where rpc2: "rpc s1 (setRequest c cfg PipelineReconcileAndCommit) = (s2, o2)" by force
  have run: "setPipelineLoop rpc fe c cfg ([PipelineVerifyAndCommit] @ (if spo_NoFallback opts then [] else [PipelineReconcileAndCommit]))
      \<lparr>spr_Action = 0, spr_Attempted = []\<rparr> None s = (s', r, e)"
    using assms(1) True unfolding SetPipeline_def cfg_def by (auto simp: Let_def)
  show ?thesis
  proof (cases o1)
    case None
    with run rpc1 show ?thesis by auto
  next
    case (Some err)
    show ?thesis
    proof (cases "action_unsupported fe err PipelineVerifyAndCommit \<and> \<not> spo_NoFallback opts")
      case False
      then have "s' = s1 \<and> spr_Attempted r = [PipelineVerifyAndCommit] \<and> rel_option (reports fe PipelineVerifyAndCommit) (Some err) e"
        using run rpc1 Some by (auto simp: isFallbackError_iff Let_def reports_def errors_Is_Errorf_iff split: if_splits)
      with rpc1 Some True False show ?thesis by auto
    next
      case fallback: True
      then have "s' = s2 \<and> spr_Attempted r = [PipelineVerifyAndCommit, PipelineReconcileAndCommit] \<and>
          rel_option (reports fe PipelineReconcileAndCommit) o2 e"
        using run rpc1 rpc2 Some
        by (cases o2) (auto simp: isFallbackError_iff Let_def reports_def errors_Is_Errorf_iff)
      with rpc1 rpc2 Some True fallback show ?thesis by auto
    qed
  qed
qed

abbreviation refusing :: "string \<Rightarrow> from_error" where
  "refusing message \<equiv> \<lambda>e. (\<lparr>st_code = codes_InvalidArgument, st_message = message, st_details = []\<rparr>, True)"

theorem SetPipeline_fallback_only_when_unsupported_witness:
  "spr_Attempted (fst (snd (SetPipeline no_commit_target unimplemented sample_client
      (Some (built sample_info [])) \<lparr>spo_Action = 0, spo_NoFallback = False\<rparr> []))) = [3, 5] \<and>
   spr_Attempted (fst (snd (SetPipeline no_commit_target (refusing ''Action: 'VERIFY_AND_COMMIT' is not supported on this target.'') sample_client
      (Some (built sample_info [])) \<lparr>spo_Action = 0, spo_NoFallback = False\<rparr> []))) = [3, 5] \<and>
   spr_Attempted (fst (snd (SetPipeline no_commit_target (refusing ''bad P4Info'') sample_client
      (Some (built sample_info [])) \<lparr>spo_Action = 0, spo_NoFallback = False\<rparr> []))) \<noteq> [3, 5]"
proof -
  let ?run = "\<lambda>fe. SetPipeline no_commit_target fe sample_client (Some (built sample_info [])) \<lparr>spo_Action = 0, spo_NoFallback = False\<rparr> []"
  have iff: "spr_Attempted (fst (snd (?run fe))) = [3, 5] \<longleftrightarrow> action_unsupported fe (StatusError sample_status) 3" for fe
  proof -
    obtain s' r e where run: "?run fe = (s', r, e)" by (cases "?run fe") auto
    from SetPipeline_fallback_only_when_unsupported [OF run] show ?thesis unfolding run by (simp add: setRequest_def)
  qed
  have "isFallbackError (refusing ''Action: 'VERIFY_AND_COMMIT' is not supported on this target.'') (StatusError sample_status) 3"
    "\<not> isFallbackError (refusing ''bad P4Info'') (StatusError sample_status) 3" by code_simp+
  then have "action_unsupported (refusing ''Action: 'VERIFY_AND_COMMIT' is not supported on this target.'') (StatusError sample_status) 3"
    "\<not> action_unsupported (refusing ''bad P4Info'') (StatusError sample_status) 3"
    using isFallbackError_iff [of 3] by auto
  moreover have "action_unsupported unimplemented (StatusError sample_status) 3" by (simp add: action_unsupported_def)
  ultimately show ?thesis by (simp only: iff not_False_eq_True simp_thms)
qed

text \<open>C30. Setting a pipeline and reading it back: when the target accepts the first action and then
  answers \<open>GetPipeline\<close> with the configuration it was sent, the client rebuilds exactly the pipeline
  that was set, lookup maps and device configuration included.\<close>

theorem SetPipeline_GetPipeline_roundtrip:
  assumes "Pipeline_New reflect (Some info) dev = Inr p" "cl_primary c"
    and "spo_Action opts \<in> {0, PipelineVerify, PipelineVerifyAndSave, PipelineVerifyAndCommit, PipelineReconcileAndCommit}"
    and "\<And>act. set_rpc s (setRequest c (Some sent) act) = (s1, None)"
    and "get_rpc s1 \<lparr>gp_DeviceId = cl_deviceID c, gp_ResponseType = 0\<rparr> = (s2, Inr (Some sent))"
    and "sent = \<lparr>fpc_P4Info = Some (Pipeline_Info p), fpc_P4DeviceConfig = Pipeline_DeviceConfig p\<rparr>"
  shows "\<exists>r. SetPipeline set_rpc fe c (Some p) opts s = (s1, r, None) \<and>
             GetPipeline get_rpc fe reflect c s1 = (s2, Inr p)"
proof -
  have p: "p = built info dev" using assms(1) by (simp add: New_Inr_iff)
  have c: "Pipeline_Info p = info" "(case Pipeline_DeviceConfig p of None \<Rightarrow> [] | Some b \<Rightarrow> b) = dev"
    by (simp_all add: p Pipeline_Info_def Pipeline_DeviceConfig_def built_maps)
  have "GetPipeline get_rpc fe reflect c s1 = (s2, Inr p)"
    using assms(1,5) by (simp add: GetPipeline_def assms(6) c)
  moreover have "\<exists>r. SetPipeline set_rpc fe c (Some p) opts s = (s1, r, None)"
    using assms(2,3,4) by (auto simp: SetPipeline_def Let_def assms(6))
  ultimately show ?thesis by blast
qed

text \<open>A target that keeps the configuration it is sent.\<close>

theorem SetPipeline_GetPipeline_roundtrip_witness:
  "\<exists>r. SetPipeline (\<lambda>s req. (sp_Config req, None)) no_status sample_client (Some (built sample_info [9]))
      \<lparr>spo_Action = PipelineVerifyAndSave, spo_NoFallback = True\<rparr> None =
      (Some \<lparr>fpc_P4Info = Some (Pipeline_Info (built sample_info [9])), fpc_P4DeviceConfig = Pipeline_DeviceConfig (built sample_info [9])\<rparr>,
       r, None) \<and>
    snd (GetPipeline (\<lambda>s req. (s, Inr s)) no_status sample_reflect sample_client
      (Some \<lparr>fpc_P4Info = Some (Pipeline_Info (built sample_info [9])), fpc_P4DeviceConfig = Pipeline_DeviceConfig (built sample_info [9])\<rparr>))
      = Inr (built sample_info [9])"
proof -
  let ?sent = "\<lparr>fpc_P4Info = Some (Pipeline_Info (built sample_info [9])),
      fpc_P4DeviceConfig = Pipeline_DeviceConfig (built sample_info [9])\<rparr>"
  have "\<exists>r. SetPipeline (\<lambda>s req. (sp_Config req, None)) no_status sample_client (Some (built sample_info [9]))
        \<lparr>spo_Action = PipelineVerifyAndSave, spo_NoFallback = True\<rparr> None = (Some ?sent, r, None) \<and>
      GetPipeline (\<lambda>s req. (s, Inr s)) no_status sample_reflect sample_client (Some ?sent) =
        (Some ?sent, Inr (built sample_info [9]))"
    by (rule SetPipeline_GetPipeline_roundtrip [OF sample_New, where sent = ?sent]) (simp_all add: setRequest_def)
  then show ?thesis by auto
qed

text \<open>The errors of \<open>GetPipeline\<close>: no configuration, or one without P4Info, is
  \<open>ErrPipelineNotSet\<close>; an RPC error with a status keeps its cause and status, and for a plain
  status error it matches \<open>ErrPipelineNotSet\<close> exactly when the status is FAILED_PRECONDITION with a
  message that, with spaces collapsed and case folded, is one of the known messages. Nothing else
  makes it match a sentinel.\<close>

theorem GetPipeline_errors:
  "(\<forall>s' cfg. rpc s \<lparr>gp_DeviceId = cl_deviceID c, gp_ResponseType = 0\<rparr> = (s', Inr cfg) \<and>
       (cfg = None \<or> fpc_P4Info (the cfg) = None) \<longrightarrow>
       GetPipeline rpc fe reflect c s = (s', Inl (Sentinel ErrPipelineNotSet))) \<and>
   (\<forall>s' st. rpc s \<lparr>gp_DeviceId = cl_deviceID c, gp_ResponseType = 0\<rparr> = (s', Inl (StatusError st)) \<longrightarrow>
       GetPipeline rpc fe reflect c s = (s', Inl (GetPipelineError (StatusError st) st)) \<and>
       (\<forall>t. errors_Is fe (GetPipelineError (StatusError st) st) t \<longleftrightarrow>
          t = ErrPipelineNotSet \<and> st_code st = codes_FailedPrecondition \<and>
          (\<exists>m\<in>set missingPipelineMessages. \<exists>suffix\<in>{'''', '' for this device'', '' on this device''}.
             TrimSuffix (ToLower (Join (Fields (st_message st)) '' '')) ''.'' = m @ suffix)))"
  by (auto simp: GetPipeline_def getPipelineError_Is_def Let_def list_ex_iff split: option.splits)

theorem GetPipeline_errors_witness:
  "errors_Is no_status (GetPipelineError
     (StatusError \<lparr>st_code = codes_FailedPrecondition, st_message = ''Pipeline  not set.'', st_details = []\<rparr>)
     \<lparr>st_code = codes_FailedPrecondition, st_message = ''Pipeline  not set.'', st_details = []\<rparr>) ErrPipelineNotSet"
proof -
  let ?st = "\<lparr>st_code = codes_FailedPrecondition, st_message = ''Pipeline  not set.'', st_details = []\<rparr>"
  have "TrimSuffix (ToLower (Join (Fields ''Pipeline  not set.'') '' '')) ''.'' = ''pipeline not set''" by code_simp
  then show ?thesis
    using GetPipeline_errors [of "\<lambda>s req. (s, Inl (StatusError ?st))" "0 :: nat" sample_client no_status sample_reflect]
    by (simp add: missingPipelineMessages_def)
qed

end
