(* ===== verification/Resources.thy ===== *)
theory Resources
  imports Client_RPC
begin

text \<open>
  Indirect resources: the index check of src/internal/resourceindex, and the typed readers and
  writers of counters (src/counter/counter.go) and meters (src/meter/meter.go). Each write is an
  instance of the locale \<open>guarded_write\<close>: validate the arguments into one MODIFY update, or fail
  before anything is sent. A reader holds a client and a pipeline that its constructor checked.
\<close>

subsection \<open>resourceindex.Validate\<close>

definition resourceindex_Validate :: "int \<Rightarrow> int \<Rightarrow> string \<Rightarrow> bool \<Rightarrow> goerr + unit" where
  "resourceindex_Validate i sz indexType allowAll =
     (if allowAll \<and> i = - 1 then Inr ()
      else if i < 0 then
        (if allowAll then Inl (Errorf ''index must be -1 or non-negative, got %d'' [AInt i])
         else Inl (Errorf ''index must be non-negative, got %d'' [AInt i]))
      else if indexType = '''' then
        (if sz \<le> 0 then Inl (Errorf ''invalid array size %d for index %d'' [AInt sz, AInt i])
         else if i \<ge> sz then Inl (Errorf ''index %d outside array range [0, %d)'' [AInt i, AInt sz])
         else Inr ())
      else Inr ())"

lemma resourceindex_Validate_iff:
  "isOk (resourceindex_Validate i sz ty allowAll) \<longleftrightarrow>
     (allowAll \<and> i = - 1) \<or> (0 \<le> i \<and> (ty = '''' \<longrightarrow> i < sz))"
  by (auto simp: resourceindex_Validate_def)

subsection \<open>Readers\<close>

record Reader =
  rd_client :: Client
  rd_pipeline :: Pipeline

definition NewReader :: "string \<Rightarrow> Client option \<Rightarrow> Pipeline option \<Rightarrow> goerr + Reader" where
  "NewReader pkg c p =
     (case (c, p) of
        (Some cl, Some pl) \<Rightarrow> Inr \<lparr>rd_client = cl, rd_pipeline = pl\<rparr>
      | _ \<Rightarrow> Inl (Errorf (pkg @ ''.NewReader: nil client or pipeline'') []))"

subsection \<open>Counters\<close>

record counter_Data =
  cd_Name :: string
  cd_ID :: uint32
  cd_Index :: int
  cd_Packets :: int
  cd_Bytes :: int

definition counter_sample :: "CounterDef \<Rightarrow> Entity \<Rightarrow> counter_Data option" where
  "counter_sample cdef e =
     (case GetCounterEntry e of
        None \<Rightarrow> None
      | Some ce \<Rightarrow> Some \<lparr>cd_Name = c_Name cdef, cd_ID = c_ID cdef,
          cd_Index = (case ce_Index ce of None \<Rightarrow> 0 | Some i \<Rightarrow> i),
          cd_Packets = (case ce_Data ce of None \<Rightarrow> 0 | Some (pk, bts) \<Rightarrow> pk),
          cd_Bytes = (case ce_Data ce of None \<Rightarrow> 0 | Some (pk, bts) \<Rightarrow> bts)\<rparr>)"

text \<open>The lookup and index check shared by the reads and writes of one resource kind.\<close>

definition counter_Read :: "'s rpc_read \<Rightarrow> Reader \<Rightarrow> string \<Rightarrow> int \<Rightarrow> 's \<Rightarrow> 's \<times> (goerr + counter_Data list) option" where
  "counter_Read rpc r name i s =
     (case Pipeline_Counter (Some (rd_pipeline r)) name of
        None \<Rightarrow> (s, Some (Inl (Errorf ''counter %q not in pipeline'' [AStr name])))
      | Some cdef \<Rightarrow>
          (case resourceindex_Validate i (c_Size cdef) (ctr_index_type_name (c_raw cdef)) True of
             Inl e \<Rightarrow> (s, Some (Inl (Errorf ''counter %q: %w'' [AStr name, AErr e])))
           | Inr _ \<Rightarrow>
               let entry = \<lparr>ce_CounterId = c_ID cdef, ce_Index = (if i \<ge> 0 then Some i else None), ce_Data = None\<rparr> in
               (case Client_Read rpc (rd_client r) [E_CounterEntry (Some entry)] s of
                  (s', res) \<Rightarrow> (s', map_option (\<lambda>m. bindE m (\<lambda>ents. Inr (List.map_filter (counter_sample cdef) ents))) res))))"

definition counter_update :: "Pipeline \<Rightarrow> string \<times> int \<times> int \<times> int \<Rightarrow> goerr + Update" where
  "counter_update p arg =
     (case arg of (name, i, packets, bytes) \<Rightarrow>
        (case Pipeline_Counter (Some p) name of
           None \<Rightarrow> Inl (Errorf ''counter %q not in pipeline'' [AStr name])
         | Some cdef \<Rightarrow>
             bindE (mapErr (\<lambda>e. Errorf ''counter %q: %w'' [AStr name, AErr e])
                      (resourceindex_Validate i (c_Size cdef) (ctr_index_type_name (c_raw cdef)) False))
               (\<lambda>_. Inr \<lparr>up_Type = UpdateModify, up_Entity = E_CounterEntry (Some
                 \<lparr>ce_CounterId = c_ID cdef, ce_Index = Some i, ce_Data = Some (packets, bytes)\<rparr>)\<rparr>)))"

definition counter_Write :: "'s rpc_write \<Rightarrow> from_error \<Rightarrow> unmarshal_any \<Rightarrow> Reader \<Rightarrow> string \<Rightarrow> int \<Rightarrow> int \<Rightarrow> int \<Rightarrow>
    's \<Rightarrow> 's \<times> goerr option" where
  "counter_Write rpc fe unmarshal r name i packets bytes s =
     (case counter_update (rd_pipeline r) (name, i, packets, bytes) of
        Inl e \<Rightarrow> (s, Some e)
      | Inr update \<Rightarrow> Client_Write rpc fe unmarshal (rd_client r) 0 [update] s)"

interpretation counter_writes: guarded_write "counter_update p"
  "\<lambda>rpc fe unmarshal c (name, i, packets, bytes).
     counter_Write rpc fe unmarshal \<lparr>rd_client = c, rd_pipeline = p\<rparr> name i packets bytes"
  by unfold_locales (auto simp: counter_Write_def split: sum.splits)

subsection \<open>Meters\<close>

abbreviation (input) MeterSpec_BYTES :: int where "MeterSpec_BYTES \<equiv> 1"
abbreviation (input) MeterSpec_PACKETS :: int where "MeterSpec_PACKETS \<equiv> 2"
abbreviation (input) MeterSpec_TWO_RATE_THREE_COLOR :: int where "MeterSpec_TWO_RATE_THREE_COLOR \<equiv> 0"
abbreviation (input) MeterSpec_SINGLE_RATE_THREE_COLOR :: int where "MeterSpec_SINGLE_RATE_THREE_COLOR \<equiv> 1"
abbreviation (input) MeterSpec_SINGLE_RATE_TWO_COLOR :: int where "MeterSpec_SINGLE_RATE_TWO_COLOR \<equiv> 2"

record meter_Config =
  CIR :: int
  CBurst :: int
  PIR :: int
  PBurst :: int
  EBurst :: int

definition toProto :: "meter_Config \<Rightarrow> MeterSpec option \<Rightarrow> goerr + MeterConfig" where
  "toProto cfg spec =
     (case spec of
        None \<Rightarrow> Inl (Errorf ''missing P4Info meter specification'' [])
      | Some sp \<Rightarrow>
          if ms_unit sp \<noteq> MeterSpec_BYTES \<and> ms_unit sp \<noteq> MeterSpec_PACKETS then
            Inl (Errorf ''unsupported meter unit %v'' [AInt (ms_unit sp)])
          else
            (case find (\<lambda>(name, v). v < 0)
                [(''CIR'', CIR cfg), (''CBurst'', CBurst cfg), (''PIR'', PIR cfg), (''PBurst'', PBurst cfg), (''EBurst'', EBurst cfg)] of
               Some (name, v) \<Rightarrow> Inl (Errorf ''%s %d must be non-negative'' [AStr name, AInt v])
             | None \<Rightarrow>
                 let ok = Inr \<lparr>mc_Cir = CIR cfg, mc_Cburst = CBurst cfg, mc_Pir = PIR cfg, mc_Pburst = PBurst cfg, mc_Eburst = EBurst cfg\<rparr> in
                 if ms_type sp = MeterSpec_TWO_RATE_THREE_COLOR then
                   (if PIR cfg < CIR cfg then Inl (Errorf ''PIR %d must be at least CIR %d'' [AInt (PIR cfg), AInt (CIR cfg)])
                    else if EBurst cfg \<noteq> 0 then Inl (Errorf ''EBurst must be zero for %v'' [AInt (ms_type sp)])
                    else ok)
                 else if ms_type sp = MeterSpec_SINGLE_RATE_THREE_COLOR \<or> ms_type sp = MeterSpec_SINGLE_RATE_TWO_COLOR then
                   (if CIR cfg \<noteq> PIR cfg \<or> CBurst cfg \<noteq> PBurst cfg then
                      Inl (Errorf ''%v requires CIR = PIR and CBurst = PBurst'' [AInt (ms_type sp)])
                    else if ms_type sp = MeterSpec_SINGLE_RATE_TWO_COLOR \<and> EBurst cfg \<noteq> 0 then
                      Inl (Errorf ''EBurst must be zero for %v'' [AInt (ms_type sp)])
                    else ok)
                 else Inl (Errorf ''unsupported meter type %v'' [AInt (ms_type sp)])))"

definition meter_Read :: "'s rpc_read \<Rightarrow> Reader \<Rightarrow> string \<Rightarrow> int \<Rightarrow> 's \<Rightarrow> 's \<times> (goerr + MeterEntry list) option" where
  "meter_Read rpc r name i s =
     (case Pipeline_Meter (Some (rd_pipeline r)) name of
        None \<Rightarrow> (s, Some (Inl (Errorf ''meter %q not in pipeline'' [AStr name])))
      | Some mdef \<Rightarrow>
          (case resourceindex_Validate i (m_Size mdef) (mtr_index_type_name (m_raw mdef)) True of
             Inl e \<Rightarrow> (s, Some (Inl (Errorf ''meter %q: %w'' [AStr name, AErr e])))
           | Inr _ \<Rightarrow>
               let entry = \<lparr>me_MeterId = m_ID mdef, me_Index = (if i \<ge> 0 then Some i else None), me_Config = None\<rparr> in
               (case Client_Read rpc (rd_client r) [E_MeterEntry (Some entry)] s of
                  (s', res) \<Rightarrow> (s', map_option (\<lambda>m. bindE m (\<lambda>ents. Inr (List.map_filter GetMeterEntry ents))) res))))"

text \<open>The validation of \<open>write\<close>; a nil configuration resets the meter.\<close>

definition meter_update :: "Pipeline \<Rightarrow> string \<times> int \<times> meter_Config option \<Rightarrow> goerr + Update" where
  "meter_update p arg =
     (case arg of (name, i, cfg) \<Rightarrow>
        (case Pipeline_Meter (Some p) name of
           None \<Rightarrow> Inl (Errorf ''meter %q not in pipeline'' [AStr name])
         | Some mdef \<Rightarrow>
             bindE (mapErr (\<lambda>e. Errorf ''meter %q: %w'' [AStr name, AErr e])
                      (resourceindex_Validate i (m_Size mdef) (mtr_index_type_name (m_raw mdef)) False)) (\<lambda>_.
             bindE (case cfg of
                      None \<Rightarrow> Inr None
                    | Some c \<Rightarrow> mapErr (\<lambda>e. Errorf ''meter %q: %w'' [AStr name, AErr e])
                                  (map_sum id Some (toProto c (mtr_spec (m_raw mdef))))) (\<lambda>config.
             Inr \<lparr>up_Type = UpdateModify, up_Entity = E_MeterEntry (Some
               \<lparr>me_MeterId = m_ID mdef, me_Index = Some i, me_Config = config\<rparr>)\<rparr>))))"

definition meter_write :: "'s rpc_write \<Rightarrow> from_error \<Rightarrow> unmarshal_any \<Rightarrow> Reader \<Rightarrow> string \<Rightarrow> int \<Rightarrow> meter_Config option \<Rightarrow>
    's \<Rightarrow> 's \<times> goerr option" where
  "meter_write rpc fe unmarshal r name i cfg s =
     (case meter_update (rd_pipeline r) (name, i, cfg) of
        Inl e \<Rightarrow> (s, Some e)
      | Inr update \<Rightarrow> Client_Write rpc fe unmarshal (rd_client r) 0 [update] s)"

definition meter_Write :: "'s rpc_write \<Rightarrow> from_error \<Rightarrow> unmarshal_any \<Rightarrow> Reader \<Rightarrow> string \<Rightarrow> int \<Rightarrow> meter_Config \<Rightarrow>
    's \<Rightarrow> 's \<times> goerr option" where
  "meter_Write rpc fe unmarshal r name i cfg s = meter_write rpc fe unmarshal r name i (Some cfg) s"

definition meter_Reset :: "'s rpc_write \<Rightarrow> from_error \<Rightarrow> unmarshal_any \<Rightarrow> Reader \<Rightarrow> string \<Rightarrow> int \<Rightarrow>
    's \<Rightarrow> 's \<times> goerr option" where
  "meter_Reset rpc fe unmarshal r name i s = meter_write rpc fe unmarshal r name i None s"

interpretation meter_writes: guarded_write "meter_update p"
  "\<lambda>rpc fe unmarshal c (name, i, cfg). meter_write rpc fe unmarshal \<lparr>rd_client = c, rd_pipeline = p\<rparr> name i cfg"
  by unfold_locales (auto simp: meter_write_def split: sum.splits)

text \<open>The rate and burst rules of a meter type.\<close>

definition meter_rules :: "MeterSpec \<Rightarrow> meter_Config \<Rightarrow> bool" where
  "meter_rules sp cfg \<longleftrightarrow>
     ms_unit sp \<in> {MeterSpec_BYTES, MeterSpec_PACKETS} \<and>
     0 \<le> CIR cfg \<and> 0 \<le> CBurst cfg \<and> 0 \<le> PIR cfg \<and> 0 \<le> PBurst cfg \<and> 0 \<le> EBurst cfg \<and>
     (ms_type sp = MeterSpec_TWO_RATE_THREE_COLOR \<and> CIR cfg \<le> PIR cfg \<and> EBurst cfg = 0 \<or>
      ms_type sp = MeterSpec_SINGLE_RATE_THREE_COLOR \<and> CIR cfg = PIR cfg \<and> CBurst cfg = PBurst cfg \<or>
      ms_type sp = MeterSpec_SINGLE_RATE_TWO_COLOR \<and> CIR cfg = PIR cfg \<and> CBurst cfg = PBurst cfg \<and> EBurst cfg = 0)"

abbreviation config_of :: "meter_Config \<Rightarrow> MeterConfig" where
  "config_of cfg \<equiv> \<lparr>mc_Cir = CIR cfg, mc_Cburst = CBurst cfg, mc_Pir = PIR cfg, mc_Pburst = PBurst cfg, mc_Eburst = EBurst cfg\<rparr>"

lemma toProto_Inr_iff:
  "toProto cfg spec = Inr m \<longleftrightarrow> (\<exists>sp. spec = Some sp \<and> meter_rules sp cfg \<and> m = config_of cfg)"
  by (auto simp: toProto_def meter_rules_def Let_def not_less split: option.splits if_splits)

lemma toProto_case: "isOk (toProto cfg spec) \<longleftrightarrow> (\<exists>sp. spec = Some sp \<and> meter_rules sp cfg)"
  by (auto simp: isOk_iff toProto_Inr_iff)

definition counter_valid :: "Pipeline \<Rightarrow> string \<Rightarrow> int \<Rightarrow> CounterDef \<Rightarrow> bool" where
  "counter_valid p name i cdef \<longleftrightarrow> Pipeline_Counter (Some p) name = Some cdef \<and> 0 \<le> i \<and>
     (ctr_index_type_name (c_raw cdef) = [] \<longrightarrow> i < c_Size cdef)"

definition meter_valid :: "Pipeline \<Rightarrow> string \<Rightarrow> int \<Rightarrow> meter_Config option \<Rightarrow> MeterDef \<Rightarrow> bool" where
  "meter_valid p name i cfg mdef \<longleftrightarrow> Pipeline_Meter (Some p) name = Some mdef \<and> 0 \<le> i \<and>
     (mtr_index_type_name (m_raw mdef) = [] \<longrightarrow> i < m_Size mdef) \<and>
     (\<forall>c. cfg = Some c \<longrightarrow> (\<exists>sp. mtr_spec (m_raw mdef) = Some sp \<and> meter_rules sp c))"

lemma counter_update_Inr_iff:
  "counter_update p (name, i, pk, bts) = Inr u \<longleftrightarrow>
     (\<exists>cdef. counter_valid p name i cdef \<and>
        u = \<lparr>up_Type = UpdateModify, up_Entity = E_CounterEntry (Some
               \<lparr>ce_CounterId = c_ID cdef, ce_Index = Some i, ce_Data = Some (pk, bts)\<rparr>)\<rparr>)"
proof (cases "Pipeline_Counter (Some p) name")
  case (Some cdef)
  then show ?thesis
    using resourceindex_Validate_iff [of i "c_Size cdef" "ctr_index_type_name (c_raw cdef)" False]
    by (cases "resourceindex_Validate i (c_Size cdef) (ctr_index_type_name (c_raw cdef)) False")
      (auto simp: counter_update_def counter_valid_def)
qed (simp add: counter_update_def counter_valid_def)

lemma meter_update_Inr_iff:
  "meter_update p (name, i, cfg) = Inr u \<longleftrightarrow>
     (\<exists>mdef. meter_valid p name i cfg mdef \<and>
        u = \<lparr>up_Type = UpdateModify, up_Entity = E_MeterEntry (Some
               \<lparr>me_MeterId = m_ID mdef, me_Index = Some i, me_Config = map_option config_of cfg\<rparr>)\<rparr>)"
proof (cases "Pipeline_Meter (Some p) name")
  case (Some mdef)
  have v: "isOk (resourceindex_Validate i (m_Size mdef) (mtr_index_type_name (m_raw mdef)) False) \<longleftrightarrow>
      0 \<le> i \<and> (mtr_index_type_name (m_raw mdef) = [] \<longrightarrow> i < m_Size mdef)"
    by (simp add: resourceindex_Validate_iff)
  show ?thesis
  proof (cases cfg)
    case None
    then show ?thesis using Some v
      by (cases "resourceindex_Validate i (m_Size mdef) (mtr_index_type_name (m_raw mdef)) False")
        (auto simp: meter_update_def meter_valid_def)
  next
    case (Some c)
    then show ?thesis
      using \<open>Pipeline_Meter (Some p) name = Some mdef\<close> v toProto_Inr_iff [of c "mtr_spec (m_raw mdef)"]
      by (cases "resourceindex_Validate i (m_Size mdef) (mtr_index_type_name (m_raw mdef)) False";
          cases "toProto c (mtr_spec (m_raw mdef))")
        (auto simp: meter_update_def meter_valid_def)
  qed
qed (simp add: meter_update_def meter_valid_def)

subsection \<open>Properties\<close>

text \<open>C33. Writing a counter: the target is sent exactly one MODIFY of the named counter at the given
  index with the two counts unchanged, if the counter is declared, the index is in range (or the
  counter has a named index type) and the client is primary; in every other case nothing is sent
  and an error is returned.\<close>

theorem counter_Write_correct:
  "(\<forall>cdef. counter_valid (rd_pipeline r) name i cdef \<and> cl_primary (rd_client r) \<longrightarrow>
      (let req = writeRequest (rd_client r) 0 [\<lparr>up_Type = UpdateModify, up_Entity = E_CounterEntry (Some
                   \<lparr>ce_CounterId = c_ID cdef, ce_Index = Some i, ce_Data = Some (pk, bts)\<rparr>)\<rparr>] in
       fst (counter_Write rpc fe unmarshal r name i pk bts s) = fst (rpc s req) \<and>
       (snd (counter_Write rpc fe unmarshal r name i pk bts s) = None \<longleftrightarrow> snd (rpc s req) = None))) \<and>
   ((\<nexists>cdef. counter_valid (rd_pipeline r) name i cdef) \<or> \<not> cl_primary (rd_client r) \<longrightarrow>
      fst (counter_Write rpc fe unmarshal r name i pk bts s) = s \<and>
      snd (counter_Write rpc fe unmarshal r name i pk bts s) \<noteq> None)"
proof (intro conjI allI impI)
  obtain c p where r: "r = \<lparr>rd_client = c, rd_pipeline = p\<rparr>" by (cases r) auto
  fix cdef assume "counter_valid (rd_pipeline r) name i cdef \<and> cl_primary (rd_client r)"
  then show "let req = writeRequest (rd_client r) 0 [\<lparr>up_Type = UpdateModify, up_Entity = E_CounterEntry (Some
                   \<lparr>ce_CounterId = c_ID cdef, ce_Index = Some i, ce_Data = Some (pk, bts)\<rparr>)\<rparr>] in
       fst (counter_Write rpc fe unmarshal r name i pk bts s) = fst (rpc s req) \<and>
       (snd (counter_Write rpc fe unmarshal r name i pk bts s) = None \<longleftrightarrow> snd (rpc s req) = None)"
    using counter_writes.op_sends_one [of c p "(name, i, pk, bts)" _ rpc fe unmarshal s]
    by (auto simp: r Let_def counter_update_Inr_iff)
next
  assume a: "(\<nexists>cdef. counter_valid (rd_pipeline r) name i cdef) \<or> \<not> cl_primary (rd_client r)"
  obtain c p where r: "r = \<lparr>rd_client = c, rd_pipeline = p\<rparr>" by (cases r) auto
  have "\<exists>e. counter_Write rpc fe unmarshal r name i pk bts s = (s, Some e)"
  proof (cases "cl_primary (rd_client r)")
    case True
    then obtain e where "counter_update p (name, i, pk, bts) = Inl e"
      using a counter_update_Inr_iff [of p name i pk bts] r by (cases "counter_update p (name, i, pk, bts)") auto
    then show ?thesis by (simp add: counter_Write_def r)
  next
    case False
    then show ?thesis using counter_writes.op_not_primary [of c rpc fe unmarshal p "(name, i, pk, bts)" s] r by auto
  qed
  then show "fst (counter_Write rpc fe unmarshal r name i pk bts s) = s"
      "snd (counter_Write rpc fe unmarshal r name i pk bts s) \<noteq> None" by auto
qed

abbreviation resource_info :: P4Info_msg where
  "resource_info \<equiv> sample_info\<lparr>
     info_counters := [\<lparr>ctr_preamble = Some \<lparr>pre_id = 70, pre_name = ''c'', pre_alias = ''''\<rparr>,
       ctr_unit = 1, ctr_size = 16, ctr_index_type_name = ''''\<rparr>],
     info_meters := [\<lparr>mtr_preamble = Some \<lparr>pre_id = 80, pre_name = ''m'', pre_alias = ''mm''\<rparr>,
       mtr_spec = Some \<lparr>ms_unit = MeterSpec_BYTES, ms_type = MeterSpec_TWO_RATE_THREE_COLOR\<rparr>,
       mtr_size = 4, mtr_index_type_name = ''''\<rparr>]\<rparr>"

abbreviation sample_reader :: Reader where
  "sample_reader \<equiv> \<lparr>rd_client = sample_client, rd_pipeline = built resource_info []\<rparr>"

lemma sample_counter: "Pipeline_Counter (Some (built resource_info [])) ''c'' = Some (newCounterDef (hd (info_counters resource_info)))"
  unfolding counter.lookup_built by (simp add: has_key_def newCounterDef_def)

lemma sample_meter: "Pipeline_Meter (Some (built resource_info [])) ''mm'' = Some (newMeterDef (hd (info_meters resource_info)))"
  unfolding meter.lookup_built by (simp add: has_key_def newMeterDef_def)

theorem counter_Write_correct_witness:
  "length (fst (counter_Write logging_target no_status (\<lambda>_. None) sample_reader ''c'' 15 3 4 [])) = 1 \<and>
   fst (counter_Write logging_target no_status (\<lambda>_. None) sample_reader ''c'' 16 3 4 []) = []"
proof -
  have ok: "counter_valid (built resource_info []) ''c'' 15 (newCounterDef (hd (info_counters resource_info)))"
    unfolding counter_valid_def sample_counter by (simp add: newCounterDef_def)
  have bad: "\<nexists>cdef. counter_valid (built resource_info []) ''c'' 16 cdef"
    unfolding counter_valid_def sample_counter by (simp add: newCounterDef_def)
  have "fst (counter_Write logging_target no_status (\<lambda>_. None) sample_reader ''c'' 15 3 4 []) =
      [writeRequest sample_client 0 [\<lparr>up_Type = UpdateModify, up_Entity = E_CounterEntry (Some
         \<lparr>ce_CounterId = 70, ce_Index = Some 15, ce_Data = Some (3, 4)\<rparr>)\<rparr>]]"
    using counter_Write_correct [of sample_reader "''c''" 15 3 4 logging_target no_status "\<lambda>_. None" "[]"] ok
    by (auto simp: Let_def newCounterDef_def)
  moreover have "fst (counter_Write logging_target no_status (\<lambda>_. None) sample_reader ''c'' 16 3 4 []) = []"
    using counter_Write_correct [of sample_reader "''c''" 16 3 4 logging_target no_status "\<lambda>_. None" "[]"] bad by simp
  ultimately show ?thesis by simp
qed

text \<open>Writing and resetting a meter: one MODIFY is sent, with the given configuration (none for a
  reset), exactly when the meter is declared, the index is in range, the configuration obeys the
  rate and burst rules of the declared meter type and the client is primary; otherwise nothing is
  sent and an error is returned.\<close>

theorem meter_write_correct:
  "(\<forall>mdef. meter_valid (rd_pipeline r) name i cfg mdef \<and> cl_primary (rd_client r) \<longrightarrow>
      (let req = writeRequest (rd_client r) 0 [\<lparr>up_Type = UpdateModify, up_Entity = E_MeterEntry (Some
                   \<lparr>me_MeterId = m_ID mdef, me_Index = Some i, me_Config = map_option config_of cfg\<rparr>)\<rparr>] in
       fst (meter_write rpc fe unmarshal r name i cfg s) = fst (rpc s req) \<and>
       (snd (meter_write rpc fe unmarshal r name i cfg s) = None \<longleftrightarrow> snd (rpc s req) = None))) \<and>
   ((\<nexists>mdef. meter_valid (rd_pipeline r) name i cfg mdef) \<or> \<not> cl_primary (rd_client r) \<longrightarrow>
      fst (meter_write rpc fe unmarshal r name i cfg s) = s \<and>
      snd (meter_write rpc fe unmarshal r name i cfg s) \<noteq> None)"
proof (intro conjI allI impI)
  obtain c p where r: "r = \<lparr>rd_client = c, rd_pipeline = p\<rparr>" by (cases r) auto
  fix mdef assume "meter_valid (rd_pipeline r) name i cfg mdef \<and> cl_primary (rd_client r)"
  then show "let req = writeRequest (rd_client r) 0 [\<lparr>up_Type = UpdateModify, up_Entity = E_MeterEntry (Some
                   \<lparr>me_MeterId = m_ID mdef, me_Index = Some i, me_Config = map_option config_of cfg\<rparr>)\<rparr>] in
       fst (meter_write rpc fe unmarshal r name i cfg s) = fst (rpc s req) \<and>
       (snd (meter_write rpc fe unmarshal r name i cfg s) = None \<longleftrightarrow> snd (rpc s req) = None)"
    using meter_writes.op_sends_one [of c p "(name, i, cfg)" _ rpc fe unmarshal s]
    by (auto simp: r Let_def meter_update_Inr_iff)
next
  assume a: "(\<nexists>mdef. meter_valid (rd_pipeline r) name i cfg mdef) \<or> \<not> cl_primary (rd_client r)"
  obtain c p where r: "r = \<lparr>rd_client = c, rd_pipeline = p\<rparr>" by (cases r) auto
  have "\<exists>e. meter_write rpc fe unmarshal r name i cfg s = (s, Some e)"
  proof (cases "cl_primary (rd_client r)")
    case True
    then obtain e where "meter_update p (name, i, cfg) = Inl e"
      using a meter_update_Inr_iff [of p name i cfg] r by (cases "meter_update p (name, i, cfg)") auto
    then show ?thesis by (simp add: meter_write_def r)
  next
    case False
    then show ?thesis using meter_writes.op_not_primary [of c rpc fe unmarshal p "(name, i, cfg)" s] r by auto
  qed
  then show "fst (meter_write rpc fe unmarshal r name i cfg s) = s"
      "snd (meter_write rpc fe unmarshal r name i cfg s) \<noteq> None" by auto
qed

theorem meter_write_correct_witness:
  "length (fst (meter_write logging_target no_status (\<lambda>_. None) sample_reader ''mm'' 3
     (Some \<lparr>CIR = 5, CBurst = 1, PIR = 9, PBurst = 1, EBurst = 0\<rparr>) [])) = 1"
proof -
  have ok: "meter_valid (built resource_info []) ''mm'' 3 (Some \<lparr>CIR = 5, CBurst = 1, PIR = 9, PBurst = 1, EBurst = 0\<rparr>)
      (newMeterDef (hd (info_meters resource_info)))"
    unfolding meter_valid_def sample_meter by (simp add: newMeterDef_def meter_rules_def)
  then show ?thesis
    using meter_write_correct [of sample_reader "''mm''" 3 "Some \<lparr>CIR = 5, CBurst = 1, PIR = 9, PBurst = 1, EBurst = 0\<rparr>"
        logging_target no_status "\<lambda>_. None" "[]"]
    by (auto simp: Let_def)
qed

end
