(* ===== verification/Register_Numeric.thy ===== *)
theory Register_Numeric
  imports Codec
begin

text \<open>
  The integer encodings of registers (src/register/numeric.go): \<open>unsignedBytes\<close> for \<open>bit<W>\<close> and
  \<open>signedBytes\<close> for \<open>int<W>\<close> in two's complement. Both are shown to be canonical encoders in the sense
  of \<open>canonical_codec\<close>, for the unsigned and for the two's complement value. A width is an \<^verbatim>\<open>int32\<close>.
\<close>

subsection \<open>Definitions\<close>

definition unsignedBytes :: "bytes \<Rightarrow> int \<Rightarrow> goerr + bytes" where
  "unsignedBytes value width =
     (if width < 0 then Inl (Errorf ''negative bitwidth %d: %w'' [AInt width, AErr (Sentinel ErrInvalidBitWidth)])
      else if width = 0 then
        (if list_ex (\<lambda>b. b \<noteq> 0) value then Inl (Errorf ''non-zero value for bit<0>: %w'' [AErr (Sentinel ErrInvalidBitWidth)])
         else Inr [0])
      else EncodeBytes value width)"

text \<open>The loop that drops redundant sign bytes.\<close>

fun stripSign :: "bytes \<Rightarrow> bytes" where
  "stripSign (a # b # rest) =
     (if (a = 0 \<and> b AND 0x80 = 0) \<or> (a = 0xff \<and> b AND 0x80 \<noteq> 0) then stripSign (b # rest) else a # b # rest)"
| "stripSign value = value"

text \<open>\<^verbatim>\<open>bits.LeadingZeros8\<close>.\<close>

definition LeadingZeros8 :: "byte \<Rightarrow> int" where
  "LeadingZeros8 b = 8 - int (bitLen (unat b))"

definition signedBytes :: "bytes \<Rightarrow> int \<Rightarrow> goerr + bytes" where
  "signedBytes value width =
     (if width \<le> 0 then Inl (Errorf ''signed bitwidth %d must be positive: %w'' [AInt width, AErr (Sentinel ErrInvalidBitWidth)])
      else if value = [] then Inr [0]
      else
        let value = stripSign value in
        if int (length value) - 1 > go_div (width - 1) 8 then
          Inl (Errorf ''value exceeds int<%d>: %w'' [AInt width, AErr (Sentinel ErrInvalidBitWidth)])
        else
          let sign = (if hd value AND 0x80 \<noteq> 0 then 0xff else 0);
              remaining = width - (int (length value) - 1) * 8
          in if 9 - LeadingZeros8 (hd value XOR sign) > remaining then
               Inl (Errorf ''value exceeds int<%d>: %w'' [AInt width, AErr (Sentinel ErrInvalidBitWidth)])
             else Inr value)"

subsection \<open>Unsigned values\<close>

interpretation ureg: canonical_codec unsignedBytes be_nat canonical "\<lambda>w. 0 \<le> w \<and> (w = 0 \<or> uwidth_ok w)" ufits
proof unfold_locales
  fix w b assume w: "0 \<le> w \<and> (w = 0 \<or> uwidth_ok w)"
  show "isOk (unsignedBytes b w) \<longleftrightarrow> ufits w (be_nat b)"
  proof (cases "w = 0")
    case True
    then show ?thesis by (auto simp: unsignedBytes_def be_nat_eq_0_iff list_ex_iff)
  next
    case False
    then show ?thesis using w ubytes.encode_ok [of w b] by (simp add: unsignedBytes_def)
  qed
next
  fix b w c assume c: "unsignedBytes b w = Inr c"
  then show "be_nat c = be_nat b"
    using be_nat_eq_0_iff [of b] by (auto simp: unsignedBytes_def list_ex_iff intro: ubytes.encode_val split: if_splits)
  show "canonical c"
    using c by (auto simp: unsignedBytes_def canonical_def [of "[0]"] intro: ubytes.encode_canon split: if_splits)
qed (rule canonical_inj)

subsection \<open>Two's complement\<close>

definition signed_byte :: "byte \<Rightarrow> int" where
  "signed_byte a = (if unat a < 128 then int (unat a) else int (unat a) - 256)"

text \<open>The value of a big-endian two's complement byte string; the empty one is zero.\<close>

fun tc_int :: "bytes \<Rightarrow> int" where
  "tc_int [] = 0"
| "tc_int (a # rest) = signed_byte a * 256 ^ length rest + int (be_nat rest)"

text \<open>Shortest: no redundant sign byte.\<close>

fun tc_canonical :: "bytes \<Rightarrow> bool" where
  "tc_canonical [] = False"
| "tc_canonical [a] = True"
| "tc_canonical (a # b # rest) = (\<not> (a = 0 \<and> unat b < 128) \<and> \<not> (a = 0xff \<and> 128 \<le> unat b))"

abbreviation tc_fits :: "int \<Rightarrow> int \<Rightarrow> bool" where
  "tc_fits w v \<equiv> - (2 ^ nat (w - 1)) \<le> v \<and> v < 2 ^ nat (w - 1)"

lemma sign_bit: "(b :: byte) AND 0x80 \<noteq> 0 \<longleftrightarrow> 128 \<le> unat b"
proof -
  have "b AND 0x80 \<noteq> 0 \<longleftrightarrow> bit b 7"
    using and_exp_eq_0_iff_not_bit [of b 7] by simp
  also have "\<dots> \<longleftrightarrow> bit (unat b) 7" by (simp add: bit_unsigned_iff)
  also have "\<dots> \<longleftrightarrow> odd (unat b div 128)" by (simp add: bit_iff_odd)
  also have "unat b div 128 = (if unat b < 128 then 0 else 1)" using unat_byte [of b] by (auto intro!: div_nat_eqI)
  finally show ?thesis by (auto split: if_splits)
qed

lemma xor_sign: "unat ((a :: byte) XOR (if a AND 0x80 \<noteq> 0 then 0xff else 0)) = (if unat a < 128 then unat a else 255 - unat a)"
proof -
  have "unat (a XOR 0xff) = 255 - unat a"
  proof -
    have m: "(0xff :: byte) = - 1" by simp
    then have "a XOR 0xff = - 1 - a" by (simp only: bit.xor_one_right not_eq_complement) simp
    moreover have "unat (- 1 - a) = unat (- 1 :: byte) - unat a" by (rule unat_sub) simp
    moreover have "unat (- 1 :: byte) = 255" unfolding m [symmetric] by simp
    ultimately show ?thesis by simp
  qed
  then show ?thesis by (auto simp: sign_bit not_le)
qed

lemma signed_byte_range: "- 128 \<le> signed_byte a \<and> signed_byte a < 128"
proof -
  obtain n where "unat a = n" "n < 256" using unat_byte [of a] by blast
  then show ?thesis by (simp add: signed_byte_def)
qed

lemma be_nat_bounds: "0 \<le> int (be_nat bs)" "int (be_nat bs) < 256 ^ length bs"
  using be_nat_less [of bs] by (simp_all add: of_nat_less_iff [symmetric] del: of_nat_less_iff)

text \<open>The sign byte decides the range: a byte string with \<open>n\<close> bytes after the first is in the range of
  \<open>8 n + m + 1\<close> bits exactly when the first byte is in the range of \<open>m + 1\<close> bits.\<close>

lemma tc_int_range:
  "- (2 ^ m * 256 ^ length rest) \<le> tc_int (a # rest) \<longleftrightarrow> - (2 ^ m) \<le> signed_byte a"
  "tc_int (a # rest) < 2 ^ m * 256 ^ length rest \<longleftrightarrow> signed_byte a < 2 ^ m"
proof -
  let ?p = "256 ^ length rest :: int" and ?s = "signed_byte a"
  have p: "0 < ?p" by simp
  have r: "0 \<le> int (be_nat rest)" "int (be_nat rest) < ?p" by (rule be_nat_bounds)+
  have lower: "- k * ?p \<le> ?s * ?p + int (be_nat rest) \<longleftrightarrow> - k \<le> ?s" for k :: int
  proof
    assume "- k \<le> ?s"
    then have "- k * ?p \<le> ?s * ?p" by (rule mult_right_mono) simp
    with r show "- k * ?p \<le> ?s * ?p + int (be_nat rest)" by linarith
  next
    assume a: "- k * ?p \<le> ?s * ?p + int (be_nat rest)"
    have "(?s + 1) * ?p = ?s * ?p + ?p" by (simp add: distrib_right)
    then have "- k * ?p < (?s + 1) * ?p" using a r by linarith
    then show "- k \<le> ?s" using p by (simp only: mult_less_cancel_right_pos)
  qed
  have upper: "?s * ?p + int (be_nat rest) < k * ?p \<longleftrightarrow> ?s < k" for k :: int
    using lower [of "- k"] by (simp add: not_le [symmetric] del: not_le) 
  show "- (2 ^ m * ?p) \<le> tc_int (a # rest) \<longleftrightarrow> - (2 ^ m) \<le> ?s" using lower [of "2 ^ m"] by simp
  show "tc_int (a # rest) < 2 ^ m * ?p \<longleftrightarrow> ?s < 2 ^ m" using upper [of "2 ^ m"] by simp
qed


subsection \<open>Dropping sign bytes\<close>

lemma redundant_sign:
  "((a = 0 \<and> b AND 0x80 = 0) \<or> (a = 0xff \<and> b AND 0x80 \<noteq> 0)) \<longleftrightarrow>
     ((a = 0 \<and> unat (b :: byte) < 128) \<or> (a = 0xff \<and> 128 \<le> unat b))"
  using sign_bit [of b] by auto

lemma signed_byte_const [simp]: "signed_byte 0 = 0" "signed_byte 0xff = - 1"
proof -
  have "unat (0xff :: byte) = 255" by simp
  then show "signed_byte 0xff = - 1" unfolding signed_byte_def by presburger
qed (simp add: signed_byte_def)

lemma tc_int_redundant:
  "(a = 0 \<and> unat b < 128) \<or> (a = 0xff \<and> 128 \<le> unat b) \<Longrightarrow> tc_int (a # b # rest) = tc_int (b # rest)"
  by (auto simp: signed_byte_def [of b] be_nat_Cons algebra_simps)

lemma stripSign_val: "tc_int (stripSign bs) = tc_int bs"
proof (induction bs rule: stripSign.induct)
  case (1 a b rest)
  then show ?case using tc_int_redundant [of a b rest]
    by (simp add: redundant_sign del: tc_int.simps)
qed simp_all

lemma stripSign_canonical: "bs \<noteq> [] \<Longrightarrow> tc_canonical (stripSign bs)"
proof (induction bs rule: stripSign.induct)
  case (1 a b rest)
  then show ?case by (auto simp: redundant_sign)
qed simp_all

text \<open>A shortest byte string does not fit into one byte less.\<close>

lemma tc_canonical_range:
  assumes "tc_canonical (a # b # rest)"
  shows "\<not> (- (2 ^ 7 * 256 ^ length rest) \<le> tc_int (a # b # rest) \<and> tc_int (a # b # rest) < 2 ^ 7 * 256 ^ length rest)"
proof
  assume r: "- (2 ^ 7 * 256 ^ length rest) \<le> tc_int (a # b # rest) \<and> tc_int (a # b # rest) < 2 ^ 7 * 256 ^ length rest"
  have "2 ^ 7 * 256 ^ length rest \<le> (256 :: int) ^ length (b # rest)" by simp
  with r have "- (256 ^ length (b # rest)) \<le> tc_int (a # b # rest)" "tc_int (a # b # rest) < 256 ^ length (b # rest)"
    by linarith+
  then have s: "- 1 \<le> signed_byte a" "signed_byte a < 1"
    using tc_int_range [where m = 0 and rest = "b # rest" and a = a] by (simp_all only: power_0 mult_1_left)
  obtain n m where n: "unat a = n" "n < 256" "unat b = m" "m < 256" using unat_byte by blast
  from s have "n = 0 \<or> n = 255" using n by (auto simp: signed_byte_def split: if_splits)
  then consider "n = 0" "128 \<le> m" | "n = 255" "m < 128"
    using assms n by (auto simp: word_unat_eq_iff)
  then show False
  proof cases
    case 1
    then have "128 * 256 ^ length rest \<le> int m * (256 :: int) ^ length rest" by (intro mult_right_mono) auto
    with 1 r n be_nat_bounds(1) [of rest] show False by (simp add: signed_byte_def be_nat_Cons)
  next
    case 2
    then have "int m * (256 :: int) ^ length rest \<le> 127 * 256 ^ length rest" by (intro mult_right_mono) auto
    with 2 r n be_nat_bounds(2) [of rest] show False by (simp add: signed_byte_def be_nat_Cons)
  qed
qed


lemma tc_int_length:
  assumes "bs \<noteq> []"
  shows "- (2 ^ (8 * length bs - 1)) \<le> tc_int bs \<and> tc_int bs < 2 ^ (8 * length bs - 1)"
proof -
  obtain a rest where bs: "bs = a # rest" using assms by (cases bs) auto
  have "(2 :: int) ^ (8 * length bs - 1) = 2 ^ 7 * 256 ^ length rest"
    using bs by (simp add: power_add power_mult)
  then show ?thesis using tc_int_range [where m = 7 and rest = rest and a = a] signed_byte_range [of a] bs by simp
qed

text \<open>The shortest byte string of a value is unique: its length is determined by the value, and two
  byte strings of one length with the same value are equal.\<close>

lemma tc_canonical_length:
  assumes "tc_canonical as" "tc_canonical bs" "tc_int as = tc_int bs"
  shows "length as \<le> length bs"
proof (rule ccontr)
  assume less: "\<not> length as \<le> length bs"
  moreover have ne: "bs \<noteq> []" using assms(2) by auto
  ultimately obtain a b rest where as: "as = a # b # rest" by (cases as rule: tc_canonical.cases) (auto simp: Suc_le_eq)
  have "8 * length bs - 1 \<le> 8 * length (b # rest) - 1" using less as by simp
  then have "(2 :: int) ^ (8 * length bs - 1) \<le> 2 ^ (8 * length (b # rest) - 1)" by (rule power_increasing) simp
  also have "\<dots> = 2 ^ 7 * 256 ^ length rest"
    by (simp add: power_add power_mult)
  finally show False using tc_canonical_range [of a b rest] tc_int_length [OF ne] assms(1,3) as by (simp del: tc_int.simps)
qed

lemma tc_int_inj_length:
  assumes "length as = length bs" "tc_int as = tc_int bs"
  shows "as = bs"
proof (cases as; cases bs)
  fix a as' b bs' assume ab: "as = a # as'" "bs = b # bs'"
  then have l: "length as' = length bs'" using assms(1) by simp
  have d: "tc_int (c # cs) div 256 ^ length cs = signed_byte c" "tc_int (c # cs) mod 256 ^ length cs = int (be_nat cs)" for c cs
    using be_nat_bounds [of cs] by simp_all
  have "signed_byte a = signed_byte b" "be_nat as' = be_nat bs'"
    using d [of a as'] d [of b bs'] assms(2) ab l by (metis, metis of_nat_eq_iff)
  moreover have "unat a = unat b" if "signed_byte a = signed_byte b"
  proof -
    obtain n m where n: "unat a = n" "n < 256" "unat b = m" "m < 256" using unat_byte by blast
    then show ?thesis using that by (auto simp: signed_byte_def split: if_splits)
  qed
  ultimately show ?thesis using ab be_nat_inj_length [OF l] by (simp add: word_unat_eq_iff)
qed (use assms in auto)

lemma tc_canonical_inj: "tc_canonical as \<Longrightarrow> tc_canonical bs \<Longrightarrow> tc_int as = tc_int bs \<Longrightarrow> as = bs"
  by (intro tc_int_inj_length antisym tc_canonical_length) simp_all

subsection \<open>The signed codec\<close>

lemma tc_width:
  assumes "0 < w" "tc_canonical (a # rest)" "\<not> int (length rest) \<le> (w - 1) div 8"
  shows "\<not> tc_fits w (tc_int (a # rest))"
proof -
  obtain b rest' where r: "rest = b # rest'" using assms(1,3) by (cases rest) auto
  have "nat (w - 1) \<le> 8 * length rest' + 7" using assms(1,3) r by simp
  then have "(2 :: int) ^ nat (w - 1) \<le> 2 ^ (8 * length rest' + 7)" by (rule power_increasing) simp
  also have "\<dots> = 2 ^ 7 * 256 ^ length rest'" by (simp add: power_add power_mult)
  finally have p: "(2 :: int) ^ nat (w - 1) \<le> 2 ^ 7 * 256 ^ length rest'" .
  have "tc_canonical (a # b # rest')" using assms(2) r by simp
  from tc_canonical_range [OF this] p show ?thesis unfolding r by linarith
qed

lemma tc_first_byte:
  assumes "0 < w" "int (length rest) \<le> (w - 1) div 8"
  shows "tc_fits w (tc_int (a # rest)) \<longleftrightarrow>
    9 - LeadingZeros8 (a XOR (if a AND 0x80 \<noteq> 0 then 0xff else 0)) \<le> w - int (length rest) * 8"
proof -
  define m where "m = nat (w - 1) - 8 * length rest"
  have m: "nat (w - 1) = m + 8 * length rest" "w - int (length rest) * 8 = int m + 1" using assms by (simp_all add: m_def)
  have "(2 :: int) ^ nat (w - 1) = 2 ^ m * 256 ^ length rest" by (simp add: m power_add power_mult)
  then have "tc_fits w (tc_int (a # rest)) \<longleftrightarrow> - (2 ^ m) \<le> signed_byte a \<and> signed_byte a < 2 ^ m"
    by (simp only: tc_int_range)
  also have "\<dots> \<longleftrightarrow> (if unat a < 128 then unat a else 255 - unat a) < 2 ^ m"
  proof -
    obtain n where n: "unat a = n" "n < 256" using unat_byte by blast
    have "int n < 2 ^ m \<longleftrightarrow> n < 2 ^ m" "int (255 - n) < 2 ^ m \<longleftrightarrow> 255 - n < 2 ^ m"
      by (simp_all add: of_nat_less_iff [symmetric] del: of_nat_less_iff)
    moreover have "- (2 ^ m) \<le> int n" "int n - 256 < 2 ^ m" using n(2) zero_less_power [of "2 :: int" m] by linarith+
    ultimately show ?thesis using n by (auto simp: signed_byte_def of_nat_diff)
  qed
  also have "\<dots> \<longleftrightarrow> 9 - LeadingZeros8 (a XOR (if a AND 0x80 \<noteq> 0 then 0xff else 0)) \<le> int m + 1"
    by (simp add: LeadingZeros8_def xor_sign bitLen_le_iff)
  finally show ?thesis by (simp add: m)
qed

lemma signedBytes_ok:
  assumes "0 < w" "bs \<noteq> []"
  shows "signedBytes bs w = Inr c \<longleftrightarrow> c = stripSign bs \<and> tc_fits w (tc_int bs)"
proof -
  obtain a rest where s: "stripSign bs = a # rest" using stripSign_canonical [OF assms(2)] by (cases "stripSign bs") auto
  have c: "tc_canonical (a # rest)" "tc_int (a # rest) = tc_int bs" using stripSign_canonical stripSign_val assms(2) s by metis+
  have "go_div (w - 1) 8 = (w - 1) div 8" using assms(1) by (simp add: go_div_nonneg)
  then show ?thesis using assms tc_width [OF assms(1) c(1)] tc_first_byte [OF assms(1), of rest a] s
    unfolding c(2) by (auto simp: signedBytes_def Let_def simp del: tc_int.simps)
qed

interpretation sreg: canonical_codec signedBytes tc_int tc_canonical "\<lambda>w. 0 < w" tc_fits
proof unfold_locales
  fix w :: int and b assume "0 < w"
  then show "isOk (signedBytes b w) \<longleftrightarrow> tc_fits w (tc_int b)"
    by (cases "b = []") (auto simp: isOk_iff signedBytes_ok, simp add: signedBytes_def)
next
  fix b w c assume "signedBytes b w = Inr c"
  then have "0 < w" "b = [] \<Longrightarrow> c = [0]" "b \<noteq> [] \<Longrightarrow> c = stripSign b"
    by (auto simp: signedBytes_def Let_def split: if_splits)
  then show "tc_int c = tc_int b" "tc_canonical c" using stripSign_val stripSign_canonical by (cases "b = []"; simp)+
qed (rule tc_canonical_inj)

subsection \<open>Properties\<close>

text \<open>C35. Integers of registers: for every \<open>int<W>\<close> with positive width, \<open>signedBytes\<close> accepts exactly the
  two's complement byte strings whose value lies in the range of \<open>W\<close> bits and returns the unique
  shortest byte string of that value; for every \<open>bit<W>\<close>, width zero included, \<open>unsignedBytes\<close> does
  the same for the unsigned value. Every rejection, non-positive widths included, is
  \<open>ErrInvalidBitWidth\<close>.\<close>

theorem register_integers_correct:
  shows "(0 < w \<longrightarrow> (signedBytes b w = Inr c \<longleftrightarrow>
            - (2 ^ nat (w - 1)) \<le> tc_int b \<and> tc_int b < 2 ^ nat (w - 1) \<and> tc_canonical c \<and> tc_int c = tc_int b)) \<and>
         (0 \<le> w \<and> w < 2 ^ 31 \<longrightarrow> (unsignedBytes b w = Inr c \<longleftrightarrow> be_nat b < 2 ^ nat w \<and> canonical c \<and> be_nat c = be_nat b)) \<and>
         (signedBytes b w = Inl e \<or> unsignedBytes b w = Inl e \<longrightarrow> errors_Is fe e ErrInvalidBitWidth)"
proof (intro conjI impI)
  assume "0 < w"
  then show "signedBytes b w = Inr c \<longleftrightarrow>
      - (2 ^ nat (w - 1)) \<le> tc_int b \<and> tc_int b < 2 ^ nat (w - 1) \<and> tc_canonical c \<and> tc_int c = tc_int b"
    using sreg.encode_Inr_iff [of w b c] by simp
next
  assume "0 \<le> w \<and> w < 2 ^ 31"
  then have "0 \<le> w \<and> (w = 0 \<or> uwidth_ok w)" by auto
  then show "unsignedBytes b w = Inr c \<longleftrightarrow> be_nat b < 2 ^ nat w \<and> canonical c \<and> be_nat c = be_nat b"
    using ureg.encode_Inr_iff [of w b c] by simp
next
  assume "signedBytes b w = Inl e \<or> unsignedBytes b w = Inl e"
  then show "errors_Is fe e ErrInvalidBitWidth"
    using EncodeBytes_error [of w b e fe]
    by (auto simp: signedBytes_def unsignedBytes_def Let_def errors_Is_Errorf_iff split: if_splits)
qed

theorem register_integers_correct_witness:
  "signedBytes [0xff, 0xff, 0x80] 8 = Inr [0x80] \<and> unsignedBytes [0, 7] 3 = Inr [7]"
proof -
  have "signedBytes [0xff, 0xff, 0x80] 8 = Inr [0x80] \<longleftrightarrow>
      - (2 ^ nat (8 - 1)) \<le> tc_int [0xff, 0xff, 0x80] \<and> tc_int [0xff, 0xff, 0x80] < 2 ^ nat (8 - 1) \<and>
      tc_canonical [0x80] \<and> tc_int [0x80] = tc_int [0xff, 0xff, 0x80]"
    using register_integers_correct [of 8 "[0xff, 0xff, 0x80]" "[0x80]" undefined undefined] by simp
  moreover have "unsignedBytes [0, 7] 3 = Inr [7] \<longleftrightarrow> be_nat [0, 7] < 2 ^ nat 3 \<and> canonical [7] \<and> be_nat [7] = be_nat [0, 7]"
    using register_integers_correct [of 3 "[0, 7]" "[7]" undefined undefined] by simp
  ultimately show ?thesis by (simp add: signed_byte_def be_nat_def canonical_def)
qed

end
