(* ===== verification/Register_Data.thy ===== *)
theory Register_Data
  imports P4_Messages Register_Numeric
begin

text \<open>
  Normalization of register data (src/register/data.go and src/register/headers.go): a \<open>P4Data\<close> value
  is checked against the type specification of the register and the type declarations of the P4Info,
  and copied with its integers in shortest form.

  The methods of \<^verbatim>\<open>dataNormalizer\<close> share two fields: \<open>types\<close>, which never changes, and the set \<open>active\<close>
  of the type specifications being expanded, compared by address. \<open>normalizeData\<close> adds its specification
  before it descends and removes it on return, so the set is a parameter here. The methods that call
  \<open>normalizeData\<close> back take it as an argument; congruence rules say on which arguments they call it. The
  message graph check of the pipeline rules out typed nil pointers in oneofs, so a missing oneof is
  \<open>None\<close>.
\<close>

subsection \<open>Declarations\<close>

definition declOf :: "(P4TypeInfo \<Rightarrow> string \<rightharpoonup> 'd) \<Rightarrow> P4TypeInfo option \<Rightarrow> string \<rightharpoonup> 'd" where
  "declOf field types name = (case types of None \<Rightarrow> None | Some t \<Rightarrow> field t name)"

abbreviation newTypeDecl :: "P4TypeInfo option \<Rightarrow> string \<rightharpoonup> P4NewTypeRep option" where
  "newTypeDecl \<equiv> declOf (\<lambda>t. map_of (type_new_types t))"

text \<open>The getters of the oneof.\<close>

definition GetVarbit :: "P4Data \<Rightarrow> P4Varbit option" where
  "GetVarbit d = (case data_oneof d of Some (D_Varbit v) \<Rightarrow> v | _ \<Rightarrow> None)"
definition GetTuple :: "P4Data \<Rightarrow> P4StructLike option" where
  "GetTuple d = (case data_oneof d of Some (D_Tuple v) \<Rightarrow> v | _ \<Rightarrow> None)"
definition GetStruct :: "P4Data \<Rightarrow> P4StructLike option" where
  "GetStruct d = (case data_oneof d of Some (D_Struct v) \<Rightarrow> v | _ \<Rightarrow> None)"
definition GetHeader :: "P4Data \<Rightarrow> P4Header option" where
  "GetHeader d = (case data_oneof d of Some (D_Header v) \<Rightarrow> v | _ \<Rightarrow> None)"
definition GetHeaderUnion :: "P4Data \<Rightarrow> P4HeaderUnion option" where
  "GetHeaderUnion d = (case data_oneof d of Some (D_HeaderUnion v) \<Rightarrow> v | _ \<Rightarrow> None)"
definition GetHeaderStack :: "P4Data \<Rightarrow> P4HeaderStack option" where
  "GetHeaderStack d = (case data_oneof d of Some (D_HeaderStack v) \<Rightarrow> v | _ \<Rightarrow> None)"
definition GetHeaderUnionStack :: "P4Data \<Rightarrow> P4HeaderUnionStack option" where
  "GetHeaderUnionStack d = (case data_oneof d of Some (D_HeaderUnionStack v) \<Rightarrow> v | _ \<Rightarrow> None)"
definition GetBitstring :: "P4Data \<Rightarrow> bytes" where
  "GetBitstring d = (case data_oneof d of Some (D_Bitstring v) \<Rightarrow> v | _ \<Rightarrow> [])"

text \<open>\<open>out\<close> with its data and the unknown fields of \<open>value\<close> (\<open>copyUnknown\<close>).\<close>

definition copyOut :: "P4Data \<Rightarrow> P4DataValue \<Rightarrow> P4Data" where
  "copyOut value v = P4Data (Some v) (data_unknown value)"

subsection \<open>Bit strings\<close>

definition bitstring :: "P4BitstringLikeTypeSpec option \<Rightarrow> P4Data \<Rightarrow> bool \<Rightarrow> goerr + P4Data" where
  "bitstring spec value integerOnly =
     (case Option.bind spec id of
        None \<Rightarrow> Inl (Errorf ''missing bitstring type declaration'' [])
      | Some (BS_Varbit decl) \<Rightarrow>
          if integerOnly then Inl (Errorf ''Write requires bit<W> or int<W>, use WriteData for varbit'' [])
          else (case (GetVarbit value, decl) of
              (Some v, Some mx) \<Rightarrow>
                if vb_Bitwidth v < 0 \<or> vb_Bitwidth v > mx then
                  Inl (Errorf ''expected P4Data.varbit with bitwidth in [0, %d]'' [AInt mx])
                else if int (length (vb_Bitstring v)) \<noteq> (vb_Bitwidth v + 7) div 8 then
                  Inl (Errorf ''varbit bitwidth %d requires %d bytes'' [AInt (vb_Bitwidth v), AInt ((vb_Bitwidth v + 7) div 8)])
                else
                  bindE (mapErr (\<lambda>e. Errorf ''varbit: %w'' [AErr e]) (unsignedBytes (vb_Bitstring v) (vb_Bitwidth v))) (\<lambda>_.
                  Inr (copyOut value (D_Varbit (Some v))))
            | _ \<Rightarrow> Inl (Errorf ''expected P4Data.varbit with bitwidth in [0, %d]'' [AInt (case decl of None \<Rightarrow> 0 | Some mx \<Rightarrow> mx)]))
      | Some ty \<Rightarrow>
          (case data_oneof value of
             Some (D_Bitstring v) \<Rightarrow>
               bindE (case ty of
                   BS_Bit (Some w) \<Rightarrow> unsignedBytes v w
                 | BS_Int (Some w) \<Rightarrow> signedBytes v w
                 | BS_Bit None \<Rightarrow> Inl (Errorf ''missing bit type declaration'' [])
                 | _ \<Rightarrow> Inl (Errorf ''missing int type declaration'' [])) (\<lambda>encoded.
               Inr (copyOut value (D_Bitstring encoded)))
           | _ \<Rightarrow> Inl (Errorf ''expected P4Data.bitstring'' [])))"

subsection \<open>Headers\<close>

definition headerField :: "string \<Rightarrow> nat \<Rightarrow> P4BitstringLikeTypeSpec option \<times> bytes \<Rightarrow> goerr + bytes" where
  "headerField name i m =
     (case m of (spec, b) \<Rightarrow>
        (case spec of
           Some (Some (BS_Varbit _)) \<Rightarrow>
             Inl (Errorf ''header %q field %d: varbit has no explicit bitwidth in P4Header'' [AStr name, AInt (int i)])
         | _ \<Rightarrow>
             bindE (mapErr (\<lambda>e. Errorf ''header %q field %d: %w'' [AStr name, AInt (int i), AErr e])
                      (bitstring spec (P4Data (Some (D_Bitstring b)) []) True)) (\<lambda>d.
             Inr (GetBitstring d))))"

definition header :: "P4TypeInfo option \<Rightarrow> string \<Rightarrow> P4Header option \<Rightarrow> goerr + P4Header" where
  "header types name value =
     (case (if name = '''' then None else declOf type_headers types name) of
        None \<Rightarrow> Inl (Errorf ''unknown header type %q'' [AStr name])
      | Some members \<Rightarrow>
          (case value of
             None \<Rightarrow> Inl (Errorf ''expected P4Data.header for %q'' [AStr name])
           | Some v \<Rightarrow>
               if \<not> hd_IsValid v \<and> length (hd_Bitstrings v) \<noteq> 0 then
                 Inl (Errorf ''invalid header %q must have no fields'' [AStr name])
               else if hd_IsValid v then
                 (if length (hd_Bitstrings v) \<noteq> length members then
                    Inl (Errorf ''header %q requires %d fields'' [AStr name, AInt (int (length members))])
                  else bindE (mapE_idx (headerField name) (zip members (hd_Bitstrings v))) (\<lambda>bs.
                    Inr (v\<lparr>hd_Bitstrings := bs\<rparr>)))
               else Inr (v\<lparr>hd_Bitstrings := []\<rparr>)))"

text \<open>The header that a member of the union names: the first declared member with that name, and the
  empty name if there is none.\<close>

definition unionHeader :: "(string \<times> string) list \<Rightarrow> string \<Rightarrow> string" where
  "unionHeader members name = (case map_of members name of None \<Rightarrow> '''' | Some h \<Rightarrow> h)"

definition headerUnion :: "P4TypeInfo option \<Rightarrow> string \<Rightarrow> P4HeaderUnion option \<Rightarrow> goerr + P4HeaderUnion" where
  "headerUnion types name value =
     (case (if name = '''' then None else declOf type_header_unions types name) of
        None \<Rightarrow> Inl (Errorf ''unknown header union type %q'' [AStr name])
      | Some members \<Rightarrow>
          (case value of
             None \<Rightarrow> Inl (Errorf ''expected P4Data.header_union for %q'' [AStr name])
           | Some v \<Rightarrow>
               if hu_ValidHeaderName v = '''' then
                 (if hu_ValidHeader v \<noteq> None then Inl (Errorf ''invalid header union %q must have no valid_header'' [AStr name])
                  else Inr (v\<lparr>hu_ValidHeader := None\<rparr>))
               else
                 let headerName = unionHeader members (hu_ValidHeaderName v) in
                 if headerName = '''' \<or> \<not> (case hu_ValidHeader v of None \<Rightarrow> False | Some h \<Rightarrow> hd_IsValid h) then
                   Inl (Errorf ''header union %q requires a valid declared header %q'' [AStr name, AStr (hu_ValidHeaderName v)])
                 else bindE (header types headerName (hu_ValidHeader v)) (\<lambda>h.
                   Inr (v\<lparr>hu_ValidHeader := Some h\<rparr>))))"

text \<open>The two stacks: the size and the element type come from the specification \<open>(name, size)\<close>.\<close>

definition headerStack :: "P4TypeInfo option \<Rightarrow> (string \<times> int) option \<Rightarrow> P4HeaderStack option \<Rightarrow> goerr + P4HeaderStack" where
  "headerStack types spec value =
     (case (spec, value) of
        (Some (name, sz), Some v) \<Rightarrow>
          if sz < 0 \<or> int (length (hs_Entries v)) \<noteq> sz then
            Inl (Errorf ''expected P4Data.header_stack with %d entries'' [AInt sz])
          else if name = '''' \<or> declOf type_headers types name = None then
            Inl (Errorf ''unknown header type %q'' [AStr name])
          else bindE (mapE_idx (\<lambda>i entry. mapErr (\<lambda>e. Errorf ''header stack entry %d: %w'' [AInt (int i), AErr e])
                          (map_sum id Some (header types name entry))) (hs_Entries v)) (\<lambda>es.
            Inr (v\<lparr>hs_Entries := es\<rparr>))
      | _ \<Rightarrow> Inl (Errorf ''expected P4Data.header_stack with %d entries'' [AInt (case spec of None \<Rightarrow> 0 | Some (_, sz) \<Rightarrow> sz)]))"

definition headerUnionStack :: "P4TypeInfo option \<Rightarrow> (string \<times> int) option \<Rightarrow> P4HeaderUnionStack option \<Rightarrow>
    goerr + P4HeaderUnionStack" where
  "headerUnionStack types spec value =
     (case (spec, value) of
        (Some (name, sz), Some v) \<Rightarrow>
          if sz < 0 \<or> int (length (hus_Entries v)) \<noteq> sz then
            Inl (Errorf ''expected P4Data.header_union_stack with %d entries'' [AInt sz])
          else if name = '''' \<or> declOf type_header_unions types name = None then
            Inl (Errorf ''unknown header union type %q'' [AStr name])
          else bindE (mapE_idx (\<lambda>i entry. mapErr (\<lambda>e. Errorf ''header union stack entry %d: %w'' [AInt (int i), AErr e])
                          (map_sum id Some (headerUnion types name entry))) (hus_Entries v)) (\<lambda>es.
            Inr (v\<lparr>hus_Entries := es\<rparr>))
      | _ \<Rightarrow> Inl (Errorf ''expected P4Data.header_union_stack with %d entries'' [AInt (case spec of None \<Rightarrow> 0 | Some (_, sz) \<Rightarrow> sz)]))"

subsection \<open>Members and new types\<close>

definition members :: "(P4DataTypeSpec option \<Rightarrow> P4Data option \<Rightarrow> goerr + P4Data) \<Rightarrow> P4DataTypeSpec option list \<Rightarrow>
    P4StructLike option \<Rightarrow> goerr + P4StructLike" where
  "members norm specs value =
     (case value of
        Some v \<Rightarrow>
          if length (sl_Members v) \<noteq> length specs then Inl (Errorf ''expected %d members'' [AInt (int (length specs))])
          else bindE (mapE_idx (\<lambda>i (spec, d). mapErr (\<lambda>e. Errorf ''member %d: %w'' [AInt (int i), AErr e])
                          (map_sum id Some (norm spec d))) (zip specs (sl_Members v))) (\<lambda>ds.
            Inr (P4StructLike ds (sl_unknown v)))
      | None \<Rightarrow> Inl (Errorf ''expected %d members'' [AInt (int (length specs))]))"

lemma members_cong [fundef_cong]:
  assumes "specs = specs'" "value = value'"
    and "\<And>v spec d. value' = Some v \<Longrightarrow> d \<in> set (sl_Members v) \<Longrightarrow> f spec d = g spec d"
  shows "members f specs value = members g specs' value'"
proof (cases value')
  case (Some v)
  have "mapE_idx (\<lambda>i (spec, d). mapErr (w i) (map_sum id Some (f spec d))) (zip specs' (sl_Members v)) =
      mapE_idx (\<lambda>i (spec, d). mapErr (w i) (map_sum id Some (g spec d))) (zip specs' (sl_Members v))" for w :: "nat \<Rightarrow> goerr \<Rightarrow> goerr"
    using assms(3) [OF Some] by (intro mapE_idx_cong) (auto dest: set_zip_rightD)
  with Some assms(1,2) show ?thesis by (simp add: members_def)
qed (use assms in \<open>simp add: members_def\<close>)

definition newType :: "(P4DataTypeSpec option \<Rightarrow> goerr + P4Data) \<Rightarrow> P4TypeInfo option \<Rightarrow> string \<Rightarrow> P4Data \<Rightarrow> bool \<Rightarrow>
    goerr + P4Data" where
  "newType norm types name value integerOnly =
     (case (if name = '''' then None else Option.bind (newTypeDecl types name) id) of
        None \<Rightarrow> Inl (Errorf ''unknown new type %q'' [AStr name])
      | Some (OriginalType spec) \<Rightarrow> norm spec
      | Some (TranslatedType tr) \<Rightarrow>
          (case Option.bind tr id of
             None \<Rightarrow> Inl (Errorf ''missing translation for type %q'' [AStr name])
           | Some sdn \<Rightarrow>
               (case data_oneof value of
                  Some (D_Bitstring v) \<Rightarrow>
                    bindE (case sdn of
                        SdnString decl \<Rightarrow>
                          if decl = None \<or> integerOnly then Inl (Errorf ''use WriteData for translated string type %q'' [AStr name])
                          else Inr v
                      | SdnBitwidth w \<Rightarrow>
                          if w \<le> 0 then Inl (Errorf ''translated bitwidth %d must be positive'' [AInt w])
                          else mapErr (\<lambda>e. Errorf ''translated type %q: %w'' [AStr name, AErr e]) (unsignedBytes v w)) (\<lambda>encoded.
                    Inr (copyOut value (D_Bitstring encoded)))
                | _ \<Rightarrow> Inl (Errorf ''expected P4Data.bitstring for translated type %q'' [AStr name]))))"

lemma newType_cong [fundef_cong]:
  assumes "types = types'" "name = name'" "value = value'" "io = io'"
    and "\<And>spec. newTypeDecl types' name' = Some (Some (OriginalType spec)) \<Longrightarrow> f spec = g spec"
  shows "newType f types name value io = newType g types' name' value' io'"
  using assms by (auto simp: newType_def bind_eq_Some_conv split: option.splits P4NewTypeRep.splits)

subsection \<open>Normalization\<close>

text \<open>
  The recursion descends into the members of a value, or follows a new type to its original type
  with the same value. The second cannot go on for ever: the specification becomes active, and
  the specifications that new types lead to are those of the declarations.
\<close>

definition originalAddrs :: "P4TypeInfo option \<Rightarrow> nat set" where
  "originalAddrs types = (case types of None \<Rightarrow> {} | Some t \<Rightarrow>
     set (List.map_filter (\<lambda>(name, decl). case decl of Some (OriginalType (Some spec)) \<Rightarrow> Some (spec_addr spec) | _ \<Rightarrow> None)
       (type_new_types t)))"

text \<open>The cases of the type switch that do not call \<open>normalizeData\<close> back, and those that do.\<close>

definition normalizeFlat :: "P4TypeInfo option \<Rightarrow> P4TypeSpec \<Rightarrow> P4Data \<Rightarrow> P4DataValue \<Rightarrow> bool \<Rightarrow> goerr + P4Data" where
  "normalizeFlat types ts v d integerOnly =
     (case ts of
        TS_Bitstring bs \<Rightarrow> bitstring bs v integerOnly
      | TS_Bool decl \<Rightarrow>
          if decl = None then Inl (Errorf ''missing bool type declaration'' [])
          else (case d of
              D_Bool b \<Rightarrow> Inr (copyOut v (D_Bool b))
            | _ \<Rightarrow> Inl (Errorf ''expected P4Data.bool'' []))
      | TS_Header name \<Rightarrow> bindE (header types name (GetHeader v)) (\<lambda>h. Inr (copyOut v (D_Header (Some h))))
      | TS_HeaderUnion name \<Rightarrow>
          bindE (headerUnion types name (GetHeaderUnion v)) (\<lambda>u. Inr (copyOut v (D_HeaderUnion (Some u))))
      | TS_HeaderStack decl \<Rightarrow>
          bindE (headerStack types decl (GetHeaderStack v)) (\<lambda>u. Inr (copyOut v (D_HeaderStack (Some u))))
      | TS_HeaderUnionStack decl \<Rightarrow>
          bindE (headerUnionStack types decl (GetHeaderUnionStack v)) (\<lambda>u. Inr (copyOut v (D_HeaderUnionStack (Some u))))
      | TS_Enum name \<Rightarrow>
          (case (if name = '''' then None else declOf type_enums types name) of
             None \<Rightarrow> Inl (Errorf ''unknown enum type %q'' [AStr name])
           | Some ms \<Rightarrow>
               (case d of
                  D_Enum e \<Rightarrow>
                    if e \<noteq> '''' \<and> e \<in> set ms then Inr (copyOut v (D_Enum e))
                    else Inl (Errorf ''expected a declared P4Data.enum member of %q'' [AStr name])
                | _ \<Rightarrow> Inl (Errorf ''expected a declared P4Data.enum member of %q'' [AStr name])))
      | TS_Error decl \<Rightarrow>
          (case (decl, Option.bind types type_error, d) of
             (Some _, Some ms, D_Error e) \<Rightarrow>
               if e \<noteq> '''' \<and> e \<in> set ms then Inr (copyOut v (D_Error e))
               else Inl (Errorf ''expected a declared P4Data.error member'' [])
           | _ \<Rightarrow> Inl (Errorf ''expected a declared P4Data.error member'' []))
      | TS_SerializableEnum name \<Rightarrow>
          (case (if name = '''' then None else Option.bind (declOf type_serializable_enums types name) id) of
             None \<Rightarrow> Inl (Errorf ''unknown serializable enum type %q'' [AStr name])
           | Some w \<Rightarrow>
               (case d of
                  D_EnumValue b \<Rightarrow>
                    bindE (mapErr (\<lambda>e. Errorf ''enum %q: %w'' [AStr name, AErr e]) (unsignedBytes b w)) (\<lambda>encoded.
                    Inr (copyOut v (D_EnumValue encoded)))
                | _ \<Rightarrow> Inl (Errorf ''expected P4Data.enum_value for %q'' [AStr name])))
      | _ \<Rightarrow> Inl (Errorf ''unsupported P4Info type specification'' []))"

definition isBitstring :: "P4TypeSpec \<Rightarrow> bool" where
  "isBitstring ts = (case ts of TS_Bitstring _ \<Rightarrow> True | _ \<Rightarrow> False)"

definition needWriteData :: goerr where
  "needWriteData = Errorf ''Write requires bit<W> or int<W>, use WriteData for this type'' []"

function normalizeData :: "P4TypeInfo option \<Rightarrow> nat set \<Rightarrow> P4DataTypeSpec option \<Rightarrow> P4Data option \<Rightarrow> bool \<Rightarrow> goerr + P4Data" where
  "normalizeData types act None value integerOnly = Inl (Errorf ''missing P4Info type specification'' [])"
| "normalizeData types act (Some (P4DataTypeSpec a None)) value integerOnly =
     Inl (Errorf ''missing P4Info type specification'' [])"
| "normalizeData types act (Some (P4DataTypeSpec a (Some ts))) None integerOnly = Inl (Errorf ''missing P4Data value'' [])"
| "normalizeData types act (Some (P4DataTypeSpec a (Some ts))) (Some (P4Data None u)) integerOnly =
     Inl (Errorf ''missing P4Data value'' [])"
| "normalizeData types act (Some (P4DataTypeSpec a (Some ts))) (Some (P4Data (Some d) u)) integerOnly =
     (if a \<in> act then Inl (Errorf ''recursive P4Info type specification'' [])
      else
        let v = P4Data (Some d) u; act' = insert a act in
        (case ts of
           TS_NewType name \<Rightarrow> newType (\<lambda>sp. normalizeData types act' sp (Some v) integerOnly) types name v integerOnly
         | TS_Tuple decl \<Rightarrow>
             if integerOnly then Inl needWriteData
             else (case decl of
                None \<Rightarrow> Inl (Errorf ''missing tuple type declaration'' [])
              | Some specs \<Rightarrow>
                  bindE (mapErr (\<lambda>e. Errorf ''tuple: %w'' [AErr e])
                           (members (\<lambda>sp m. normalizeData types act' sp m False) specs (GetTuple v))) (\<lambda>ms.
                  Inr (copyOut v (D_Tuple (Some ms)))))
         | TS_Struct name \<Rightarrow>
             if integerOnly then Inl needWriteData
             else (case (if name = '''' then None else declOf type_structs types name) of
                None \<Rightarrow> Inl (Errorf ''unknown struct type %q'' [AStr name])
              | Some specs \<Rightarrow>
                  bindE (mapErr (\<lambda>e. Errorf ''struct %q: %w'' [AStr name, AErr e])
                           (members (\<lambda>sp m. normalizeData types act' sp m False) specs (GetStruct v))) (\<lambda>ms.
                  Inr (copyOut v (D_Struct (Some ms)))))
         | _ \<Rightarrow>
             if integerOnly \<and> \<not> isBitstring ts then Inl needWriteData
             else normalizeFlat types ts v d integerOnly))"
  by pat_completeness auto

abbreviation value_size :: "P4Data option \<Rightarrow> nat" where
  "value_size value \<equiv> (case value of None \<Rightarrow> 0 | Some v \<Rightarrow> size v)"

definition spec_measure :: "P4TypeInfo option \<Rightarrow> nat set \<Rightarrow> P4DataTypeSpec option \<Rightarrow> nat" where
  "spec_measure types act spec = card ((case spec of None \<Rightarrow> {} | Some sp \<Rightarrow> {spec_addr sp}) \<union> originalAddrs types - act)"

lemma finite_originalAddrs [simp]: "finite (originalAddrs types)"
  by (simp add: originalAddrs_def split: option.splits)

lemma newTypeDecl_original:
  assumes "newTypeDecl types name = Some (Some (OriginalType (Some sp)))"
  shows "spec_addr sp \<in> originalAddrs types"
proof -
  obtain t where t: "types = Some t" "map_of (type_new_types t) name = Some (Some (OriginalType (Some sp)))"
    using assms by (auto simp: declOf_def split: option.splits)
  then have "(name, Some (OriginalType (Some sp))) \<in> set (type_new_types t)" by (simp add: map_of_SomeD)
  then show ?thesis using t(1) by (force simp: originalAddrs_def List.map_filter_def)
qed

lemma spec_measure_newType:
  assumes "a \<notin> act" "newTypeDecl types name = Some (Some (OriginalType spec'))"
  shows "spec_measure types (insert a act) spec' < spec_measure types act (Some (P4DataTypeSpec a ts))"
proof -
  have "(case spec' of None \<Rightarrow> {} | Some s \<Rightarrow> {spec_addr s}) \<union> originalAddrs types = originalAddrs types"
    using newTypeDecl_original assms(2) by (cases spec') auto
  moreover have "card (originalAddrs types - insert a act) < card (insert a (originalAddrs types) - act)"
    using assms(1) by (intro psubset_card_mono) auto
  ultimately show ?thesis by (simp add: spec_measure_def)
qed

lemma member_size:
  assumes "GetTuple v = Some sl \<or> GetStruct v = Some sl" "m \<in> set (sl_Members sl)"
  shows "value_size m < size v"
proof -
  obtain ms u where sl: "sl = P4StructLike ms u" by (cases sl)
  have "value_size m \<le> size_list (size_option size) ms"
    using assms(2) sl by (intro size_list_estimation' [of m]) (auto split: option.splits)
  then show ?thesis using assms(1) sl
    by (cases v) (auto simp: GetTuple_def GetStruct_def split: option.splits P4DataValue.splits)
qed

termination normalizeData
  by (relation "measures [\<lambda>(types, act, spec, value, io). value_size value,
      \<lambda>(types, act, spec, value, io). spec_measure types act spec]")
    (auto simp: spec_measure_newType dest: member_size [OF disjI1] member_size [OF disjI2])

subsection \<open>Idempotence of the integer encodings\<close>

lemma EncodeBytes_idem: "EncodeBytes b w = Inr c \<Longrightarrow> EncodeBytes c w = Inr c"
proof -
  assume c: "EncodeBytes b w = Inr c"
  let ?d = "dropWhile (\<lambda>c. c = 0) b"
  have d: "dropWhile (\<lambda>c. c = 0) ?d = ?d" by (rule dropWhile_idem)
  from c consider "?d = []" "c = [0]" | "?d \<noteq> []" "c = ?d"
    by (auto simp: EncodeBytes_def Let_def split: if_splits)
  then show ?thesis using c d by cases (auto simp: EncodeBytes_def Let_def split: if_splits)
qed

lemma unsignedBytes_idem: "unsignedBytes b w = Inr c \<Longrightarrow> unsignedBytes c w = Inr c"
  by (auto simp: unsignedBytes_def intro: EncodeBytes_idem split: if_splits)

lemma signedBytes_idem: "signedBytes b w = Inr c \<Longrightarrow> signedBytes c w = Inr c"
proof -
  assume c: "signedBytes b w = Inr c"
  then have "0 < w" by (auto simp: signedBytes_def split: if_splits)
  with c show ?thesis using sreg.encode_idem by blast
qed

subsection \<open>The value of normalized data\<close>

text \<open>The shortest byte string of the same unsigned value, and of the same two's complement value.\<close>

definition unsigned_copy :: "bytes \<Rightarrow> bytes \<Rightarrow> bool" where
  "unsigned_copy b c \<longleftrightarrow> canonical c \<and> be_nat c = be_nat b"

definition signed_copy :: "bytes \<Rightarrow> bytes \<Rightarrow> bool" where
  "signed_copy b c \<longleftrightarrow> tc_canonical c \<and> tc_int c = tc_int b"

text \<open>An integer of a declared type \<^verbatim>\<open>bit<W>\<close> or \<^verbatim>\<open>int<W>\<close>; there is none of any other type.\<close>

fun integer_copy :: "P4BitstringLikeTypeSpec option \<Rightarrow> bytes \<Rightarrow> bytes \<Rightarrow> bool" where
  "integer_copy (Some (Some (BS_Bit (Some w)))) b c = unsigned_copy b c"
| "integer_copy (Some (Some (BS_Int (Some w)))) b c = signed_copy b c"
| "integer_copy _ b c = False"

text \<open>Headers and header unions of a declared type: an invalid one has no fields, a valid one has the declared fields.\<close>

definition header_copy :: "P4TypeInfo option \<Rightarrow> string \<Rightarrow> P4Header \<Rightarrow> P4Header \<Rightarrow> bool" where
  "header_copy types name h k \<longleftrightarrow> (\<exists>ms. declOf type_headers types name = Some ms \<and> hd_IsValid k = hd_IsValid h \<and> hd_unknown k = hd_unknown h \<and>
     (if hd_IsValid h then length (hd_Bitstrings h) = length ms \<and> length (hd_Bitstrings k) = length ms \<and>
        (\<forall>i<length ms. integer_copy (ms ! i) (hd_Bitstrings h ! i) (hd_Bitstrings k ! i))
      else hd_Bitstrings h = [] \<and> hd_Bitstrings k = []))"

definition union_copy :: "P4TypeInfo option \<Rightarrow> string \<Rightarrow> P4HeaderUnion \<Rightarrow> P4HeaderUnion \<Rightarrow> bool" where
  "union_copy types name h k \<longleftrightarrow> (\<exists>ms. declOf type_header_unions types name = Some ms \<and>
     hu_ValidHeaderName k = hu_ValidHeaderName h \<and> hu_unknown k = hu_unknown h \<and>
     (if hu_ValidHeaderName h = '''' then hu_ValidHeader h = None \<and> hu_ValidHeader k = None
      else \<exists>member x y. map_of ms (hu_ValidHeaderName h) = Some member \<and> hu_ValidHeader h = Some x \<and> hu_ValidHeader k = Some y \<and>
        hd_IsValid x \<and> header_copy types member x y))"

text \<open>
  The second value is the canonical copy of the first at a type, rule by rule over the types of the P4Info: integers in
  shortest form, everything else as it was. A new type is that of its original type, or of its translation.
\<close>

inductive data_copy :: "P4TypeInfo option \<Rightarrow> P4DataTypeSpec option \<Rightarrow> P4Data \<Rightarrow> P4Data \<Rightarrow> bool" for types where
  copy_integer: "integer_copy bs b c \<Longrightarrow>
    data_copy types (Some (P4DataTypeSpec a (Some (TS_Bitstring bs)))) (P4Data (Some (D_Bitstring b)) u) (P4Data (Some (D_Bitstring c)) u)"
| copy_varbit: "vb_Bitwidth v \<le> mx \<Longrightarrow> int (length (vb_Bitstring v)) = (vb_Bitwidth v + 7) div 8 \<Longrightarrow>
    data_copy types (Some (P4DataTypeSpec a (Some (TS_Bitstring (Some (Some (BS_Varbit (Some mx))))))))
      (P4Data (Some (D_Varbit (Some v))) u) (P4Data (Some (D_Varbit (Some v))) u)"
| copy_bool: "data_copy types (Some (P4DataTypeSpec a (Some (TS_Bool (Some ()))))) (P4Data (Some (D_Bool x)) u) (P4Data (Some (D_Bool x)) u)"
| copy_enum: "declOf type_enums types name = Some ms \<Longrightarrow> e \<in> set ms \<Longrightarrow>
    data_copy types (Some (P4DataTypeSpec a (Some (TS_Enum name)))) (P4Data (Some (D_Enum e)) u) (P4Data (Some (D_Enum e)) u)"
| copy_error: "Option.bind types type_error = Some ms \<Longrightarrow> e \<in> set ms \<Longrightarrow>
    data_copy types (Some (P4DataTypeSpec a (Some (TS_Error decl)))) (P4Data (Some (D_Error e)) u) (P4Data (Some (D_Error e)) u)"
| copy_enum_value: "declOf type_serializable_enums types name = Some (Some w) \<Longrightarrow> unsigned_copy b c \<Longrightarrow>
    data_copy types (Some (P4DataTypeSpec a (Some (TS_SerializableEnum name)))) (P4Data (Some (D_EnumValue b)) u) (P4Data (Some (D_EnumValue c)) u)"
| copy_header: "header_copy types name h k \<Longrightarrow>
    data_copy types (Some (P4DataTypeSpec a (Some (TS_Header name)))) (P4Data (Some (D_Header (Some h))) u) (P4Data (Some (D_Header (Some k))) u)"
| copy_union: "union_copy types name h k \<Longrightarrow>
    data_copy types (Some (P4DataTypeSpec a (Some (TS_HeaderUnion name)))) (P4Data (Some (D_HeaderUnion (Some h))) u) (P4Data (Some (D_HeaderUnion (Some k))) u)"
| copy_stack: "int (length (hs_Entries h)) = sz \<Longrightarrow> list_all2 (rel_option (header_copy types name)) (hs_Entries h) (hs_Entries k) \<Longrightarrow> hs_unknown k = hs_unknown h \<Longrightarrow>
    data_copy types (Some (P4DataTypeSpec a (Some (TS_HeaderStack (Some (name, sz))))))
      (P4Data (Some (D_HeaderStack (Some h))) u) (P4Data (Some (D_HeaderStack (Some k))) u)"
| copy_union_stack: "int (length (hus_Entries h)) = sz \<Longrightarrow> list_all2 (rel_option (union_copy types name)) (hus_Entries h) (hus_Entries k) \<Longrightarrow>
    hus_unknown k = hus_unknown h \<Longrightarrow>
    data_copy types (Some (P4DataTypeSpec a (Some (TS_HeaderUnionStack (Some (name, sz))))))
      (P4Data (Some (D_HeaderUnionStack (Some h))) u) (P4Data (Some (D_HeaderUnionStack (Some k))) u)"
| copy_tuple: "length ms = length specs \<Longrightarrow> length ns = length specs \<Longrightarrow>
    (\<forall>i<length specs. rel_option (data_copy types (specs ! i)) (ms ! i) (ns ! i)) \<Longrightarrow>
    data_copy types (Some (P4DataTypeSpec a (Some (TS_Tuple (Some specs)))))
      (P4Data (Some (D_Tuple (Some (P4StructLike ms u')))) u) (P4Data (Some (D_Tuple (Some (P4StructLike ns u')))) u)"
| copy_struct: "declOf type_structs types name = Some specs \<Longrightarrow> length ms = length specs \<Longrightarrow> length ns = length specs \<Longrightarrow>
    (\<forall>i<length specs. rel_option (data_copy types (specs ! i)) (ms ! i) (ns ! i)) \<Longrightarrow>
    data_copy types (Some (P4DataTypeSpec a (Some (TS_Struct name))))
      (P4Data (Some (D_Struct (Some (P4StructLike ms u')))) u) (P4Data (Some (D_Struct (Some (P4StructLike ns u')))) u)"
| copy_original: "newTypeDecl types name = Some (Some (OriginalType spec)) \<Longrightarrow> data_copy types spec v w \<Longrightarrow>
    data_copy types (Some (P4DataTypeSpec a (Some (TS_NewType name)))) v w"
| copy_translated: "newTypeDecl types name = Some (Some (TranslatedType (Some (Some (SdnBitwidth m))))) \<Longrightarrow> unsigned_copy b c \<Longrightarrow>
    data_copy types (Some (P4DataTypeSpec a (Some (TS_NewType name)))) (P4Data (Some (D_Bitstring b)) u) (P4Data (Some (D_Bitstring c)) u)"
| copy_string: "newTypeDecl types name = Some (Some (TranslatedType (Some (Some (SdnString decl))))) \<Longrightarrow>
    data_copy types (Some (P4DataTypeSpec a (Some (TS_NewType name)))) (P4Data (Some (D_Bitstring b)) u) (P4Data (Some (D_Bitstring b)) u)"

lemma unsignedBytes_copy: "unsignedBytes b w = Inr c \<Longrightarrow> unsigned_copy b c"
  using ureg.encode_val ureg.encode_canon by (simp add: unsigned_copy_def)

lemma signedBytes_copy: "signedBytes b w = Inr c \<Longrightarrow> signed_copy b c"
  using sreg.encode_val sreg.encode_canon by (simp add: signed_copy_def)

lemmas data_getters = GetVarbit_def GetTuple_def GetStruct_def GetHeader_def GetHeaderUnion_def GetHeaderStack_def
  GetHeaderUnionStack_def GetBitstring_def

text \<open>What an operation of the normalizer promises: its result is the canonical copy, and it maps its
  result to itself.\<close>

lemma bitstring_ok:
  assumes "bitstring bs v io = Inr w"
  shows "data_copy types (Some (P4DataTypeSpec a (Some (TS_Bitstring bs)))) v w \<and> bitstring bs w io = Inr w"
proof -
  obtain d u where v: "v = P4Data d u" by (cases v)
  obtain ty where ty: "bs = Some (Some ty)" using assms by (cases bs) (auto simp: bitstring_def bind_eq_Some_conv split: option.splits)
  show ?thesis
  proof (cases ty)
    case (BS_Varbit decl)
    then obtain x mx where "decl = Some mx" "d = Some (D_Varbit (Some x))" "w = v" "bitstring bs v io = Inr v"
        "vb_Bitwidth x \<le> mx" "int (length (vb_Bitstring x)) = (vb_Bitwidth x + 7) div 8"
      using assms ty v
      by (auto simp: bitstring_def copyOut_def data_getters bindE_Inr_iff split: option.splits P4DataValue.splits if_splits)
    then show ?thesis using v ty BS_Varbit by (auto intro: copy_varbit)
  next
    case (BS_Bit decl)
    then obtain b c m where "d = Some (D_Bitstring b)" "decl = Some m" "unsignedBytes b m = Inr c" "w = P4Data (Some (D_Bitstring c)) u"
      using assms ty v
      by (auto simp: bitstring_def copyOut_def bindE_Inr_iff split: option.splits P4DataValue.splits)
    then show ?thesis using v ty BS_Bit
      by (auto simp: bitstring_def copyOut_def unsignedBytes_idem intro!: copy_integer unsignedBytes_copy)
  next
    case (BS_Int decl)
    then obtain b c m where "d = Some (D_Bitstring b)" "decl = Some m" "signedBytes b m = Inr c" "w = P4Data (Some (D_Bitstring c)) u"
      using assms ty v
      by (auto simp: bitstring_def copyOut_def bindE_Inr_iff split: option.splits P4DataValue.splits)
    then show ?thesis using v ty BS_Int
      by (auto simp: bitstring_def copyOut_def signedBytes_idem intro!: copy_integer signedBytes_copy)
  qed
qed

inductive_cases copy_integerE:
  "data_copy types (Some (P4DataTypeSpec a (Some (TS_Bitstring bs)))) (P4Data (Some (D_Bitstring b)) u) w"

inductive_cases copy_structE: "data_copy types (Some (P4DataTypeSpec a (Some (TS_Struct name)))) v w"

lemma headerField_ok:
  assumes "headerField name i (spec, b) = Inr c"
  shows "integer_copy spec b c \<and> headerField name i (spec, c) = Inr c"
proof -
  obtain d where d: "bitstring spec (P4Data (Some (D_Bitstring b)) []) True = Inr d" "c = GetBitstring d"
      "\<And>x. spec \<noteq> Some (Some (BS_Varbit x))"
    using assms by (auto simp: headerField_def bindE_Inr_iff split: option.splits BitstringLike.splits)
  from bitstring_ok [OF d(1)] have "data_copy None (Some (P4DataTypeSpec 0 (Some (TS_Bitstring spec)))) (P4Data (Some (D_Bitstring b)) []) d"
    and again: "bitstring spec d True = Inr d" by blast+
  then obtain c' where "integer_copy spec b c'" "d = P4Data (Some (D_Bitstring c')) []" by (blast elim: copy_integerE)
  with d again show ?thesis
    by (auto simp: headerField_def data_getters split: option.splits BitstringLike.splits)
qed

text \<open>Element-wise operations: if every element promises \<open>P\<close> and maps its result to itself, so does the
  loop.\<close>

lemma mapE_idx_ok:
  assumes "mapE_idx f xs = Inr ys" "\<And>i x y. x \<in> set xs \<Longrightarrow> f i x = Inr y \<Longrightarrow> P x y \<and> f i (h x y) = Inr y"
  shows "list_all2 P xs ys \<and> mapE_idx f (map2 h xs ys) = Inr ys"
  using assms by (auto simp: mapE_idx_Inr_iff list_all2_conv_all_nth)

lemma header_ok:
  assumes "header types name value = Inr k"
  shows "\<exists>h. value = Some h \<and> header_copy types name h k \<and> header types name (Some k) = Inr k"
proof -
  obtain ms h where ms: "name \<noteq> []" "declOf type_headers types name = Some ms" "value = Some h"
    using assms by (auto simp: header_def split: option.splits if_splits)
  show ?thesis
  proof (cases "hd_IsValid h")
    case False
    then show ?thesis using assms ms by (auto simp: header_def header_copy_def split: if_splits)
  next
    case True
    then obtain bs where bs: "length (hd_Bitstrings h) = length ms" "k = h\<lparr>hd_Bitstrings := bs\<rparr>"
        "mapE_idx (headerField name) (zip ms (hd_Bitstrings h)) = Inr bs"
      using assms ms by (auto simp: header_def bindE_Inr_iff split: if_splits)
    have "list_all2 (\<lambda>x y. integer_copy (fst x) (snd x) y) (zip ms (hd_Bitstrings h)) bs \<and>
        mapE_idx (headerField name) (map2 (\<lambda>x y. (fst x, y)) (zip ms (hd_Bitstrings h)) bs) = Inr bs"
      using bs(3) by (rule mapE_idx_ok) (use headerField_ok in force)
    moreover have "map2 (\<lambda>x y. (fst x, y)) (zip ms (hd_Bitstrings h)) bs = zip ms bs" "length bs = length ms"
      using mapE_idx_Inr_iff bs(1,3) by (auto intro!: nth_equalityI simp: mapE_idx_Inr_iff)
    ultimately show ?thesis using ms bs True
      by (auto simp: header_def header_copy_def list_all2_conv_all_nth)
  qed
qed

lemma headerUnion_ok:
  assumes "headerUnion types name value = Inr k"
  shows "\<exists>h. value = Some h \<and> union_copy types name h k \<and> headerUnion types name (Some k) = Inr k"
proof -
  obtain ms h where ms: "name \<noteq> []" "declOf type_header_unions types name = Some ms" "value = Some h"
    using assms by (auto simp: headerUnion_def split: option.splits if_splits)
  show ?thesis
  proof (cases "hu_ValidHeaderName h = []")
    case True
    then show ?thesis using assms ms by (auto simp: headerUnion_def union_copy_def split: if_splits)
  next
    case False
    then obtain j where j: "header types (unionHeader ms (hu_ValidHeaderName h)) (hu_ValidHeader h) = Inr j"
        "k = h\<lparr>hu_ValidHeader := Some j\<rparr>" "unionHeader ms (hu_ValidHeaderName h) \<noteq> []"
      using assms ms by (auto simp: headerUnion_def Let_def bindE_Inr_iff split: if_splits)
    with header_ok [OF j(1)] ms False show ?thesis using assms
      by (auto simp: headerUnion_def union_copy_def unionHeader_def Let_def header_copy_def split: if_splits option.splits)
  qed
qed

lemma stack_ok:
  assumes "mapE_idx (\<lambda>i entry. mapErr (w i) (map_sum id Some (f entry))) es = Inr ks"
    and "\<And>e k. f e = Inr k \<Longrightarrow> \<exists>h. e = Some h \<and> R h k \<and> f (Some k) = Inr k"
  shows "list_all2 (rel_option R) es ks \<and> length ks = length es \<and>
    mapE_idx (\<lambda>i entry. mapErr (w i) (map_sum id Some (f entry))) ks = Inr ks"
proof -
  have "rel_option R e k \<and> mapErr (w i) (map_sum id Some (f k)) = Inr k"
    if "mapErr (w i) (map_sum id Some (f e)) = Inr k" for i e k
    using that assms(2) [of e] by (cases "f e") auto
  with assms(1) show ?thesis by (auto simp: mapE_idx_Inr_iff list_all2_conv_all_nth)
qed

lemma headerStack_ok:
  assumes "headerStack types spec value = Inr k"
  shows "\<exists>h. value = Some h \<and> list_all2 (rel_option (header_copy types (fst (the spec)))) (hs_Entries h) (hs_Entries k) \<and> hs_unknown k = hs_unknown h \<and>
    spec \<noteq> None \<and> int (length (hs_Entries h)) = snd (the spec) \<and> headerStack types spec (Some k) = Inr k"
proof -
  obtain name sz h es where h: "spec = Some (name, sz)" "value = Some h" "k = h\<lparr>hs_Entries := es\<rparr>"
      "\<not> (sz < 0 \<or> int (length (hs_Entries h)) \<noteq> sz)" "\<not> (name = [] \<or> declOf type_headers types name = None)"
      "mapE_idx (\<lambda>i entry. mapErr (\<lambda>e. Errorf ''header stack entry %d: %w'' [AInt (int i), AErr e])
         (map_sum id Some (header types name entry))) (hs_Entries h) = Inr es"
    using assms by (auto simp: headerStack_def bindE_Inr_iff split: option.splits if_splits)
  from stack_ok [OF h(6) header_ok] h show ?thesis by (auto simp: headerStack_def)
qed

lemma headerUnionStack_ok:
  assumes "headerUnionStack types spec value = Inr k"
  shows "\<exists>h. value = Some h \<and> list_all2 (rel_option (union_copy types (fst (the spec)))) (hus_Entries h) (hus_Entries k) \<and> hus_unknown k = hus_unknown h \<and>
    spec \<noteq> None \<and> int (length (hus_Entries h)) = snd (the spec) \<and> headerUnionStack types spec (Some k) = Inr k"
proof -
  obtain name sz h es where h: "spec = Some (name, sz)" "value = Some h" "k = h\<lparr>hus_Entries := es\<rparr>"
      "\<not> (sz < 0 \<or> int (length (hus_Entries h)) \<noteq> sz)" "\<not> (name = [] \<or> declOf type_header_unions types name = None)"
      "mapE_idx (\<lambda>i entry. mapErr (\<lambda>e. Errorf ''header union stack entry %d: %w'' [AInt (int i), AErr e])
         (map_sum id Some (headerUnion types name entry))) (hus_Entries h) = Inr es"
    using assms by (auto simp: headerUnionStack_def bindE_Inr_iff split: option.splits if_splits)
  from stack_ok [OF h(6) headerUnion_ok] h show ?thesis by (auto simp: headerUnionStack_def)
qed

lemma members_ok:
  assumes "members norm specs value = Inr k"
    and "\<And>v spec d w. value = Some v \<Longrightarrow> d \<in> set (sl_Members v) \<Longrightarrow> norm spec d = Inr w \<Longrightarrow>
      rel_option (R spec) d (Some w) \<and> norm spec (Some w) = Inr w"
  shows "\<exists>v. value = Some v \<and> sl_unknown k = sl_unknown v \<and> length (sl_Members v) = length specs \<and> length (sl_Members k) = length specs \<and>
    (\<forall>i<length specs. rel_option (R (specs ! i)) (sl_Members v ! i) (sl_Members k ! i)) \<and> members norm specs (Some k) = Inr k"
proof -
  let ?f = "\<lambda>i (spec, d). mapErr (\<lambda>e. Errorf ''member %d: %w'' [AInt (int i), AErr e]) (map_sum id Some (norm spec d))"
  obtain v ds where v: "value = Some v" "length (sl_Members v) = length specs" "mapE_idx ?f (zip specs (sl_Members v)) = Inr ds"
      "k = P4StructLike ds (sl_unknown v)"
    using assms(1) by (auto simp: members_def bindE_Inr_iff split: option.splits if_splits)
  have "list_all2 (\<lambda>x y. rel_option (R (fst x)) (snd x) y) (zip specs (sl_Members v)) ds \<and>
      mapE_idx ?f (map2 (\<lambda>x y. (fst x, y)) (zip specs (sl_Members v)) ds) = Inr ds"
  proof (rule mapE_idx_ok [OF v(3)])
    fix i x y assume x: "x \<in> set (zip specs (sl_Members v))" and y: "?f i x = Inr y"
    obtain spec d where sd: "x = (spec, d)" by (cases x)
    then have "d \<in> set (sl_Members v)" using x by (auto dest: set_zip_rightD)
    then show "rel_option (R (fst x)) (snd x) y \<and> ?f i (fst x, y) = Inr y"
      using y sd assms(2) [OF v(1), of d spec] by (cases "norm spec d") auto
  qed
  moreover have "map2 (\<lambda>x y. (fst x, y)) (zip specs (sl_Members v)) ds = zip specs ds" "length ds = length specs"
    using v(2,3) by (auto intro!: nth_equalityI simp: mapE_idx_Inr_iff)
  ultimately show ?thesis using v by (auto simp: members_def list_all2_conv_all_nth)
qed

lemma newType_ok:
  assumes "newType (F v) types name v io = Inr w"
    and "\<And>spec w. newTypeDecl types name = Some (Some (OriginalType spec)) \<Longrightarrow> F v spec = Inr w \<Longrightarrow> data_copy types spec v w \<and> F w spec = Inr w"
  shows "data_copy types (Some (P4DataTypeSpec a (Some (TS_NewType name)))) v w \<and> newType (F w) types name w io = Inr w"
proof -
  obtain rep where rep: "name \<noteq> []" "newTypeDecl types name = Some (Some rep)"
    using assms(1) by (auto simp: newType_def bind_eq_Some_conv split: option.splits if_splits)
  show ?thesis
  proof (cases rep)
    case (OriginalType spec)
    then show ?thesis using assms(1) assms(2) [of spec w] rep by (auto simp: newType_def intro: copy_original)
  next
    case (TranslatedType tr)
    then obtain sdn b c where s: "tr = Some (Some sdn)" "data_oneof v = Some (D_Bitstring b)" "w = copyOut v (D_Bitstring c)"
        "(case sdn of SdnString decl \<Rightarrow> decl \<noteq> None \<and> \<not> io \<and> c = b | SdnBitwidth m \<Rightarrow> 0 < m \<and> unsignedBytes b m = Inr c)"
      using assms(1) rep
      by (auto simp: newType_def bindE_Inr_iff bind_eq_Some_conv split: option.splits P4DataValue.splits SdnType.splits if_splits)
    obtain u where v: "v = P4Data (Some (D_Bitstring b)) u" using s(2) by (cases v) auto
    have "data_copy types (Some (P4DataTypeSpec a (Some (TS_NewType name)))) v w"
      using s rep v TranslatedType by (cases sdn) (auto simp: copyOut_def intro: copy_translated copy_string unsignedBytes_copy)
    moreover have "newType (F w) types name w io = Inr w"
      using s v rep TranslatedType unsignedBytes_idem [of b _ c]
      by (auto simp: newType_def copyOut_def split: SdnType.splits)
    ultimately show ?thesis ..
  qed
qed

lemma data_copy_shape: "data_copy types spec v w \<Longrightarrow> \<exists>d e u. v = P4Data (Some d) u \<and> w = P4Data (Some e) u"
  by (induction rule: data_copy.induct) auto

lemma normalizeFlat_ok:
  assumes "normalizeFlat types ts (P4Data (Some d) u) d io = Inr w"
  shows "\<exists>e. w = P4Data (Some e) u \<and> data_copy types (Some (P4DataTypeSpec a (Some ts))) (P4Data (Some d) u) w \<and> normalizeFlat types ts w e io = Inr w"
proof (cases ts)
  case (TS_Bitstring bs)
  with assms have b: "bitstring bs (P4Data (Some d) u) io = Inr w" by (simp add: normalizeFlat_def)
  from bitstring_ok [OF b, of types a] data_copy_shape TS_Bitstring show ?thesis by (fastforce simp: normalizeFlat_def)
next
  case (TS_Bool decl)
  then obtain x where "w = P4Data (Some d) u" "d = D_Bool x" "decl = Some ()"
    using assms by (cases d) (auto simp: normalizeFlat_def copyOut_def split: if_splits)
  with assms TS_Bool show ?thesis by (auto intro: copy_bool)
next
  case (TS_Header name)
  then obtain k where k: "header types name (GetHeader (P4Data (Some d) u)) = Inr k" "w = P4Data (Some (D_Header (Some k))) u"
    using assms by (auto simp: normalizeFlat_def copyOut_def bindE_Inr_iff)
  from header_ok [OF k(1)] k(2) TS_Header show ?thesis
    by (auto simp: normalizeFlat_def copyOut_def GetHeader_def intro: copy_header split: P4DataValue.splits)
next
  case (TS_HeaderUnion name)
  then obtain k where k: "headerUnion types name (GetHeaderUnion (P4Data (Some d) u)) = Inr k" "w = P4Data (Some (D_HeaderUnion (Some k))) u"
    using assms by (auto simp: normalizeFlat_def copyOut_def bindE_Inr_iff)
  from headerUnion_ok [OF k(1)] k(2) TS_HeaderUnion show ?thesis
    by (auto simp: normalizeFlat_def copyOut_def GetHeaderUnion_def intro: copy_union split: P4DataValue.splits)
next
  case (TS_HeaderStack decl)
  then obtain k where k: "headerStack types decl (GetHeaderStack (P4Data (Some d) u)) = Inr k" "w = P4Data (Some (D_HeaderStack (Some k))) u"
    using assms by (auto simp: normalizeFlat_def copyOut_def bindE_Inr_iff)
  from headerStack_ok [OF k(1)] k(2) TS_HeaderStack show ?thesis
    by (auto simp: normalizeFlat_def copyOut_def GetHeaderStack_def intro: copy_stack split: P4DataValue.splits)
next
  case (TS_HeaderUnionStack decl)
  then obtain k where k: "headerUnionStack types decl (GetHeaderUnionStack (P4Data (Some d) u)) = Inr k"
      "w = P4Data (Some (D_HeaderUnionStack (Some k))) u"
    using assms by (auto simp: normalizeFlat_def copyOut_def bindE_Inr_iff)
  from headerUnionStack_ok [OF k(1)] k(2) TS_HeaderUnionStack show ?thesis
    by (auto simp: normalizeFlat_def copyOut_def GetHeaderUnionStack_def intro: copy_union_stack split: P4DataValue.splits)
next
  case (TS_Enum name)
  then obtain ms e where "w = P4Data (Some d) u" "d = D_Enum e" "declOf type_enums types name = Some ms" "e \<in> set ms"
    using assms by (cases d) (auto simp: normalizeFlat_def copyOut_def split: option.splits if_splits)
  with assms TS_Enum show ?thesis by (auto intro: copy_enum)
next
  case (TS_Error decl)
  then obtain ms e where "w = P4Data (Some d) u" "d = D_Error e" "Option.bind types type_error = Some ms" "e \<in> set ms"
    using assms by (cases d) (auto simp: normalizeFlat_def copyOut_def split: option.splits if_splits)
  with assms TS_Error show ?thesis by (auto intro: copy_error)
next
  case (TS_SerializableEnum name)
  then obtain m b c where "d = D_EnumValue b" "unsignedBytes b m = Inr c" "w = P4Data (Some (D_EnumValue c)) u"
      "name \<noteq> []" "Option.bind (declOf type_serializable_enums types name) id = Some m"
    using assms by (auto simp: normalizeFlat_def copyOut_def bindE_Inr_iff split: option.splits P4DataValue.splits if_splits)
  then show ?thesis using TS_SerializableEnum unsignedBytes_idem
    by (auto simp: normalizeFlat_def copyOut_def bind_eq_Some_conv intro!: copy_enum_value unsignedBytes_copy)
qed (use assms in \<open>simp_all add: normalizeFlat_def\<close>)

lemma normalize_ok:
  "normalizeData types act spec vo io = Inr w \<Longrightarrow>
     \<exists>v. vo = Some v \<and> data_copy types spec v w \<and> normalizeData types act spec (Some w) io = Inr w"
proof (induction types act spec vo io arbitrary: w rule: normalizeData.induct)
  case (5 types act a ts d u io)
  let ?v = "P4Data (Some d) u" and ?act = "insert a act"
  have a: "a \<notin> act" using "5.prems" by (auto split: if_splits)
  note run = "5.prems" a
  show ?case
  proof (cases ts)
    case (TS_NewType name)
    have n: "newType (\<lambda>sp. normalizeData types ?act sp (Some ?v) io) types name ?v io = Inr w"
      using run TS_NewType by (simp add: Let_def)
    have "data_copy types (Some (P4DataTypeSpec a (Some (TS_NewType name)))) ?v w \<and>
        newType (\<lambda>sp. normalizeData types ?act sp (Some w) io) types name w io = Inr w"
    proof (rule newType_ok [where F = "\<lambda>v sp. normalizeData types ?act sp (Some v) io", OF n])
      fix spec w' assume "newTypeDecl types name = Some (Some (OriginalType spec))" "normalizeData types ?act spec (Some ?v) io = Inr w'"
      with "5.IH"(3) [OF a refl refl TS_NewType]
      show "data_copy types spec ?v w' \<and> normalizeData types ?act spec (Some w') io = Inr w'" by blast
    qed
    then show ?thesis using a TS_NewType data_copy_shape [of types _ ?v w] by (fastforce simp: Let_def)
  next
    case (TS_Tuple decl)
    then obtain specs ms where m: "decl = Some specs" "\<not> io" "w = copyOut ?v (D_Tuple (Some ms))"
        "members (\<lambda>sp m. normalizeData types ?act sp m False) specs (GetTuple ?v) = Inr ms"
      using run by (auto simp: Let_def bindE_Inr_iff split: option.splits if_splits)
    from m(4) obtain v where v: "GetTuple ?v = Some v" "sl_unknown ms = sl_unknown v" "length (sl_Members v) = length specs"
        "length (sl_Members ms) = length specs" "\<forall>i<length specs. rel_option (data_copy types (specs ! i)) (sl_Members v ! i) (sl_Members ms ! i)"
        "members (\<lambda>sp m. normalizeData types ?act sp m False) specs (Some ms) = Inr ms"
    proof (atomize_elim, rule members_ok)
      fix v spec d' w' assume "GetTuple ?v = Some v" "d' \<in> set (sl_Members v)" "normalizeData types ?act spec d' False = Inr w'"
      with "5.IH"(1) [OF a refl refl TS_Tuple m(2) m(1)]
      show "rel_option (data_copy types spec) d' (Some w') \<and> normalizeData types ?act spec (Some w') False = Inr w'" by fastforce
    qed
    have "data_copy types (Some (P4DataTypeSpec a (Some ts))) ?v w"
      using TS_Tuple m(1,3) v(1-5) by (cases v; cases ms) (auto simp: copyOut_def GetTuple_def intro: copy_tuple split: P4DataValue.splits)
    then show ?thesis using TS_Tuple m a v(6) by (auto simp: Let_def copyOut_def GetTuple_def)
  next
    case (TS_Struct name)
    then obtain specs ms where m: "name \<noteq> []" "declOf type_structs types name = Some specs" "\<not> io" "w = copyOut ?v (D_Struct (Some ms))"
        "members (\<lambda>sp m. normalizeData types ?act sp m False) specs (GetStruct ?v) = Inr ms"
      using run by (auto simp: Let_def bindE_Inr_iff split: option.splits if_splits)
    from m(5) obtain v where v: "GetStruct ?v = Some v" "sl_unknown ms = sl_unknown v" "length (sl_Members v) = length specs"
        "length (sl_Members ms) = length specs" "\<forall>i<length specs. rel_option (data_copy types (specs ! i)) (sl_Members v ! i) (sl_Members ms ! i)"
        "members (\<lambda>sp m. normalizeData types ?act sp m False) specs (Some ms) = Inr ms"
    proof (atomize_elim, rule members_ok)
      fix v spec d' w' assume "GetStruct ?v = Some v" "d' \<in> set (sl_Members v)" "normalizeData types ?act spec d' False = Inr w'"
      with "5.IH"(2) [OF a refl refl TS_Struct m(3)] m(1,2)
      show "rel_option (data_copy types spec) d' (Some w') \<and> normalizeData types ?act spec (Some w') False = Inr w'" by fastforce
    qed
    have "data_copy types (Some (P4DataTypeSpec a (Some ts))) ?v w"
      using TS_Struct m(2,4) v(1-5) by (cases v; cases ms) (auto simp: copyOut_def GetStruct_def intro: copy_struct split: P4DataValue.splits)
    then show ?thesis using TS_Struct m a v(6) by (auto simp: Let_def copyOut_def GetStruct_def)
  qed (use run normalizeFlat_ok [of types ts d u io w a] in \<open>auto simp: Let_def split: if_splits\<close>)
qed simp_all

text \<open>New types that only lead to new types are never accepted.\<close>

lemma newType_cycle:
  assumes closed: "\<And>n. n \<in> N \<Longrightarrow> \<exists>a n'. newTypeDecl types n = Some (Some (OriginalType (Some (P4DataTypeSpec a (Some (TS_NewType n')))))) \<and> n' \<in> N"
  shows "spec = Some (P4DataTypeSpec a (Some (TS_NewType n))) \<Longrightarrow> n \<in> N \<Longrightarrow> \<exists>e. normalizeData types act spec vo io = Inl e"
proof (induction "spec_measure types act spec" arbitrary: act spec a n rule: less_induct)
  case less
  obtain a' n' where n': "newTypeDecl types n = Some (Some (OriginalType (Some (P4DataTypeSpec a' (Some (TS_NewType n'))))))" "n' \<in> N"
    using closed less.prems(2) by blast
  show ?case
  proof (cases "\<exists>d u. vo = Some (P4Data (Some d) u) \<and> a \<notin> act \<and> n \<noteq> []")
    case True
    then have "normalizeData types act spec vo io = normalizeData types (insert a act) (Some (P4DataTypeSpec a' (Some (TS_NewType n')))) vo io"
      using less.prems(1) n'(1) by (auto simp: Let_def newType_def)
    moreover have "spec_measure types (insert a act) (Some (P4DataTypeSpec a' (Some (TS_NewType n')))) < spec_measure types act spec"
      unfolding less.prems(1) using True by (intro spec_measure_newType [OF _ n'(1)]) blast
    ultimately show ?thesis using less.hyps n'(2) by metis
  next
    case False
    then show ?thesis using less.prems(1)
      by (cases vo rule: option.exhaust; cases "the vo"; cases "data_oneof (the vo)") (auto simp: Let_def newType_def)
  qed
qed

subsection \<open>Properties\<close>

text \<open>C12. Normalization of register data returns the canonical copy of the data at its type: every integer of a type \<^verbatim>\<open>bit<W>\<close>, every value of a
  serializable enum and every value of a type translated to a bit width is the shortest byte string of the same unsigned value, every
  integer of a type \<^verbatim>\<open>int<W>\<close> the shortest of the same two's complement value, in headers, stacks, tuples, structs and behind new types alike, and the rest (shape, names,
  flags, variable-width strings, translated strings and unknown fields) is unchanged. And it is idempotent, so the data that
  reaches the target is accepted again and left as it is.\<close>

theorem normalize_canonical_copy:
  assumes "normalizeData types act spec vo io = Inr w"
  shows "\<exists>v. vo = Some v \<and> data_copy types spec v w \<and> normalizeData types act spec (Some w) io = Inr w"
  using assms by (rule normalize_ok)

abbreviation sample_types :: P4TypeInfo where
  "sample_types \<equiv> \<lparr>type_structs = [''s'' \<mapsto> [Some (P4DataTypeSpec 1 (Some (TS_Bitstring (Some (Some (BS_Bit (Some 9)))))))]],
     type_headers = Map.empty, type_header_unions = Map.empty, type_enums = Map.empty, type_error = None,
     type_serializable_enums = Map.empty,
     type_new_types = [(''loop'', Some (OriginalType (Some (P4DataTypeSpec 7 (Some (TS_NewType ''loop''))))))]\<rparr>"

abbreviation sample_struct :: "bytes \<Rightarrow> P4Data" where
  "sample_struct b \<equiv> P4Data (Some (D_Struct (Some (P4StructLike [Some (P4Data (Some (D_Bitstring b)) [])] [])))) []"

lemma sample_struct_normalized:
  "normalizeData (Some sample_types) {} (Some (P4DataTypeSpec 0 (Some (TS_Struct ''s'')))) (Some (sample_struct [0, 1, 2])) False =
     Inr (sample_struct [1, 2])"
  by (simp add: Let_def declOf_def members_def GetStruct_def mapE_idx_def isBitstring_def normalizeFlat_def bitstring_def
      unsignedBytes_def EncodeBytes_def byteLen_def go_div_def wrap64_def copyOut_def lowMask_def)

theorem normalize_canonical_copy_witness:
  "data_copy (Some sample_types) (Some (P4DataTypeSpec 0 (Some (TS_Struct ''s'')))) (sample_struct [0, 1, 2]) (sample_struct [1, 2]) \<and>
   \<not> data_copy (Some sample_types) (Some (P4DataTypeSpec 0 (Some (TS_Struct ''s'')))) (sample_struct [0, 1, 2]) (sample_struct [0, 1, 2])"
proof
  show "data_copy (Some sample_types) (Some (P4DataTypeSpec 0 (Some (TS_Struct ''s'')))) (sample_struct [0, 1, 2]) (sample_struct [1, 2])"
    using normalize_canonical_copy [OF sample_struct_normalized] by auto
  show "\<not> data_copy (Some sample_types) (Some (P4DataTypeSpec 0 (Some (TS_Struct ''s'')))) (sample_struct [0, 1, 2]) (sample_struct [0, 1, 2])"
  proof
    assume "data_copy (Some sample_types) (Some (P4DataTypeSpec 0 (Some (TS_Struct ''s'')))) (sample_struct [0, 1, 2]) (sample_struct [0, 1, 2])"
    then have "data_copy (Some sample_types) (Some (P4DataTypeSpec 1 (Some (TS_Bitstring (Some (Some (BS_Bit (Some 9))))))))
        (P4Data (Some (D_Bitstring [0, 1, 2])) []) (P4Data (Some (D_Bitstring [0, 1, 2])) [])"
    proof (rule copy_structE)
      fix specs ms ns u' u
      assume "declOf type_structs (Some sample_types) ''s'' = Some specs"
        and "sample_struct [0, 1, 2] = P4Data (Some (D_Struct (Some (P4StructLike ms u')))) u"
        and "sample_struct [0, 1, 2] = P4Data (Some (D_Struct (Some (P4StructLike ns u')))) u"
        and "\<forall>i<length specs. rel_option (data_copy (Some sample_types) (specs ! i)) (ms ! i) (ns ! i)"
      then show ?thesis by (auto simp: declOf_def)
    qed
    then show False by (rule copy_integerE) (auto simp: unsigned_copy_def canonical_def)
  qed
qed

text \<open>C36. Recursive type declarations are rejected, not followed for ever: \<open>normalizeData\<close> is a total function, and
  a specification whose new types lead to new types only (a cycle, in a finite P4Info) is an error
  for every value and whatever specifications are already active.\<close>

theorem normalize_cycle_rejected:
  assumes "\<And>n. n \<in> N \<Longrightarrow> \<exists>a n'. newTypeDecl types n = Some (Some (OriginalType (Some (P4DataTypeSpec a (Some (TS_NewType n')))))) \<and> n' \<in> N"
    and "n \<in> N"
  shows "\<exists>e. normalizeData types act (Some (P4DataTypeSpec a (Some (TS_NewType n)))) vo io = Inl e"
  using newType_cycle [OF assms(1) refl assms(2)] by blast

theorem normalize_cycle_rejected_witness:
  "\<exists>e. normalizeData (Some sample_types) {} (Some (P4DataTypeSpec 0 (Some (TS_NewType ''loop'')))) (Some (sample_struct [])) False = Inl e"
  by (rule normalize_cycle_rejected [where N = "{''loop''}"]) (auto simp: declOf_def)

end
