(* ===== verification/Register.thy ===== *)
theory Register
  imports Resources Register_Data
begin

text \<open>
  Register arrays (src/register/register.go): reading entries, and writing a value that was checked
  and normalized against the type of the register. \<open>Write\<close> takes the bytes of an integer, \<open>WriteData\<close>
  any \<open>P4Data\<close>; both are \<open>register_write\<close>, which is an instance of the contract \<open>guarded_write\<close>.
\<close>

subsection \<open>Operations\<close>

definition register_Read :: "'s rpc_read \<Rightarrow> Reader \<Rightarrow> string \<Rightarrow> int \<Rightarrow> 's \<Rightarrow> 's \<times> (goerr + RegisterEntry list) option" where
  "register_Read rpc r name i s =
     (case Pipeline_Register (Some (rd_pipeline r)) name of
        None \<Rightarrow> (s, Some (Inl (Errorf ''register %q not in pipeline'' [AStr name])))
      | Some rdef \<Rightarrow>
          (case resourceindex_Validate i (r_Size rdef) (reg_index_type_name (r_raw rdef)) True of
             Inl e \<Rightarrow> (s, Some (Inl (Errorf ''register %q: %w'' [AStr name, AErr e])))
           | Inr _ \<Rightarrow>
               let entry = \<lparr>re_RegisterId = r_ID rdef, re_Index = (if i \<ge> 0 then Some i else None), re_Data = None\<rparr> in
               (case Client_Read rpc (rd_client r) [E_RegisterEntry (Some entry)] s of
                  (s', res) \<Rightarrow> (s', map_option (\<lambda>m. bindE m (\<lambda>ents. Inr (List.map_filter GetRegisterEntry ents))) res))))"

text \<open>The checks of \<open>write\<close> and the update they lead to.\<close>

definition register_update :: "Pipeline \<Rightarrow> string \<times> int \<times> P4Data option \<times> bool \<Rightarrow> goerr + Update" where
  "register_update p arg =
     (case arg of (name, i, val, integerOnly) \<Rightarrow>
        (case Pipeline_Register (Some p) name of
           None \<Rightarrow> Inl (Errorf ''register %q not in pipeline'' [AStr name])
         | Some rdef \<Rightarrow>
             bindE (mapErr (\<lambda>e. Errorf ''register %q: %w'' [AStr name, AErr e])
                      (resourceindex_Validate i (r_Size rdef) (reg_index_type_name (r_raw rdef)) False)) (\<lambda>_.
             bindE (mapErr (\<lambda>e. Errorf ''register %q: %w'' [AStr name, AErr e])
                      (normalizeData (info_type_info (Pipeline_Info p)) {} (reg_type_spec (r_raw rdef)) val integerOnly)) (\<lambda>data.
             Inr \<lparr>up_Type = UpdateModify, up_Entity = E_RegisterEntry (Some
               \<lparr>re_RegisterId = r_ID rdef, re_Index = Some i, re_Data = Some data\<rparr>)\<rparr>))))"

definition register_write :: "'s rpc_write \<Rightarrow> from_error \<Rightarrow> unmarshal_any \<Rightarrow> Reader \<Rightarrow> string \<Rightarrow> int \<Rightarrow> P4Data option \<Rightarrow> bool \<Rightarrow>
    's \<Rightarrow> 's \<times> goerr option" where
  "register_write rpc fe unmarshal r name i val integerOnly s =
     (case register_update (rd_pipeline r) (name, i, val, integerOnly) of
        Inl e \<Rightarrow> (s, Some e)
      | Inr update \<Rightarrow> Client_Write rpc fe unmarshal (rd_client r) 0 [update] s)"

definition register_Write :: "'s rpc_write \<Rightarrow> from_error \<Rightarrow> unmarshal_any \<Rightarrow> Reader \<Rightarrow> string \<Rightarrow> int \<Rightarrow> bytes \<Rightarrow>
    's \<Rightarrow> 's \<times> goerr option" where
  "register_Write rpc fe unmarshal r name i val s =
     register_write rpc fe unmarshal r name i (Some (P4Data (Some (D_Bitstring val)) [])) True s"

definition register_WriteData :: "'s rpc_write \<Rightarrow> from_error \<Rightarrow> unmarshal_any \<Rightarrow> Reader \<Rightarrow> string \<Rightarrow> int \<Rightarrow> P4Data option \<Rightarrow>
    's \<Rightarrow> 's \<times> goerr option" where
  "register_WriteData rpc fe unmarshal r name i val s = register_write rpc fe unmarshal r name i val False s"

interpretation register_writes: guarded_write "register_update p"
  "\<lambda>rpc fe unmarshal c (name, i, val, io). register_write rpc fe unmarshal \<lparr>rd_client = c, rd_pipeline = p\<rparr> name i val io"
  by unfold_locales (auto simp: register_write_def split: sum.splits)

subsection \<open>When a write is valid\<close>

definition register_valid :: "Pipeline \<Rightarrow> string \<Rightarrow> int \<Rightarrow> RegisterDef \<Rightarrow> bool" where
  "register_valid p name i rdef \<longleftrightarrow> Pipeline_Register (Some p) name = Some rdef \<and>
     0 \<le> i \<and> (reg_index_type_name (r_raw rdef) = '''' \<longrightarrow> i < r_Size rdef)"

abbreviation register_modify :: "RegisterDef \<Rightarrow> int \<Rightarrow> P4Data \<Rightarrow> Update" where
  "register_modify rdef i data \<equiv> \<lparr>up_Type = UpdateModify, up_Entity = E_RegisterEntry (Some
     \<lparr>re_RegisterId = r_ID rdef, re_Index = Some i, re_Data = Some data\<rparr>)\<rparr>"

lemma register_update_Inr_iff:
  "register_update p (name, i, val, io) = Inr u \<longleftrightarrow>
     (\<exists>rdef data. register_valid p name i rdef \<and>
        normalizeData (info_type_info (Pipeline_Info p)) {} (reg_type_spec (r_raw rdef)) val io = Inr data \<and>
        u = register_modify rdef i data)"
proof (cases "Pipeline_Register (Some p) name")
  case (Some rdef)
  have "isOk (resourceindex_Validate i (r_Size rdef) (reg_index_type_name (r_raw rdef)) False) \<longleftrightarrow>
      0 \<le> i \<and> (reg_index_type_name (r_raw rdef) = [] \<longrightarrow> i < r_Size rdef)"
    by (simp add: resourceindex_Validate_iff)
  then show ?thesis using Some
    by (cases "resourceindex_Validate i (r_Size rdef) (reg_index_type_name (r_raw rdef)) False")
      (auto simp: register_update_def register_valid_def bindE_Inr_iff)
qed (simp add: register_update_def register_valid_def)

text \<open>The type of an integer register: \<open>bit<W>\<close> or \<open>int<W>\<close>.\<close>

abbreviation bit_register :: "RegisterDef \<Rightarrow> int \<Rightarrow> bool" where
  "bit_register rdef w \<equiv> map_option TypeSpec (reg_type_spec (r_raw rdef)) = Some (Some (TS_Bitstring (Some (Some (BS_Bit (Some w))))))"

abbreviation int_register :: "RegisterDef \<Rightarrow> int \<Rightarrow> bool" where
  "int_register rdef w \<equiv> map_option TypeSpec (reg_type_spec (r_raw rdef)) = Some (Some (TS_Bitstring (Some (Some (BS_Int (Some w))))))"

lemma normalize_integer:
  "bit_register rdef w \<Longrightarrow>
     normalizeData types {} (reg_type_spec (r_raw rdef)) (Some (P4Data (Some (D_Bitstring b)) [])) True =
       map_sum id (\<lambda>c. P4Data (Some (D_Bitstring c)) []) (unsignedBytes b w)"
  "int_register rdef w \<Longrightarrow>
     normalizeData types {} (reg_type_spec (r_raw rdef)) (Some (P4Data (Some (D_Bitstring b)) [])) True =
       map_sum id (\<lambda>c. P4Data (Some (D_Bitstring c)) []) (signedBytes b w)"
proof -
  assume "bit_register rdef w"
  then obtain a where "reg_type_spec (r_raw rdef) = Some (P4DataTypeSpec a (Some (TS_Bitstring (Some (Some (BS_Bit (Some w)))))))"
    by (cases "reg_type_spec (r_raw rdef)"; cases "the (reg_type_spec (r_raw rdef))") auto
  then show "normalizeData types {} (reg_type_spec (r_raw rdef)) (Some (P4Data (Some (D_Bitstring b)) [])) True =
       map_sum id (\<lambda>c. P4Data (Some (D_Bitstring c)) []) (unsignedBytes b w)"
    by (cases "unsignedBytes b w") (simp_all add: Let_def isBitstring_def normalizeFlat_def bitstring_def copyOut_def)
next
  assume "int_register rdef w"
  then obtain a where "reg_type_spec (r_raw rdef) = Some (P4DataTypeSpec a (Some (TS_Bitstring (Some (Some (BS_Int (Some w)))))))"
    by (cases "reg_type_spec (r_raw rdef)"; cases "the (reg_type_spec (r_raw rdef))") auto
  then show "normalizeData types {} (reg_type_spec (r_raw rdef)) (Some (P4Data (Some (D_Bitstring b)) [])) True =
       map_sum id (\<lambda>c. P4Data (Some (D_Bitstring c)) []) (signedBytes b w)"
    by (cases "signedBytes b w") (simp_all add: Let_def isBitstring_def normalizeFlat_def bitstring_def copyOut_def)
qed

subsection \<open>Properties\<close>

text \<open>C37. Writing a register: exactly one MODIFY with the normalized value is sent when the register is
  declared, the index is in range, the value has the type of the register and the client is primary;
  otherwise nothing is sent and an error is returned. For a register of type \<open>bit<W>\<close> or \<open>int<W>\<close>, \<open>Write\<close>
  accepts exactly the byte strings whose value fits, and sends the shortest encoding of that value.\<close>

theorem register_write_correct:
  "(\<forall>rdef data. register_valid (rd_pipeline r) name i rdef \<and> cl_primary (rd_client r) \<and>
      normalizeData (info_type_info (Pipeline_Info (rd_pipeline r))) {} (reg_type_spec (r_raw rdef)) val io = Inr data \<longrightarrow>
      fst (register_write rpc fe unmarshal r name i val io s) = fst (rpc s (writeRequest (rd_client r) 0 [register_modify rdef i data])) \<and>
      (snd (register_write rpc fe unmarshal r name i val io s) = None \<longleftrightarrow>
         snd (rpc s (writeRequest (rd_client r) 0 [register_modify rdef i data])) = None)) \<and>
   ((\<nexists>rdef data. register_valid (rd_pipeline r) name i rdef \<and>
        normalizeData (info_type_info (Pipeline_Info (rd_pipeline r))) {} (reg_type_spec (r_raw rdef)) val io = Inr data) \<or>
      \<not> cl_primary (rd_client r) \<longrightarrow>
      fst (register_write rpc fe unmarshal r name i val io s) = s \<and> snd (register_write rpc fe unmarshal r name i val io s) \<noteq> None) \<and>
   (\<forall>rdef w. register_valid (rd_pipeline r) name i rdef \<and> cl_primary (rd_client r) \<and> bit_register rdef w \<and> 0 \<le> w \<and> w < 2 ^ 31 \<longrightarrow>
      fst (register_Write rpc fe unmarshal r name i b s) =
        (if be_nat b < 2 ^ nat w
         then fst (rpc s (writeRequest (rd_client r) 0 [register_modify rdef i (P4Data (Some (D_Bitstring (projr (unsignedBytes b w)))) [])]))
         else s)) \<and>
   (\<forall>rdef w. register_valid (rd_pipeline r) name i rdef \<and> cl_primary (rd_client r) \<and> int_register rdef w \<and> 0 < w \<longrightarrow>
      fst (register_Write rpc fe unmarshal r name i b s) =
        (if tc_fits w (tc_int b)
         then fst (rpc s (writeRequest (rd_client r) 0 [register_modify rdef i (P4Data (Some (D_Bitstring (projr (signedBytes b w)))) [])]))
         else s))"
proof -
  obtain c p where r: "r = \<lparr>rd_client = c, rd_pipeline = p\<rparr>" by (cases r) auto
  note sends = register_writes.op_sends_one [of c p "(name, i, val, io)" _ rpc fe unmarshal s]
  note refused = register_writes.op_refused [of p "(name, i, val, io)" c rpc fe unmarshal s]
  note effect = register_writes.op_effect [of rpc fe unmarshal c p "(name, i, Some (P4Data (Some (D_Bitstring b)) []), True)" s]
  have upd: "register_update p (name, i, Some (P4Data (Some (D_Bitstring b)) []), True) =
      (case enc of Inl e \<Rightarrow> Inl (Errorf ''register %q: %w'' [AStr name, AErr e])
       | Inr c \<Rightarrow> Inr (register_modify rdef i (P4Data (Some (D_Bitstring c)) [])))"
    if "register_valid p name i rdef"
      "normalizeData (info_type_info (Pipeline_Info p)) {} (reg_type_spec (r_raw rdef)) (Some (P4Data (Some (D_Bitstring b)) [])) True =
         map_sum id (\<lambda>c. P4Data (Some (D_Bitstring c)) []) enc" for rdef enc
    using that resourceindex_Validate_iff [of i "r_Size rdef" "reg_index_type_name (r_raw rdef)" False]
    by (cases "resourceindex_Validate i (r_Size rdef) (reg_index_type_name (r_raw rdef)) False"; cases enc)
      (auto simp: register_update_def register_valid_def)
  show ?thesis (is "?a \<and> ?b \<and> ?c \<and> ?d")
  proof (intro conjI)
    show ?a using sends by (auto simp: r register_update_Inr_iff)
    show ?b using refused by (auto simp: r register_update_Inr_iff)
    show ?c
    proof (intro allI impI)
      fix rdef w
      assume a: "register_valid (rd_pipeline r) name i rdef \<and> cl_primary (rd_client r) \<and> bit_register rdef w \<and> 0 \<le> w \<and> w < 2 ^ 31"
      have "0 \<le> w \<and> (w = 0 \<or> uwidth_ok w)" using a by auto
      note ok = ureg.encode_ok [OF this, of b]
      note u = upd [OF _ normalize_integer(1)]
      show "fst (register_Write rpc fe unmarshal r name i b s) =
        (if be_nat b < 2 ^ nat w
         then fst (rpc s (writeRequest (rd_client r) 0 [register_modify rdef i (P4Data (Some (D_Bitstring (projr (unsignedBytes b w)))) [])]))
         else s)"
        using effect u [of rdef w] ok a by (cases "unsignedBytes b w") (auto simp: r register_Write_def)
    qed
    show ?d
    proof (intro allI impI)
      fix rdef w
      assume a: "register_valid (rd_pipeline r) name i rdef \<and> cl_primary (rd_client r) \<and> int_register rdef w \<and> 0 < w"
      then have "0 < w" by blast
      note ok = sreg.encode_ok [OF this, of b]
      note u = upd [OF _ normalize_integer(2)]
      show "fst (register_Write rpc fe unmarshal r name i b s) =
        (if tc_fits w (tc_int b)
         then fst (rpc s (writeRequest (rd_client r) 0 [register_modify rdef i (P4Data (Some (D_Bitstring (projr (signedBytes b w)))) [])]))
         else s)"
        using effect u [of rdef w] ok a by (cases "signedBytes b w") (auto simp: r register_Write_def)
    qed
  qed
qed

abbreviation register_info :: P4Info_msg where
  "register_info \<equiv> sample_info\<lparr>info_registers := [\<lparr>reg_preamble = Some \<lparr>pre_id = 90, pre_name = ''r'', pre_alias = ''''\<rparr>,
     reg_type_spec = Some (P4DataTypeSpec 0 (Some (TS_Bitstring (Some (Some (BS_Bit (Some 9))))))),
     reg_size = 16, reg_index_type_name = ''''\<rparr>]\<rparr>"

lemma sample_register: "Pipeline_Register (Some (built register_info [])) ''r'' = Some (newRegisterDef (hd (info_registers register_info)))"
  unfolding reg.lookup_built by (simp add: has_key_def newRegisterDef_def)

theorem register_write_correct_witness:
  "fst (register_Write logging_target no_status (\<lambda>_. None) \<lparr>rd_client = sample_client, rd_pipeline = built register_info []\<rparr> ''r'' 3 [2, 0] []) = []"
proof -
  have "register_valid (built register_info []) ''r'' 3 (newRegisterDef (hd (info_registers register_info)))"
      "bit_register (newRegisterDef (hd (info_registers register_info))) 9"
    unfolding register_valid_def sample_register by (simp_all add: newRegisterDef_def)
  then show ?thesis
    using register_write_correct [of "\<lparr>rd_client = sample_client, rd_pipeline = built register_info []\<rparr>" "''r''" 3 None False
        logging_target no_status "\<lambda>_. None" "[]" "[2, 0]", THEN conjunct2, THEN conjunct2, THEN conjunct1, rule_format,
        of "newRegisterDef (hd (info_registers register_info))" 9]
    by (simp add: be_nat_def)
qed

end
