(* ===== verification/Supervisor.thy ===== *)
theory Supervisor
  imports Election_ID
begin

text \<open>
  The stream supervisor (src/internal/stream/supervisor.go): one goroutine that dials the target,
  arbitrates for mastership, serves the stream and reconnects, and the callers of \<open>Send\<close>,
  \<open>CloseGracefully\<close> and \<open>Close\<close> that share its state.

  The state is one record. Its atomic operations (\<open>setState\<close>, \<open>applyArbitration\<close>, \<open>finish\<close>,
  \<open>failPending\<close>, \<open>nextBackoff\<close>, ...) are functions on it; the interleaving is the step relation
  \<open>sup_moves\<close>, with one rule for every branch of every \<^verbatim>\<open>select\<close> and every return of a call to the
  stream. What the environment chooses (the outcome of dialling, of a receive, of a send, the
  end of a context, a timer) is free in the rule, and these rules need the flag \<open>answered\<close>: the relation
  with the flag is \<open>sup_step\<close>, and without it what the goroutines can do while no call into gRPC returns, no
  timer fires and no context ends. The channel \<^verbatim>\<open>changed\<close> that \<open>setState\<close> replaces is
  the generation number \<open>changed\<close>; requests are shared by pointer, so they live in a store and the
  queue holds their addresses. \<open>sent\<close> is a history variable: the requests handed to
  \<^verbatim>\<open>stream.Send\<close>, with the generation and state at that moment.

  Only the main loop calls \<open>setState\<close>, so nothing changes the state between its check of the role
  and its send. Logging is not modelled.
\<close>

subsection \<open>Data\<close>

datatype State = StateDisconnected | StateConnecting | StateBackup | StatePrimary

definition State_String :: "State \<Rightarrow> string" where
  "State_String s = (case s of
     StateDisconnected \<Rightarrow> ''disconnected'' | StateConnecting \<Rightarrow> ''connecting''
   | StateBackup \<Rightarrow> ''backup'' | StatePrimary \<Rightarrow> ''primary'')"

record Event =
  ev_State :: State
  ev_Err :: "goerr option"

record Config =
  cfg_DeviceID :: uint64
  cfg_ElectionHigh :: uint64
  cfg_ElectionLow :: uint64
  cfg_Role :: string
  cfg_ArbitrationTimeout :: int
  cfg_BackoffInitial :: int
  cfg_BackoffMax :: int

text \<open>A request: its message (\<open>None\<close> closes the send direction), the error of its context once that
  is done, the generation it was accepted in, and its result once finished. The state in which it
  was accepted is a history variable.\<close>

record sendRequest =
  sr_message :: "string option"
  sr_ctxErr :: "goerr option"
  sr_state :: nat
  sr_accepted :: State
  sr_done :: bool
  sr_err :: "goerr option"

text \<open>
  Where the main loop is: before \<open>Start\<close>; at the top of its loop (context check, then the
  \<^verbatim>\<open>select\<close> on stop and draining); in the dialler; in \<open>arbitrate\<close>, in its \<^verbatim>\<open>stream.Send\<close> and in its \<^verbatim>\<open>select\<close>; in \<open>serve\<close>; in \<^verbatim>\<open>stream.Send\<close> or
  in \<open>finishStream\<close> for a request; in \<open>failPending\<close> after a failure of the stream; in \<open>sleep\<close>, before arming the timer and waiting for it with its delay; and in the deferred calls of its return.
\<close>

datatype phase =
    NotStarted | LoopTop | LoopSelect | Dialing | ArbitrateSend | Arbitrating | Serving | Sending nat | Finishing nat
  | Failing goerr | SleepCheck | SleepTimer int | ExitState | ExitFail | ExitClose | Stopped

text \<open>Who holds the token of \<open>sendGate\<close>, and how far its caller is.\<close>

datatype gate =
    GateFree
  | SendAcquired string "goerr option"
  | SendQueuing nat
  | SendPushing nat
  | CloseAcquired nat
  | ClosePushing nat

record Supervisor =
  state :: State
  lastErr :: "goerr option"
  changed :: nat
  grace :: "nat option"
  events :: "Event list"
  sendCh :: "nat list"
  sendGate :: gate
  draining :: bool
  stop :: bool
  stopped :: bool
  parentErr :: "goerr option"
  at_phase :: phase
  backoff :: int
  requests :: "sendRequest list"
  sent :: "(nat \<times> nat \<times> State) list"

abbreviation chan_cap :: nat where "chan_cap \<equiv> 16"

abbreviation errStopped :: goerr where "errStopped \<equiv> Sentinel ErrStreamClosed"

subsection \<open>Durations\<close>

text \<open>\<open>time.Duration\<close> is an \<^verbatim>\<open>int64\<close> of nanoseconds; doubling wraps.\<close>

definition nextBackoff :: "int \<Rightarrow> int \<Rightarrow> int" where
  "nextBackoff cur mx = (let nxt = wrap64 (cur * 2) in if nxt \<le> 0 \<or> nxt > mx then mx else nxt)"

text \<open>\<open>float64\<close> rounds an integer to the nearest number with a mantissa of 53 bits, ties to even; \<open>fifth\<close> is
  \<^verbatim>\<open>time.Duration(float64(d) * 0.2)\<close>, where the constant is the float64 \<^verbatim>\<open>3602879701896397 / 2^54\<close>, the product is rounded again and
  the conversion drops the fraction.\<close>

definition float64 :: "int \<Rightarrow> int" where
  "float64 n =
     (let k = bitLen (nat n) - 53; q = n div 2 ^ k; r = n mod 2 ^ k
      in (if 2 * r > 2 ^ k \<or> (2 * r = 2 ^ k \<and> odd q) then q + 1 else q) * 2 ^ k)"

definition fifth :: "int \<Rightarrow> int" where
  "fifth d = sgn d * (float64 (float64 \<bar>d\<bar> * 3602879701896397) div 2 ^ 54)"

text \<open>The delay of a retry, up to a fifth longer or shorter; \<open>int64N\<close> is the random number below a positive bound.\<close>

definition jitter :: "(int \<Rightarrow> int) \<Rightarrow> int \<Rightarrow> int" where
  "jitter int64N d =
     (let delta = fifth d in
      if delta \<le> 0 then d else wrap64 (d + wrap64 (int64N (wrap64 (2 * delta)) - delta)))"

definition below :: "(int \<Rightarrow> int) \<Rightarrow> bool" where
  "below int64N \<longleftrightarrow> (\<forall>n>0. 0 \<le> int64N n \<and> int64N n < n)"

subsection \<open>Operations\<close>

definition sup_defaults :: "Config \<Rightarrow> Config" where
  "sup_defaults cfg =
     (let cfg = (if cfg_ArbitrationTimeout cfg \<le> 0 then cfg\<lparr>cfg_ArbitrationTimeout := 10000000000\<rparr> else cfg);
          cfg = (if cfg_BackoffInitial cfg \<le> 0 then cfg\<lparr>cfg_BackoffInitial := 500000000\<rparr> else cfg)
      in if cfg_BackoffMax cfg \<le> 0 then cfg\<lparr>cfg_BackoffMax := 30000000000\<rparr> else cfg)"

definition sup_New :: "Supervisor" where
  "sup_New = \<lparr>state = StateDisconnected, lastErr = None, changed = 0, grace = None, events = [], sendCh = [],
     sendGate = GateFree, draining = False, stop = False, stopped = False, parentErr = None,
     at_phase = NotStarted, backoff = 0, requests = [], sent = []\<rparr>"

definition IsPrimary :: "Supervisor \<Rightarrow> bool" where
  "IsPrimary s = (state s = StatePrimary)"

definition WatchState :: "Supervisor \<Rightarrow> State \<times> nat" where
  "WatchState s = (state s, changed s)"

text \<open>A full events channel drops the event.\<close>

definition setState :: "State \<Rightarrow> goerr option \<Rightarrow> Supervisor \<Rightarrow> Supervisor" where
  "setState st err s =
     (let s = (if state s \<noteq> st then s\<lparr>state := st, changed := changed s + 1\<rparr> else s);
          s = s\<lparr>lastErr := err\<rparr>
      in if length (events s) < chan_cap then s\<lparr>events := events s @ [\<lparr>ev_State = st, ev_Err = err\<rparr>]\<rparr> else s)"

text \<open>\<open>statusOK\<close>: the status code of an arbitration update; a nil status counts as OK.\<close>

definition statusOK :: "int option \<Rightarrow> bool" where
  "statusOK st = (case st of None \<Rightarrow> True | Some code \<Rightarrow> code = codes_OK)"

definition applyArbitration :: "int option \<Rightarrow> Supervisor \<Rightarrow> Supervisor" where
  "applyArbitration status s = setState (if statusOK status then StatePrimary else StateBackup) None s"

text \<open>\<open>sendRequest.finish\<close>: only the first call has an effect.\<close>

definition finish :: "nat \<Rightarrow> goerr option \<Rightarrow> Supervisor \<Rightarrow> Supervisor" where
  "finish rid err s =
     (if sr_done (requests s ! rid) then s
      else s\<lparr>requests := (requests s)[rid := (requests s ! rid)\<lparr>sr_done := True, sr_err := err\<rparr>]\<rparr>)"

text \<open>\<open>failPending\<close> when no caller queues a request meanwhile; the step relation takes it one request at a
  time.\<close>

definition failPending :: "goerr \<Rightarrow> Supervisor \<Rightarrow> Supervisor" where
  "failPending err s = (fold (\<lambda>rid. finish rid (Some err)) (sendCh s) s)\<lparr>sendCh := []\<rparr>"

definition newRequest :: "string option \<Rightarrow> goerr option \<Rightarrow> Supervisor \<Rightarrow> Supervisor" where
  "newRequest message ctxErr s =
     s\<lparr>requests := requests s @
        [\<lparr>sr_message = message, sr_ctxErr = ctxErr, sr_state = snd (WatchState s),
          sr_accepted = fst (WatchState s), sr_done = False, sr_err = None\<rparr>]\<rparr>"

text \<open>\<open>sendRequest.wait\<close>: the result a waiting caller can return with; \<open>None\<close> while it must wait. A
  finished request wins over the end of the context when \<open>wait\<close> is entered; afterwards either can
  be seen.\<close>

definition wait_results :: "Supervisor \<Rightarrow> nat \<Rightarrow> goerr option set" where
  "wait_results s rid =
     (let r = requests s ! rid in
      (if sr_done r then {sr_err r} else {}) \<union>
      (case sr_ctxErr r of None \<Rightarrow> {} | Some e \<Rightarrow> {Some e}) \<union>
      (if stopped s \<and> \<not> sr_done r then {Some errStopped} else {}))"

text \<open>The arbitration message: the election ID of the configuration, and a role only when it has a name.\<close>

record arbitration_msg =
  am_DeviceId :: uint64
  am_ElectionId :: ElectionID
  am_Role :: "string option"

definition arbitrationRequest :: "Config \<Rightarrow> arbitration_msg" where
  "arbitrationRequest cfg =
     \<lparr>am_DeviceId = cfg_DeviceID cfg, am_ElectionId = ElectionID (cfg_ElectionHigh cfg) (cfg_ElectionLow cfg),
      am_Role = (if cfg_Role cfg \<noteq> '''' then Some (cfg_Role cfg) else None)\<rparr>"

subsection \<open>Results of arbitration and of closing the stream\<close>

text \<open>The errors \<open>arbitrate\<close> can return once it has sent: from \<open>Close\<close>, from the deadline or the
  context, from the receive, and for a first message of another kind.\<close>

inductive arbitrate_error :: "bool \<Rightarrow> Supervisor \<Rightarrow> goerr \<Rightarrow> bool" for answered s where
  arb_stop: "stop s \<Longrightarrow> arbitrate_error answered s (Errorf ''arbitration: %w'' [AErr errStopped])"
| arb_deadline: "answered \<Longrightarrow> e \<in> {CtxDeadlineExceeded, CtxCanceled} \<Longrightarrow> arbitrate_error answered s (Errorf ''arbitration: %w'' [AErr e])"
| arb_recv: "answered \<Longrightarrow> arbitrate_error answered s (Errorf ''arbitration recv: %w'' [AErr e])"
| arb_other: "answered \<Longrightarrow> arbitrate_error answered s (Errorf ''first stream message was %T, expected arbitration'' [AStr ty])"

text \<open>\<open>finishStream\<close>: nil only for a clean end of the stream while neither the context nor \<open>Close\<close>
  interrupts; an interruption is \<open>errStopped\<close>.\<close>

definition finishStream_recv :: "Supervisor \<Rightarrow> goerr \<Rightarrow> goerr option" where
  "finishStream_recv s err =
     (if parentErr s \<noteq> None then Some errStopped else if errors_Is_EOF err then None else Some err)"

inductive finishStream_result :: "bool \<Rightarrow> Supervisor \<Rightarrow> goerr option \<Rightarrow> bool" for answered s where
  fin_closeSend: "answered \<Longrightarrow> finishStream_result answered s (Some (if parentErr s \<noteq> None then errStopped else e))"
| fin_recv: "answered \<Longrightarrow> finishStream_result answered s (finishStream_recv s e)"
| fin_ctx: "parentErr s \<noteq> None \<Longrightarrow> finishStream_result answered s (Some errStopped)"
| fin_stop: "stop s \<Longrightarrow> finishStream_result answered s (Some errStopped)"

subsection \<open>The step relation\<close>

definition stopping :: "Supervisor \<Rightarrow> bool" where
  "stopping s \<longleftrightarrow> parentErr s \<noteq> None \<or> stop s \<or> draining s"

text \<open>Leaving \<open>serve\<close> after a failure: report it, then fail what is queued.\<close>

definition disconnect :: "goerr \<Rightarrow> Supervisor \<Rightarrow> Supervisor" where
  "disconnect err s = (setState StateDisconnected (Some err) s)\<lparr>at_phase := Failing err\<rparr>"

abbreviation pop :: "Supervisor \<Rightarrow> Supervisor" where
  "pop s \<equiv> s\<lparr>sendCh := tl (sendCh s)\<rparr>"

inductive sup_moves :: "Config \<Rightarrow> bool \<Rightarrow> Supervisor \<Rightarrow> Supervisor \<Rightarrow> bool" for cfg answered where
  \<comment> \<open>the environment: contexts end, the consumer reads an event\<close>
  env_ctx: "rid < length (requests s) \<Longrightarrow> sr_ctxErr (requests s ! rid) = None \<Longrightarrow> e \<in> {CtxCanceled, CtxDeadlineExceeded} \<Longrightarrow>
    answered \<Longrightarrow> sup_moves cfg answered s (s\<lparr>requests := (requests s)[rid := (requests s ! rid)\<lparr>sr_ctxErr := Some e\<rparr>]\<rparr>)"
| env_parent: "parentErr s = None \<Longrightarrow> e \<in> {CtxCanceled, CtxDeadlineExceeded} \<Longrightarrow> answered \<Longrightarrow> sup_moves cfg answered s (s\<lparr>parentErr := Some e\<rparr>)"
| env_event: "events s \<noteq> [] \<Longrightarrow> sup_moves cfg answered s (s\<lparr>events := tl (events s)\<rparr>)"
  \<comment> \<open>Send\<close>
| send_acquire: "sendGate s = GateFree \<Longrightarrow> sup_moves cfg answered s (s\<lparr>sendGate := SendAcquired msg ctxErr\<rparr>)"
| send_watch: "sendGate s = SendAcquired msg ctxErr \<Longrightarrow>
    sup_moves cfg answered s ((newRequest (Some msg) ctxErr s)\<lparr>sendGate := SendQueuing (length (requests s))\<rparr>)"
| send_refuse: "sendGate s = SendQueuing rid \<Longrightarrow>
    sr_ctxErr (requests s ! rid) \<noteq> None \<or> draining s \<or> stop s \<or> stopped s \<Longrightarrow> sup_moves cfg answered s (s\<lparr>sendGate := GateFree\<rparr>)"
| send_check: "sendGate s = SendQueuing rid \<Longrightarrow> \<not> draining s \<Longrightarrow> \<not> stop s \<Longrightarrow> \<not> stopped s \<Longrightarrow>
    sup_moves cfg answered s (s\<lparr>sendGate := SendPushing rid\<rparr>)"
| send_push: "sendGate s = SendPushing rid \<Longrightarrow> length (sendCh s) < chan_cap \<Longrightarrow>
    sup_moves cfg answered s (s\<lparr>sendCh := sendCh s @ [rid], sendGate := GateFree\<rparr>)"
| send_abort: "sendGate s = SendPushing rid \<Longrightarrow> sr_ctxErr (requests s ! rid) \<noteq> None \<or> stop s \<or> stopped s \<Longrightarrow>
    sup_moves cfg answered s (s\<lparr>sendGate := GateFree\<rparr>)"
  \<comment> \<open>CloseGracefully\<close>
| close_acquire: "sendGate s = GateFree \<Longrightarrow> grace s = None \<Longrightarrow>
    sup_moves cfg answered s ((newRequest None ctxErr s)\<lparr>grace := Some (length (requests s)), draining := True,
      sendGate := CloseAcquired (length (requests s))\<rparr>)"
| close_check: "sendGate s = CloseAcquired rid \<Longrightarrow> \<not> sr_done (requests s ! rid) \<Longrightarrow> \<not> stopped s \<Longrightarrow>
    sup_moves cfg answered s (s\<lparr>sendGate := ClosePushing rid\<rparr>)"
| close_done: "sendGate s = CloseAcquired rid \<Longrightarrow> sr_done (requests s ! rid) \<Longrightarrow> sup_moves cfg answered s (s\<lparr>sendGate := GateFree\<rparr>)"
| close_stopped: "sendGate s \<in> {CloseAcquired rid, ClosePushing rid} \<Longrightarrow> stopped s \<Longrightarrow>
    sup_moves cfg answered s ((finish rid (Some errStopped) s)\<lparr>sendGate := GateFree\<rparr>)"
| close_push: "sendGate s = ClosePushing rid \<Longrightarrow> length (sendCh s) < chan_cap \<Longrightarrow>
    sup_moves cfg answered s (s\<lparr>sendCh := sendCh s @ [rid], sendGate := GateFree\<rparr>)"
| close_ctx: "sendGate s = ClosePushing rid \<Longrightarrow> sr_ctxErr (requests s ! rid) = Some e \<Longrightarrow>
    sup_moves cfg answered s ((finish rid (Some e) s)\<lparr>sendGate := GateFree\<rparr>)"
  \<comment> \<open>Close: the stop channel first, the context it cancels is \<open>env_parent\<close>\<close>
| close_stop: "sup_moves cfg answered s (s\<lparr>stop := True\<rparr>)"
  \<comment> \<open>Start, and the top of the loop of run\<close>
| start: "at_phase s = NotStarted \<Longrightarrow> sup_moves cfg answered s (s\<lparr>at_phase := LoopTop, backoff := cfg_BackoffInitial cfg\<rparr>)"
| top_return: "at_phase s = LoopTop \<Longrightarrow> parentErr s \<noteq> None \<Longrightarrow> sup_moves cfg answered s (s\<lparr>at_phase := ExitState\<rparr>)"
| top_check: "at_phase s = LoopTop \<Longrightarrow> parentErr s = None \<Longrightarrow> sup_moves cfg answered s (s\<lparr>at_phase := LoopSelect\<rparr>)"
| select_return: "at_phase s = LoopSelect \<Longrightarrow> stop s \<or> draining s \<Longrightarrow> sup_moves cfg answered s (s\<lparr>at_phase := ExitState\<rparr>)"
| select_connect: "at_phase s = LoopSelect \<Longrightarrow> \<not> stop s \<Longrightarrow> \<not> draining s \<Longrightarrow>
    sup_moves cfg answered s ((setState StateConnecting None s)\<lparr>at_phase := Dialing\<rparr>)"
  \<comment> \<open>dialling and arbitration\<close>
| dial_fail: "at_phase s = Dialing \<Longrightarrow> answered \<Longrightarrow> sup_moves cfg answered s ((setState StateDisconnected (Some err) s)\<lparr>at_phase := SleepCheck\<rparr>)"
| dial_ok: "at_phase s = Dialing \<Longrightarrow> answered \<Longrightarrow> sup_moves cfg answered s (s\<lparr>at_phase := ArbitrateSend\<rparr>)"
| arb_send: "at_phase s = ArbitrateSend \<Longrightarrow> answered \<Longrightarrow>
    sup_moves cfg answered s ((setState StateDisconnected (Some (Errorf ''send arbitration: %w'' [AErr e])) s)\<lparr>at_phase := SleepCheck\<rparr>)"
| arb_sent: "at_phase s = ArbitrateSend \<Longrightarrow> answered \<Longrightarrow> sup_moves cfg answered s (s\<lparr>at_phase := Arbitrating\<rparr>)"
| arb_fail: "at_phase s = Arbitrating \<Longrightarrow> arbitrate_error answered s err \<Longrightarrow>
    sup_moves cfg answered s ((setState StateDisconnected (Some err) s)\<lparr>at_phase := SleepCheck\<rparr>)"
| arb_ok: "at_phase s = Arbitrating \<Longrightarrow>
    answered \<Longrightarrow> sup_moves cfg answered s ((applyArbitration status s)\<lparr>at_phase := Serving, backoff := cfg_BackoffInitial cfg\<rparr>)"
  \<comment> \<open>sleep\<close>
| sleep_zero: "at_phase s = SleepCheck \<Longrightarrow> backoff s \<le> 0 \<Longrightarrow>
    sup_moves cfg answered s (s\<lparr>at_phase := LoopTop, backoff := nextBackoff (backoff s) (cfg_BackoffMax cfg)\<rparr>)"
| sleep_refuse: "at_phase s = SleepCheck \<Longrightarrow> 0 < backoff s \<Longrightarrow> stopping s \<Longrightarrow> sup_moves cfg answered s (s\<lparr>at_phase := ExitState\<rparr>)"
| sleep_arm: "at_phase s = SleepCheck \<Longrightarrow> 0 < backoff s \<Longrightarrow> \<not> stop s \<Longrightarrow> \<not> draining s \<Longrightarrow> below int64N \<Longrightarrow>
    sup_moves cfg answered s (s\<lparr>at_phase := SleepTimer (jitter int64N (backoff s))\<rparr>)"
| timer_fires: "at_phase s = SleepTimer d \<Longrightarrow>
    answered \<Longrightarrow> sup_moves cfg answered s (s\<lparr>at_phase := LoopTop, backoff := nextBackoff (backoff s) (cfg_BackoffMax cfg)\<rparr>)"
| timer_return: "at_phase s = SleepTimer d \<Longrightarrow> stopping s \<Longrightarrow> sup_moves cfg answered s (s\<lparr>at_phase := ExitState\<rparr>)"
  \<comment> \<open>serve\<close>
| serve_ctx: "at_phase s = Serving \<Longrightarrow> parentErr s \<noteq> None \<Longrightarrow> sup_moves cfg answered s (s\<lparr>at_phase := LoopTop\<rparr>)"
| serve_stop: "at_phase s = Serving \<Longrightarrow> stop s \<Longrightarrow> sup_moves cfg answered s (s\<lparr>at_phase := LoopTop\<rparr>)"
| serve_arb: "at_phase s = Serving \<Longrightarrow> answered \<Longrightarrow> sup_moves cfg answered s (applyArbitration status s)"
| serve_recv: "at_phase s = Serving \<Longrightarrow> answered \<Longrightarrow> sup_moves cfg answered s (disconnect err s)"
| serve_cancelled: "at_phase s = Serving \<Longrightarrow> sendCh s = rid # q \<Longrightarrow> sr_ctxErr (requests s ! rid) = Some e \<Longrightarrow>
    sup_moves cfg answered s (finish rid (Some e) (pop s))"
| serve_close: "at_phase s = Serving \<Longrightarrow> sendCh s = rid # q \<Longrightarrow> sr_ctxErr (requests s ! rid) = None \<Longrightarrow>
    sr_message (requests s ! rid) = None \<Longrightarrow> sup_moves cfg answered s ((pop s)\<lparr>at_phase := Finishing rid\<rparr>)"
| serve_not_primary: "at_phase s = Serving \<Longrightarrow> sendCh s = rid # q \<Longrightarrow> sr_ctxErr (requests s ! rid) = None \<Longrightarrow>
    sr_message (requests s ! rid) \<noteq> None \<Longrightarrow> \<not> IsPrimary s \<Longrightarrow>
    sup_moves cfg answered s (finish rid (Some (Sentinel ErrNotPrimary)) (pop s))"
| serve_stale: "at_phase s = Serving \<Longrightarrow> sendCh s = rid # q \<Longrightarrow> sr_ctxErr (requests s ! rid) = None \<Longrightarrow>
    sr_message (requests s ! rid) \<noteq> None \<Longrightarrow> IsPrimary s \<Longrightarrow> snd (WatchState s) \<noteq> sr_state (requests s ! rid) \<Longrightarrow>
    sup_moves cfg answered s (finish rid (Some errStopped) (pop s))"
| serve_send: "at_phase s = Serving \<Longrightarrow> sendCh s = rid # q \<Longrightarrow> sr_ctxErr (requests s ! rid) = None \<Longrightarrow>
    sr_message (requests s ! rid) \<noteq> None \<Longrightarrow> IsPrimary s \<Longrightarrow> snd (WatchState s) = sr_state (requests s ! rid) \<Longrightarrow>
    sup_moves cfg answered s ((pop s)\<lparr>at_phase := Sending rid, sent := sent s @ [(rid, changed s, state s)]\<rparr>)"
  \<comment> \<open>the return of stream.Send: the error of the request's context replaces its result\<close>
| sending_ok: "at_phase s = Sending rid \<Longrightarrow> sr_ctxErr (requests s ! rid) = None \<Longrightarrow>
    answered \<Longrightarrow> sup_moves cfg answered s ((finish rid None s)\<lparr>at_phase := Serving\<rparr>)"
| sending_fails: "at_phase s = Sending rid \<Longrightarrow> sr_ctxErr (requests s ! rid) \<in> {None, Some err} \<Longrightarrow>
    answered \<Longrightarrow> sup_moves cfg answered s (disconnect err (finish rid (Some err) s))"
  \<comment> \<open>failPending, then back to the top of the loop\<close>
| failing_one: "at_phase s = Failing err \<Longrightarrow> sendCh s = rid # q \<Longrightarrow> sup_moves cfg answered s (finish rid (Some err) (pop s))"
| failing_done: "at_phase s = Failing err \<Longrightarrow> sendCh s = [] \<Longrightarrow> sup_moves cfg answered s (s\<lparr>at_phase := LoopTop\<rparr>)"
  \<comment> \<open>finishStream\<close>
| finishing_arb: "at_phase s = Finishing rid \<Longrightarrow> answered \<Longrightarrow> sup_moves cfg answered s (applyArbitration status s)"
| finishing_done: "at_phase s = Finishing rid \<Longrightarrow> finishStream_result answered s err \<Longrightarrow>
    sup_moves cfg answered s ((finish rid err s)\<lparr>at_phase := ExitState\<rparr>)"
  \<comment> \<open>the deferred calls of run, last deferred first\<close>
| exit_state: "at_phase s = ExitState \<Longrightarrow>
    sup_moves cfg answered s ((if state s \<noteq> StateDisconnected then setState StateDisconnected None s else s)\<lparr>at_phase := ExitFail\<rparr>)"
| exit_fail: "at_phase s = ExitFail \<Longrightarrow> sendCh s = rid # q \<Longrightarrow> sup_moves cfg answered s (finish rid (Some errStopped) (pop s))"
| exit_failed: "at_phase s = ExitFail \<Longrightarrow> sendCh s = [] \<Longrightarrow> sup_moves cfg answered s (s\<lparr>at_phase := ExitClose\<rparr>)"
| exit_close: "at_phase s = ExitClose \<Longrightarrow> sup_moves cfg answered s (s\<lparr>stopped := True, at_phase := Stopped\<rparr>)"

abbreviation sup_step :: "Config \<Rightarrow> Supervisor \<Rightarrow> Supervisor \<Rightarrow> bool" where
  "sup_step cfg \<equiv> sup_moves cfg True"


abbreviation sup_reach :: "Config \<Rightarrow> Supervisor \<Rightarrow> bool" where
  "sup_reach cfg \<equiv> reach (\<lambda>s. s = sup_New) (sup_step cfg)"

subsection \<open>What the operations leave alone\<close>

lemma setState_fields [simp]:
  "state (setState st e s) = st" "lastErr (setState st e s) = e"
  "changed (setState st e s) = (if state s = st then changed s else Suc (changed s))"
  "grace (setState st e s) = grace s" "sendCh (setState st e s) = sendCh s"
  "sendGate (setState st e s) = sendGate s" "draining (setState st e s) = draining s"
  "stop (setState st e s) = stop s" "stopped (setState st e s) = stopped s"
  "parentErr (setState st e s) = parentErr s" "at_phase (setState st e s) = at_phase s"
  "backoff (setState st e s) = backoff s" "requests (setState st e s) = requests s"
  "sent (setState st e s) = sent s"
  by (simp_all add: setState_def Let_def)

lemma setState_events: "length (events s) \<le> chan_cap \<Longrightarrow> length (events (setState st e s)) \<le> chan_cap"
  by (simp add: setState_def Let_def)

lemma applyArbitration_fields [simp]:
  "state (applyArbitration c s) = (if statusOK c then StatePrimary else StateBackup)"
  "grace (applyArbitration c s) = grace s" "sendCh (applyArbitration c s) = sendCh s"
  "sendGate (applyArbitration c s) = sendGate s" "draining (applyArbitration c s) = draining s"
  "stop (applyArbitration c s) = stop s" "stopped (applyArbitration c s) = stopped s"
  "parentErr (applyArbitration c s) = parentErr s" "at_phase (applyArbitration c s) = at_phase s"
  "backoff (applyArbitration c s) = backoff s" "requests (applyArbitration c s) = requests s"
  "sent (applyArbitration c s) = sent s"
  "changed s \<le> changed (applyArbitration c s)"
  by (simp_all add: applyArbitration_def)

lemma finish_fields [simp]:
  "state (finish rid e s) = state s" "changed (finish rid e s) = changed s"
  "grace (finish rid e s) = grace s" "events (finish rid e s) = events s" "sendCh (finish rid e s) = sendCh s"
  "sendGate (finish rid e s) = sendGate s" "draining (finish rid e s) = draining s"
  "stop (finish rid e s) = stop s" "stopped (finish rid e s) = stopped s"
  "parentErr (finish rid e s) = parentErr s" "at_phase (finish rid e s) = at_phase s"
  "backoff (finish rid e s) = backoff s" "sent (finish rid e s) = sent s"
  "length (requests (finish rid e s)) = length (requests s)"
  by (simp_all add: finish_def)

text \<open>A request keeps everything but its result, and a finished one keeps its result too.\<close>

lemma finish_request:
  "requests (finish rid e s) ! i =
     (if i = rid \<and> i < length (requests s) \<and> \<not> sr_done (requests s ! i)
      then (requests s ! i)\<lparr>sr_done := True, sr_err := e\<rparr> else requests s ! i)"
  by (cases "i = rid"; cases "rid < length (requests s)") (auto simp: finish_def list_update_beyond)

lemma fold_finish_fields [simp]:
  "state (fold (\<lambda>rid. finish rid e) q s) = state s" "changed (fold (\<lambda>rid. finish rid e) q s) = changed s"
  "grace (fold (\<lambda>rid. finish rid e) q s) = grace s" "events (fold (\<lambda>rid. finish rid e) q s) = events s"
  "sendGate (fold (\<lambda>rid. finish rid e) q s) = sendGate s" "draining (fold (\<lambda>rid. finish rid e) q s) = draining s"
  "stop (fold (\<lambda>rid. finish rid e) q s) = stop s" "stopped (fold (\<lambda>rid. finish rid e) q s) = stopped s"
  "parentErr (fold (\<lambda>rid. finish rid e) q s) = parentErr s" "at_phase (fold (\<lambda>rid. finish rid e) q s) = at_phase s"
  "backoff (fold (\<lambda>rid. finish rid e) q s) = backoff s" "sent (fold (\<lambda>rid. finish rid e) q s) = sent s"
  "length (requests (fold (\<lambda>rid. finish rid e) q s)) = length (requests s)"
  by (induction q arbitrary: s) simp_all

lemma fold_finish_request:
  "requests (fold (\<lambda>rid. finish rid e) q s) ! i =
     (if i \<in> set q \<and> i < length (requests s) \<and> \<not> sr_done (requests s ! i)
      then (requests s ! i)\<lparr>sr_done := True, sr_err := e\<rparr> else requests s ! i)"
  by (induction q arbitrary: s) (auto simp: finish_request)

lemma failPending_fields [simp]:
  "state (failPending e s) = state s" "changed (failPending e s) = changed s"
  "grace (failPending e s) = grace s" "events (failPending e s) = events s" "sendCh (failPending e s) = []"
  "sendGate (failPending e s) = sendGate s" "draining (failPending e s) = draining s"
  "stop (failPending e s) = stop s" "stopped (failPending e s) = stopped s"
  "parentErr (failPending e s) = parentErr s" "at_phase (failPending e s) = at_phase s"
  "backoff (failPending e s) = backoff s" "sent (failPending e s) = sent s"
  "length (requests (failPending e s)) = length (requests s)"
  by (simp_all add: failPending_def)

lemma failPending_request:
  "requests (failPending e s) ! i =
     (if i \<in> set (sendCh s) \<and> i < length (requests s) \<and> \<not> sr_done (requests s ! i)
      then (requests s ! i)\<lparr>sr_done := True, sr_err := Some e\<rparr> else requests s ! i)"
  by (simp add: failPending_def fold_finish_request)





lemma disconnect_fields [simp]:
  "state (disconnect e s) = StateDisconnected" "grace (disconnect e s) = grace s"
  "sendCh (disconnect e s) = sendCh s" "sendGate (disconnect e s) = sendGate s"
  "draining (disconnect e s) = draining s" "stop (disconnect e s) = stop s" "stopped (disconnect e s) = stopped s"
  "parentErr (disconnect e s) = parentErr s" "at_phase (disconnect e s) = Failing e"
  "backoff (disconnect e s) = backoff s" "sent (disconnect e s) = sent s"
  "requests (disconnect e s) = requests s"
  "events (disconnect e s) = events (setState StateDisconnected (Some e) s)"
  by (simp_all add: disconnect_def)

lemma newRequest_fields [simp]:
  "state (newRequest m c s) = state s" "changed (newRequest m c s) = changed s" "events (newRequest m c s) = events s"
  "sendCh (newRequest m c s) = sendCh s" "stop (newRequest m c s) = stop s" "stopped (newRequest m c s) = stopped s"
  "parentErr (newRequest m c s) = parentErr s" "at_phase (newRequest m c s) = at_phase s"
  "backoff (newRequest m c s) = backoff s" "sent (newRequest m c s) = sent s" "grace (newRequest m c s) = grace s"
  "draining (newRequest m c s) = draining s" "sendGate (newRequest m c s) = sendGate s"
  "length (requests (newRequest m c s)) = Suc (length (requests s))"
  by (simp_all add: newRequest_def)

lemma newRequest_request:
  "i \<le> length (requests s) \<Longrightarrow> requests (newRequest m c s) ! i =
     (if i < length (requests s) then requests s ! i
      else \<lparr>sr_message = m, sr_ctxErr = c, sr_state = changed s, sr_accepted = state s, sr_done = False, sr_err = None\<rparr>)"
  by (auto simp: newRequest_def WatchState_def nth_append)

lemmas request_lookups = finish_request failPending_request newRequest_request nth_list_update

subsection \<open>The state follows the phase of the main loop\<close>

text \<open>The states possible in a phase, given whether \<open>Close\<close> was called and the context has ended.\<close>

fun phase_states :: "phase \<Rightarrow> bool \<Rightarrow> bool \<Rightarrow> State set" where
  "phase_states LoopTop stp dead = (if stp \<or> dead then {StateDisconnected, StateBackup, StatePrimary} else {StateDisconnected})"
| "phase_states LoopSelect stp dead = (if stp then {StateDisconnected, StateBackup, StatePrimary} else {StateDisconnected})"
| "phase_states Dialing stp dead = {StateConnecting}"
| "phase_states ArbitrateSend stp dead = {StateConnecting}"
| "phase_states Arbitrating stp dead = {StateConnecting}"
| "phase_states Serving stp dead = {StateBackup, StatePrimary}"
| "phase_states (Sending rid) stp dead = {StatePrimary}"
| "phase_states (Finishing rid) stp dead = {StateBackup, StatePrimary}"
| "phase_states ExitState stp dead = {StateDisconnected, StateBackup, StatePrimary}"
| "phase_states ph stp dead = {StateDisconnected}"

definition phase_ok :: "Supervisor \<Rightarrow> bool" where
  "phase_ok s \<longleftrightarrow> state s \<in> phase_states (at_phase s) (stop s) (parentErr s \<noteq> None) \<and>
     (stopped s \<longleftrightarrow> at_phase s = Stopped)"

lemma phase_states_mono:
  "st \<in> phase_states ph a b \<Longrightarrow> st \<in> phase_states ph True b" "st \<in> phase_states ph a b \<Longrightarrow> st \<in> phase_states ph a True"
  by (cases ph; auto split: if_splits)+

lemma phase_ok_init: "phase_ok sup_New"
  by (simp add: phase_ok_def sup_New_def)

lemma phase_ok_step: "sup_step cfg s t \<Longrightarrow> phase_ok s \<Longrightarrow> phase_ok t"
proof (induction rule: sup_moves.induct)
  case (env_parent s e)
  then show ?case by (auto simp: phase_ok_def dest: phase_states_mono(2))
next
  case (close_stop s)
  then show ?case by (auto simp: phase_ok_def dest: phase_states_mono(1))
qed (auto simp: phase_ok_def IsPrimary_def split: if_splits)

subsection \<open>Bounds of the channels\<close>

definition chan_ok :: "Supervisor \<Rightarrow> bool" where
  "chan_ok s \<longleftrightarrow> length (sendCh s) \<le> chan_cap \<and> length (events s) \<le> chan_cap"

lemma chan_ok_step: "sup_step cfg s t \<Longrightarrow> chan_ok s \<Longrightarrow> chan_ok t"
  by (induction rule: sup_moves.induct)
    (auto simp: chan_ok_def applyArbitration_def intro!: setState_events)

subsection \<open>Ownership of requests\<close>

text \<open>The requests that some party still has to finish: those in the queue, the one held by the
  caller with the send token, and the one the main loop is working on.\<close>

fun gate_request :: "gate \<Rightarrow> nat list" where
  "gate_request (SendQueuing r) = [r]"
| "gate_request (SendPushing r) = [r]"
| "gate_request (CloseAcquired r) = [r]"
| "gate_request (ClosePushing r) = [r]"
| "gate_request _ = []"

fun phase_request :: "phase \<Rightarrow> nat list" where
  "phase_request (Sending r) = [r]"
| "phase_request (Finishing r) = [r]"
| "phase_request _ = []"

definition held :: "Supervisor \<Rightarrow> nat list" where
  "held s = sendCh s @ gate_request (sendGate s) @ phase_request (at_phase s)"

definition req_ok :: "Supervisor \<Rightarrow> bool" where
  "req_ok s \<longleftrightarrow> distinct (held s) \<and>
     (\<forall>r\<in>set (held s). r < length (requests s) \<and> \<not> sr_done (requests s ! r))"

lemma newRequest_old [simp]: "r < length (requests s) \<Longrightarrow> requests (newRequest m c s) ! r = requests s ! r"
  by (simp add: newRequest_request)

lemma newRequest_new [simp]:
  "requests (newRequest m c s) ! length (requests s) =
     \<lparr>sr_message = m, sr_ctxErr = c, sr_state = changed s, sr_accepted = state s, sr_done = False, sr_err = None\<rparr>"
  by (simp add: newRequest_request)

lemma req_ok_new:
  assumes "req_ok s" "gate_request (sendGate s) = []" "gate_request g = [length (requests s)]"
  shows "req_ok ((newRequest m c s)\<lparr>sendGate := g\<rparr>)"
  using assms by (fastforce simp: req_ok_def held_def less_Suc_eq)

lemma req_ok_step: "sup_step cfg s t \<Longrightarrow> req_ok s \<Longrightarrow> req_ok t"
proof (induction rule: sup_moves.induct)
  case (send_watch s msg ctxErr)
  then show ?case by (intro req_ok_new) simp_all
next
  case (close_acquire s ctxErr)
  then have "req_ok ((newRequest None ctxErr s)\<lparr>sendGate := CloseAcquired (length (requests s))\<rparr>)"
    by (intro req_ok_new) simp_all
  then show ?case by (simp add: req_ok_def held_def)
qed (auto simp: req_ok_def held_def finish_request failPending_request nth_list_update)

subsection \<open>Generations\<close>

text \<open>A request accepted in the current generation was accepted in the current state.\<close>

definition gen_ok :: "Supervisor \<Rightarrow> bool" where
  "gen_ok s \<longleftrightarrow> (\<forall>r < length (requests s). sr_state (requests s ! r) \<le> changed s \<and>
     (sr_state (requests s ! r) = changed s \<longrightarrow> sr_accepted (requests s ! r) = state s))"

lemma gen_ok_setState: "gen_ok s \<Longrightarrow> gen_ok (setState st e s)"
  by (auto simp: gen_ok_def le_Suc_eq)

lemma gen_ok_finish: "gen_ok s \<Longrightarrow> gen_ok (finish r e s)"
  by (auto simp: gen_ok_def finish_request)

lemma gen_ok_failPending: "gen_ok s \<Longrightarrow> gen_ok (failPending e s)"
  by (auto simp: gen_ok_def failPending_request)

lemma gen_ok_upd [simp]:
  "gen_ok (s\<lparr>at_phase := ph\<rparr>) = gen_ok s" "gen_ok (s\<lparr>sendGate := g\<rparr>) = gen_ok s" "gen_ok (s\<lparr>sendCh := q\<rparr>) = gen_ok s"
  "gen_ok (s\<lparr>events := ev\<rparr>) = gen_ok s" "gen_ok (s\<lparr>parentErr := pe\<rparr>) = gen_ok s" "gen_ok (s\<lparr>backoff := b\<rparr>) = gen_ok s"
  "gen_ok (s\<lparr>stop := sb\<rparr>) = gen_ok s" "gen_ok (s\<lparr>stopped := sb\<rparr>) = gen_ok s" "gen_ok (s\<lparr>sent := l\<rparr>) = gen_ok s"
  "gen_ok (s\<lparr>grace := gr\<rparr>) = gen_ok s" "gen_ok (s\<lparr>draining := sb\<rparr>) = gen_ok s"
  by (simp_all add: gen_ok_def)

lemma gen_ok_new: "gen_ok s \<Longrightarrow> gen_ok (newRequest m c s)"
  by (auto simp: gen_ok_def less_Suc_eq)

lemma gen_ok_step: "sup_step cfg s t \<Longrightarrow> gen_ok s \<Longrightarrow> gen_ok t"
proof (induction rule: sup_moves.induct)
  case (env_ctx rid s e)
  then show ?case by (auto simp: gen_ok_def nth_list_update)
qed (simp_all add: gen_ok_new gen_ok_setState gen_ok_finish gen_ok_failPending applyArbitration_def disconnect_def)

subsection \<open>Graceful close\<close>

text \<open>
  \<open>CloseGracefully\<close> has at most one request, the only one without a message. Once the supervisor is
  draining no ordinary request can be queued any more, so the closing request is the last of the
  queue, and when the main loop takes it the queue is empty.
\<close>

definition grace_ok :: "Supervisor \<Rightarrow> bool" where
  "grace_ok s \<longleftrightarrow> (draining s \<longleftrightarrow> grace s \<noteq> None) \<and>
     (\<forall>r < length (requests s). sr_message (requests s ! r) = None \<longleftrightarrow> grace s = Some r) \<and>
     (\<forall>r. sendGate s \<in> {CloseAcquired r, ClosePushing r} \<longrightarrow> grace s = Some r) \<and>
     (\<forall>r. sendGate s \<in> {SendQueuing r, SendPushing r} \<longrightarrow> grace s \<noteq> Some r) \<and>
     (draining s \<longrightarrow> (\<forall>r. sendGate s \<noteq> SendPushing r)) \<and>
     (\<forall>g. grace s = Some g \<longrightarrow> g < length (requests s) \<and> (g \<in> set (sendCh s) \<longrightarrow> last (sendCh s) = g)) \<and>
     (\<forall>r. at_phase s = Finishing r \<longrightarrow> grace s = Some r \<and> sendCh s = [])"

lemma req_ok_sendCh: "req_ok s \<Longrightarrow> r \<in> set (sendCh s) \<Longrightarrow> r < length (requests s)"
  by (auto simp: req_ok_def held_def)

lemma pop_last:
  "xs = r # q \<Longrightarrow> g \<in> set xs \<longrightarrow> last xs = g \<Longrightarrow> distinct xs \<Longrightarrow> g \<in> set q \<Longrightarrow> last q = g"
  by (auto split: if_splits)

lemma grace_ok_finish: "grace_ok s \<Longrightarrow> grace_ok (finish r e s)"
  by (simp add: grace_ok_def finish_request)

lemma grace_ok_setState: "grace_ok (setState st e s) = grace_ok s"
  by (simp add: grace_ok_def)

lemma grace_ok_upd [simp]:
  "grace_ok (s\<lparr>events := ev\<rparr>) = grace_ok s" "grace_ok (s\<lparr>parentErr := pe\<rparr>) = grace_ok s" "grace_ok (s\<lparr>backoff := b\<rparr>) = grace_ok s"
  "grace_ok (s\<lparr>stop := sb\<rparr>) = grace_ok s" "grace_ok (s\<lparr>stopped := sb\<rparr>) = grace_ok s" "grace_ok (s\<lparr>sent := l\<rparr>) = grace_ok s"
  by (simp_all add: grace_ok_def)

text \<open>Moving the main loop to a phase other than \<open>Finishing\<close>, freeing the token, popping a request.\<close>

lemma grace_ok_phase: "grace_ok s \<Longrightarrow> (\<And>r. ph \<noteq> Finishing r) \<Longrightarrow> grace_ok (s\<lparr>at_phase := ph\<rparr>)"
  by (simp add: grace_ok_def)

lemma grace_ok_free: "grace_ok s \<Longrightarrow> grace_ok (s\<lparr>sendGate := GateFree\<rparr>)"
  by (simp add: grace_ok_def)

lemma grace_ok_pop:
  assumes "grace_ok s" "req_ok s" "sendCh s = r # q"
  shows "grace_ok (s\<lparr>sendCh := q\<rparr>)"
proof -
  have "distinct (sendCh s)" using assms(2) by (simp add: req_ok_def held_def)
  then have "g \<in> set q \<Longrightarrow> last q = g" if "grace s = Some g" for g
    using assms(1,3) that pop_last [of "sendCh s" r q g] by (simp add: grace_ok_def)
  then show ?thesis using assms(1,3) by (simp add: grace_ok_def)
qed

lemma grace_ok_failPending: "grace_ok s \<Longrightarrow> grace_ok (failPending e s)"
  by (simp add: grace_ok_def failPending_request)

lemma grace_ok_step: "sup_step cfg s t \<Longrightarrow> req_ok s \<Longrightarrow> grace_ok s \<Longrightarrow> grace_ok t"
proof (induction rule: sup_moves.induct)
  case (env_ctx rid s e)
  then show ?case by (simp add: grace_ok_def nth_list_update)
next
  case (send_watch s msg ctxErr)
  then show ?case by (auto simp: grace_ok_def less_Suc_eq)
next
  case (send_push s rid)
  then show ?case by (auto simp: grace_ok_def)
next
  case (close_acquire s ctxErr)
  then have "length (requests s) \<notin> set (sendCh s)" by (auto dest: req_ok_sendCh)
  with close_acquire show ?case by (auto simp: grace_ok_def less_Suc_eq)
next
  case (close_push s rid)
  then have "\<nexists>r. at_phase s = Finishing r"
    by (auto simp: grace_ok_def req_ok_def held_def)
  with close_push show ?case by (auto simp: grace_ok_def)
next
  case (serve_close s rid q)
  then have "grace s = Some rid" "last (sendCh s) = rid" "distinct (sendCh s)"
    by (auto simp: grace_ok_def req_ok_def held_def)
  with serve_close have "q = []" by (cases q rule: rev_cases) auto
  with serve_close show ?case by (auto simp: grace_ok_def req_ok_def held_def)
next
  case (serve_cancelled s rid q e)
  then show ?case using grace_ok_finish [OF grace_ok_pop [of s rid q]] by simp
next
  case (serve_not_primary s rid q)
  then show ?case using grace_ok_finish [OF grace_ok_pop [of s rid q]] by simp
next
  case (serve_stale s rid q)
  then show ?case using grace_ok_finish [OF grace_ok_pop [of s rid q]] by simp
next
  case (failing_one s err rid q)
  then show ?case using grace_ok_finish [OF grace_ok_pop [of s rid q]] by simp
next
  case (exit_fail s rid q)
  then show ?case using grace_ok_finish [OF grace_ok_pop [of s rid q]] by simp
next
  case (serve_send s rid q)
  then show ?case using grace_ok_phase [OF grace_ok_pop [of s rid q]] by simp
next
  case (send_acquire s msg ctxErr)
  then show ?case by (simp add: grace_ok_def)
next
  case (send_check s rid)
  then show ?case by (auto simp: grace_ok_def)
next
  case (close_check s rid)
  then show ?case by (auto simp: grace_ok_def)
qed (simp_all add: grace_ok_phase grace_ok_free grace_ok_finish grace_ok_setState grace_ok_failPending
      applyArbitration_def disconnect_def)

subsection \<open>What was sent\<close>

text \<open>
  The history: every request handed to the stream has a message, was handed over once, by a
  primary, in the generation it was accepted in; it is finished, or still being sent. A request
  with a message that finished without error was handed to the stream.
\<close>

definition sent_ok :: "Supervisor \<Rightarrow> bool" where
  "sent_ok s \<longleftrightarrow> distinct (map fst (sent s)) \<and>
     (\<forall>(r, g, st)\<in>set (sent s). r < length (requests s) \<and> st = StatePrimary \<and> g = sr_state (requests s ! r) \<and>
        sr_accepted (requests s ! r) = StatePrimary \<and> sr_message (requests s ! r) \<noteq> None \<and>
        (sr_done (requests s ! r) \<or> at_phase s = Sending r)) \<and>
     (\<forall>r < length (requests s). sr_done (requests s ! r) \<and> sr_err (requests s ! r) = None \<and>
        sr_message (requests s ! r) \<noteq> None \<longrightarrow> r \<in> fst ` set (sent s)) \<and>
     (\<forall>r. at_phase s = Sending r \<longrightarrow> r \<in> fst ` set (sent s))"

text \<open>Which changes of the requests keep the history right: those that keep every message, generation
  and finished result, and finish with an error.\<close>

definition quiet :: "Supervisor \<Rightarrow> Supervisor \<Rightarrow> bool" where
  "quiet s t \<longleftrightarrow> sent t = sent s \<and> length (requests s) \<le> length (requests t) \<and>
     (\<forall>r < length (requests s). sr_message (requests t ! r) = sr_message (requests s ! r) \<and>
        sr_state (requests t ! r) = sr_state (requests s ! r) \<and> sr_accepted (requests t ! r) = sr_accepted (requests s ! r) \<and>
        (sr_done (requests s ! r) \<longrightarrow> sr_done (requests t ! r)) \<and>
        (sr_done (requests t ! r) \<and> sr_err (requests t ! r) = None \<and> sr_message (requests t ! r) \<noteq> None \<longrightarrow>
           sr_done (requests s ! r) \<and> sr_err (requests s ! r) = None \<or> r \<in> fst ` set (sent s))) \<and>
     (\<forall>r < length (requests t). length (requests s) \<le> r \<longrightarrow> \<not> sr_done (requests t ! r))"

lemma sent_ok_quiet:
  assumes "sent_ok s" "quiet s t"
    and "\<And>r. at_phase s = Sending r \<Longrightarrow> at_phase t = Sending r \<or> sr_done (requests t ! r)"
    and "\<And>r. at_phase t = Sending r \<Longrightarrow> at_phase s = Sending r"
  shows "sent_ok t"
  unfolding sent_ok_def
proof (intro conjI ballI allI impI)
  show "distinct (map fst (sent t))" using assms(1,2) by (simp add: sent_ok_def quiet_def)
next
  fix x assume x: "x \<in> set (sent t)"
  obtain r g st where rg: "x = (r, g, st)" by (cases x)
  with x assms(1,2) have o: "r < length (requests s)" "st = StatePrimary" "g = sr_state (requests s ! r)"
      "sr_accepted (requests s ! r) = StatePrimary" "sr_message (requests s ! r) \<noteq> None"
      "sr_done (requests s ! r) \<or> at_phase s = Sending r"
    by (auto simp: sent_ok_def quiet_def)
  then have "sr_done (requests t ! r) \<or> at_phase t = Sending r" using assms(2,3) by (auto simp: quiet_def)
  with o assms(2) rg show "case x of (r, g, st) \<Rightarrow> r < length (requests t) \<and> st = StatePrimary \<and>
      g = sr_state (requests t ! r) \<and> sr_accepted (requests t ! r) = StatePrimary \<and>
      sr_message (requests t ! r) \<noteq> None \<and> (sr_done (requests t ! r) \<or> at_phase t = Sending r)"
    by (auto simp: quiet_def)
next
  fix r assume r: "r < length (requests t)"
    and d: "sr_done (requests t ! r) \<and> sr_err (requests t ! r) = None \<and> sr_message (requests t ! r) \<noteq> None"
  then have l: "r < length (requests s)" using assms(2) unfolding quiet_def by (meson leI)
  then have "sr_done (requests s ! r) \<and> sr_err (requests s ! r) = None \<or> r \<in> fst ` set (sent s)"
      "sr_message (requests s ! r) \<noteq> None" "sent t = sent s"
    using d assms(2) unfolding quiet_def by auto
  with l assms(1) show "r \<in> fst ` set (sent t)" unfolding sent_ok_def by auto
next
  fix r assume "at_phase t = Sending r"
  with assms(1,2,4) show "r \<in> fst ` set (sent t)" by (simp add: sent_ok_def quiet_def)
qed

lemma quiet_same: "sent t = sent s \<Longrightarrow> requests t = requests s \<Longrightarrow> quiet s t"
  by (auto simp: quiet_def)

lemma quiet_finish_err: "quiet s (finish r (Some e) s)"
  by (auto simp: quiet_def finish_request)

lemma quiet_failPending: "quiet s (failPending e s)"
  by (auto simp: quiet_def failPending_request)

lemma quiet_finish_pop: "quiet s (finish r (Some e) (pop s))"
  by (auto simp: quiet_def finish_request)

lemma quiet_new: "quiet s (newRequest m c s)"
  by (auto simp: quiet_def less_Suc_eq)

lemma quiet_trans: "quiet s t \<Longrightarrow> sent u = sent t \<Longrightarrow> requests u = requests t \<Longrightarrow> quiet s u"
  by (simp add: quiet_def)


lemma quiet_step:
  assumes "sup_step cfg s t" "req_ok s" "grace_ok s"
    and "\<And>rid. at_phase s = Serving \<Longrightarrow> at_phase t \<noteq> Sending rid"
  shows "quiet s t \<or> (\<exists>r. at_phase s = Sending r \<and> t = (finish r None s)\<lparr>at_phase := Serving\<rparr>)"
  using assms
proof (induction rule: sup_moves.induct)
  case (env_ctx rid s e)
  then show ?case by (auto simp: quiet_def nth_list_update)
next
  case (finishing_done s rid err)
  then have "sr_message (requests s ! rid) = None"
    by (auto simp: grace_ok_def req_ok_def held_def)
  then have "quiet s (finish rid err s)" by (auto simp: quiet_def finish_request)
  then show ?case by (auto intro: quiet_trans)
next
  case (sending_fails s rid err)
  have "quiet s (disconnect err (finish rid (Some err) s))"
    by (auto simp: quiet_def finish_request failPending_request)
  then show ?case ..
next
  case (serve_recv s err)
  have "quiet s (disconnect err s)" by (auto simp: quiet_def failPending_request)
  then show ?case ..
next
  case (failing_one s err rid q)
  have "quiet s (finish rid (Some err) (pop s))" by (rule quiet_finish_pop)
  then show ?case ..
next
  case (exit_fail s rid q)
  have "quiet s (finish rid (Some errStopped) (pop s))" by (rule quiet_finish_pop)
  then show ?case ..
next
  case (send_watch s msg ctxErr)
  then show ?case using quiet_new [of s "Some msg" ctxErr] by (auto intro: quiet_trans)
next
  case (close_acquire s ctxErr)
  then show ?case using quiet_new [of s None ctxErr] by (auto intro: quiet_trans)
next
  case (close_stopped s rid)
  then show ?case using quiet_finish_err [of s rid errStopped] by (auto intro: quiet_trans)
next
  case (close_ctx s rid e)
  then show ?case using quiet_finish_err [of s rid e] by (auto intro: quiet_trans)
next
  case (serve_cancelled s rid q e)
  have "quiet s (finish rid (Some e) (pop s))" by (rule quiet_finish_pop)
  then show ?case ..
next
  case (serve_not_primary s rid q)
  have "quiet s (finish rid (Some (Sentinel ErrNotPrimary)) (pop s))" by (rule quiet_finish_pop)
  then show ?case ..
next
  case (serve_stale s rid q)
  have "quiet s (finish rid (Some errStopped) (pop s))" by (rule quiet_finish_pop)
  then show ?case ..
qed (auto intro: quiet_same)

lemma sending_leaves:
  "sup_step cfg s t \<Longrightarrow> at_phase s = Sending r \<Longrightarrow> r < length (requests s) \<Longrightarrow>
     at_phase t = Sending r \<or> sr_done (requests t ! r)"
  by (induction rule: sup_moves.induct) (auto simp: finish_request failPending_request)

lemma sending_enters:
  "sup_step cfg s t \<Longrightarrow> at_phase t = Sending r \<Longrightarrow> at_phase s = Sending r \<or>
     (at_phase s = Serving \<and> (\<exists>q. sendCh s = r # q) \<and> sr_message (requests s ! r) \<noteq> None \<and> IsPrimary s \<and>
      changed s = sr_state (requests s ! r) \<and>
      t = (pop s)\<lparr>at_phase := Sending r, sent := sent s @ [(r, changed s, state s)]\<rparr>)"
  by (induction rule: sup_moves.induct) (auto simp: WatchState_def)

lemma sent_ok_step:
  assumes "sup_step cfg s t" "req_ok s" "gen_ok s" "grace_ok s" "sent_ok s"
  shows "sent_ok t"
proof (cases "at_phase s = Serving \<and> (\<exists>r. at_phase t = Sending r)")
  case True
  then obtain r q where r: "at_phase s = Serving" "sendCh s = r # q" "sr_message (requests s ! r) \<noteq> None"
      "state s = StatePrimary" "changed s = sr_state (requests s ! r)"
      "t = (pop s)\<lparr>at_phase := Sending r, sent := sent s @ [(r, changed s, state s)]\<rparr>"
    using sending_enters [OF assms(1)] by (auto simp: IsPrimary_def)
  have l: "r < length (requests s)" "\<not> sr_done (requests s ! r)"
    using assms(2) r(2) by (auto simp: req_ok_def held_def)
  then have "r \<notin> fst ` set (sent s)" using assms(5) r(1) by (fastforce simp: sent_ok_def)
  moreover have "sr_accepted (requests s ! r) = StatePrimary" using assms(3) l r(4,5) by (auto simp: gen_ok_def)
  ultimately show ?thesis using assms(5) l r by (auto simp: sent_ok_def)
next
  case False
  then have "\<And>rid. at_phase s = Serving \<Longrightarrow> at_phase t \<noteq> Sending rid" by blast
  from quiet_step [OF assms(1,2,4) this] consider "quiet s t"
    | r where "at_phase s = Sending r" "t = (finish r None s)\<lparr>at_phase := Serving\<rparr>" by blast
  then show ?thesis
  proof cases
    case 1
    have "at_phase t = Sending r \<or> sr_done (requests t ! r)" if "at_phase s = Sending r" for r
      using sending_leaves [OF assms(1) that] assms(2) that by (simp add: req_ok_def held_def)
    moreover have "at_phase s = Sending r" if "at_phase t = Sending r" for r
      using sending_enters [OF assms(1) that] False that by blast
    ultimately show ?thesis using sent_ok_quiet [OF assms(5) 1] by blast
  next
    case 2
    have "r < length (requests s)" using assms(2) 2(1) by (simp add: req_ok_def held_def)
    then show ?thesis using assms(5) 2 by (auto simp: sent_ok_def finish_request)
  qed
qed

subsection \<open>The backoff\<close>

text \<open>Delays double up to the maximum and stay positive, whatever the overflow of the doubling.\<close>

lemma nextBackoff_bounds: "0 < mx \<Longrightarrow> 0 < nextBackoff cur mx \<and> nextBackoff cur mx \<le> mx"
  by (simp add: nextBackoff_def Let_def)

lemma nextBackoff_doubles:
  assumes "0 < cur" "cur < 2 ^ 63" "0 < mx" "mx < 2 ^ 63"
  shows "nextBackoff cur mx = min (2 * cur) mx"
proof (cases "2 * cur < 2 ^ 63")
  case True
  then have "wrap64 (cur * 2) = 2 * cur" using assms by (simp add: wrap64_id mult.commute)
  then show ?thesis using assms by (auto simp: nextBackoff_def Let_def)
next
  case False
  have "cur * 2 + 2 ^ 63 = (cur * 2 - 2 ^ 63) + 2 ^ 64" by simp
  then have "(cur * 2 + 2 ^ 63) mod 2 ^ 64 = (cur * 2 - 2 ^ 63) mod 2 ^ 64" by (metis mod_add_self2)
  also have "\<dots> = cur * 2 - 2 ^ 63" using assms False by (intro mod_pos_pos_trivial) auto
  finally have "wrap64 (cur * 2) = cur * 2 - 2 ^ 64" by (simp add: wrap64_def)
  then have "wrap64 (cur * 2) \<le> 0" using assms by simp
  then show ?thesis using assms False by (auto simp: nextBackoff_def Let_def)
qed

text \<open>Rounding moves a number by at most the fraction 2^-53 of it, so the factor is a fifth up to the fraction 2^-51.\<close>

lemma float64_error: "0 < n \<Longrightarrow> 2 ^ 53 * \<bar>float64 n - n\<bar> \<le> n"
proof -
  assume n: "0 < n"
  define k where "k = bitLen (nat n) - 53"
  define q r where "q = n div 2 ^ k" and "r = n mod 2 ^ k"
  have nqr: "n = q * 2 ^ k + r" unfolding q_def r_def by (rule div_mult_mod_eq [symmetric])
  have r: "0 \<le> r" "r < 2 ^ k" by (simp_all add: r_def)
  have f: "float64 n = (if 2 * r > 2 ^ k \<or> (2 * r = 2 ^ k \<and> odd q) then q + 1 else q) * 2 ^ k"
    by (simp add: float64_def Let_def k_def q_def r_def)
  have "float64 n - n = (if 2 * r > 2 ^ k \<or> (2 * r = 2 ^ k \<and> odd q) then 2 ^ k - r else - r)"
    by (subst (2) nqr) (simp add: f algebra_simps)
  with r have err: "2 * \<bar>float64 n - n\<bar> \<le> 2 ^ k" by auto
  show ?thesis
  proof (cases "k = 0")
    case True
    then have "r = 0" using r by simp
    with True f nqr have "float64 n = n" by (metis add_0_right even_zero mult.right_neutral mult_zero_right not_less_iff_gr_or_eq power_0 zero_neq_one zero_less_one)
    with n show ?thesis by simp
  next
    case False
    then have "\<not> bitLen (nat n) \<le> k + 52" by (simp add: k_def)
    then have "2 ^ (k + 52) \<le> nat n" by (simp add: bitLen_le_iff)
    then have "2 ^ (k + 52) \<le> n" using n by (simp add: le_nat_iff)
    moreover have "2 ^ 53 * \<bar>float64 n - n\<bar> = 2 ^ 52 * (2 * \<bar>float64 n - n\<bar>)" by simp
    moreover have "2 ^ 52 * (2 * \<bar>float64 n - n\<bar>) \<le> 2 ^ 52 * 2 ^ k" using err by (intro mult_left_mono) simp_all
    ultimately show ?thesis by (simp add: power_add)
  qed
qed

lemma fifth_bounds:
  assumes "0 < d" "d < 2 ^ 63"
  shows "0 \<le> fifth d" and "5 * fifth d \<le> d + d div 2 ^ 51"
proof -
  define a p where "a = float64 d" and "p = float64 (a * 3602879701896397)"
  have a: "2 ^ 53 * \<bar>a - d\<bar> \<le> d" unfolding a_def using assms(1) by (rule float64_error)
  then have a0: "0 < a" using assms by (simp add: abs_if split: if_splits)
  have p: "2 ^ 53 * \<bar>p - a * 3602879701896397\<bar> \<le> a * 3602879701896397" unfolding p_def using a0 by (intro float64_error) simp
  then have p0: "0 < p" using a0 by (simp add: abs_if split: if_splits)
  have f: "fifth d = p div 2 ^ 54" using assms by (simp add: fifth_def a_def p_def)
  show "0 \<le> fifth d" using p0 by (simp add: f pos_imp_zdiv_nonneg_iff)
  have "2 ^ 54 * fifth d \<le> p" unfolding f using mult_div_mod_eq [of "2 ^ 54" p] pos_mod_sign [of "2 ^ 54" p] by simp
  moreover have "2 ^ 53 * p \<le> (2 ^ 53 + 1) * (a * 3602879701896397)" using p by (simp add: abs_if split: if_splits)
  moreover have "2 ^ 53 * a \<le> (2 ^ 53 + 1) * d" using a by (simp add: abs_if split: if_splits)
  ultimately have "5 * 2 ^ 160 * fifth d \<le> (2 ^ 53 + 1) * (2 ^ 53 + 1) * (2 ^ 54 + 1) * d" by simp
  then have "2 ^ 51 * (5 * fifth d - d) \<le> d" using assms by simp
  then have "2 ^ 51 * (5 * fifth d - d) div 2 ^ 51 \<le> d div 2 ^ 51" by (rule zdiv_mono1) simp
  then have "5 * fifth d - d \<le> d div 2 ^ 51" by simp
  then show "5 * fifth d \<le> d + d div 2 ^ 51" by simp
qed
text \<open>The jittered delay stays positive and at most a fifth away, up to that rounding.\<close>

lemma jitter_range:
  assumes "0 < d" and "d \<le> 2 ^ 62" and "below int64N"
  shows "4 * d \<le> 5 * jitter int64N d + d div 2 ^ 51" and "5 * jitter int64N d \<le> 6 * d + d div 2 ^ 51" and "0 < jitter int64N d"
proof -
  have f: "0 \<le> fifth d" "5 * fifth d \<le> d + d div 2 ^ 51" using fifth_bounds [of d] assms by simp_all
  have q: "0 \<le> d div 2 ^ 51" "2 ^ 51 * (d div 2 ^ 51) \<le> d" using assms(1) by (simp_all add: pos_imp_zdiv_nonneg_iff)
  have j: "d - fifth d \<le> jitter int64N d \<and> jitter int64N d \<le> d + fifth d"
  proof (cases "fifth d = 0")
    case False
    then have r: "0 \<le> int64N (2 * fifth d)" "int64N (2 * fifth d) < 2 * fifth d" using assms(3) f(1) by (simp_all add: below_def)
    have "wrap64 (2 * fifth d) = 2 * fifth d" using f q assms by (intro wrap64_id) simp_all
    moreover have "wrap64 (int64N (2 * fifth d) - fifth d) = int64N (2 * fifth d) - fifth d"
      using r f q assms by (intro wrap64_id) simp_all
    moreover have "wrap64 (d + (int64N (2 * fifth d) - fifth d)) = d + (int64N (2 * fifth d) - fifth d)"
      using r f q assms by (intro wrap64_id) simp_all
    ultimately show ?thesis using r f False by (simp add: jitter_def Let_def)
  qed (simp add: jitter_def)
  show "4 * d \<le> 5 * jitter int64N d + d div 2 ^ 51" and "5 * jitter int64N d \<le> 6 * d + d div 2 ^ 51" and "0 < jitter int64N d"
    using j f q assms(1) by simp_all
qed

definition backoff_ok :: "Config \<Rightarrow> Supervisor \<Rightarrow> bool" where
  "backoff_ok cfg s \<longleftrightarrow> at_phase s = NotStarted \<or>
     (0 < backoff s \<and> backoff s \<le> max (cfg_BackoffInitial cfg) (cfg_BackoffMax cfg))"

abbreviation cfg_ok :: "Config \<Rightarrow> bool" where
  "cfg_ok cfg \<equiv> 0 < cfg_BackoffInitial cfg \<and> 0 < cfg_BackoffMax cfg"

lemma sup_defaults_ok: "cfg_ok (sup_defaults cfg)" "0 < cfg_ArbitrationTimeout (sup_defaults cfg)"
  by (auto simp: sup_defaults_def Let_def)

lemma backoff_ok_step: "sup_step cfg s t \<Longrightarrow> cfg_ok cfg \<Longrightarrow> backoff_ok cfg s \<Longrightarrow> backoff_ok cfg t"
  by (induction rule: sup_moves.induct)
    (auto simp: backoff_ok_def applyArbitration_def disconnect_def
      dest: nextBackoff_bounds [of "cfg_BackoffMax cfg"] intro: le_max_iff_disj [THEN iffD2])

text \<open>The armed timer has the jittered delay.\<close>

definition timer_ok :: "Supervisor \<Rightarrow> bool" where
  "timer_ok s \<longleftrightarrow> (\<forall>d. at_phase s = SleepTimer d \<longrightarrow> (\<exists>int64N. below int64N \<and> d = jitter int64N (backoff s)))"

interpretation timer: invariant_system "\<lambda>s. s = sup_New" "sup_step cfg" timer_ok
proof unfold_locales
  show "timer_ok s" if "s = sup_New" for s using that by (simp add: timer_ok_def sup_New_def)
  show "timer_ok t" if "sup_step cfg s t" "timer_ok s" for s t
    using that by (induction rule: sup_moves.induct) (auto simp: timer_ok_def)
qed

lemmas reach_timer_ok = timer.reach_inv

lemma backoff_step:
  "sup_step cfg s t \<Longrightarrow> at_phase s \<noteq> NotStarted \<Longrightarrow> 0 < backoff s \<Longrightarrow> backoff t =
     (if (\<exists>d. at_phase s = SleepTimer d) \<and> at_phase t = LoopTop then nextBackoff (backoff s) (cfg_BackoffMax cfg)
      else if at_phase s = Arbitrating \<and> at_phase t = Serving then cfg_BackoffInitial cfg else backoff s)"
  by (induction rule: sup_moves.induct) auto

subsection \<open>The invariant\<close>

definition sup_inv :: "Supervisor \<Rightarrow> bool" where
  "sup_inv s \<longleftrightarrow> phase_ok s \<and> chan_ok s \<and> req_ok s \<and> gen_ok s \<and> grace_ok s \<and> sent_ok s"

interpretation sup: invariant_system "\<lambda>s. s = sup_New" "sup_step cfg" sup_inv
proof unfold_locales
  fix s assume "s = sup_New"
  then show "sup_inv s"
    using phase_ok_init
    by (simp add: sup_inv_def chan_ok_def req_ok_def held_def gen_ok_def grace_ok_def sent_ok_def sup_New_def)
next
  fix s t assume "sup_step cfg s t" "sup_inv s"
  then show "sup_inv t" unfolding sup_inv_def
    using phase_ok_step chan_ok_step req_ok_step gen_ok_step grace_ok_step sent_ok_step by blast
qed

subsection \<open>Runs\<close>

text \<open>A run that connects and becomes primary, and one that goes on to send a message.\<close>

lemma run_primary:
  "\<exists>s. sup_reach cfg s \<and> at_phase s = Serving \<and> IsPrimary s \<and> sendGate s = GateFree \<and> requests s = [] \<and>
     sendCh s = [] \<and> \<not> draining s \<and> \<not> stop s \<and> \<not> stopped s \<and> grace s = None \<and> parentErr s = None"
proof -
  note go = reach.reach_step [where step = "sup_step cfg"]
  have 0: "sup_reach cfg sup_New" by (simp add: reach.reach_init)
  define s1 where "s1 = sup_New\<lparr>at_phase := LoopTop, backoff := cfg_BackoffInitial cfg\<rparr>"
  have 1: "sup_reach cfg s1" unfolding s1_def using go [OF 0 sup_moves.start] by (simp add: sup_New_def)
  define s2 where "s2 = s1\<lparr>at_phase := LoopSelect\<rparr>"
  have 2: "sup_reach cfg s2" unfolding s2_def using go [OF 1 sup_moves.top_check] by (simp add: s1_def sup_New_def)
  define s3 where "s3 = (setState StateConnecting None s2)\<lparr>at_phase := Dialing\<rparr>"
  have 3: "sup_reach cfg s3"
    unfolding s3_def using go [OF 2 sup_moves.select_connect] by (simp add: s2_def s1_def sup_New_def)
  define s3a where "s3a = s3\<lparr>at_phase := ArbitrateSend\<rparr>"
  have 3: "sup_reach cfg s3a" unfolding s3a_def using go [OF 3 sup_moves.dial_ok] by (simp add: s3_def)
  define s4 where "s4 = s3a\<lparr>at_phase := Arbitrating\<rparr>"
  have 4: "sup_reach cfg s4" unfolding s4_def using go [OF 3 sup_moves.arb_sent] by (simp add: s3a_def)
  define s5 where "s5 = (applyArbitration (Some codes_OK) s4)\<lparr>at_phase := Serving, backoff := cfg_BackoffInitial cfg\<rparr>"
  have 5: "sup_reach cfg s5" unfolding s5_def using go [OF 4 sup_moves.arb_ok] by (simp add: s4_def)
  have "at_phase s5 = Serving \<and> IsPrimary s5 \<and> sendGate s5 = GateFree \<and> requests s5 = [] \<and>
     sendCh s5 = [] \<and> \<not> draining s5 \<and> \<not> stop s5 \<and> \<not> stopped s5 \<and> grace s5 = None \<and> parentErr s5 = None"
    by (simp add: s5_def s4_def s3a_def s3_def s2_def s1_def sup_New_def IsPrimary_def statusOK_def)
  with 5 show ?thesis by blast
qed

lemma run_send:
  "\<exists>s. sup_reach cfg s \<and> at_phase s = Serving \<and> length (requests s) = 1 \<and>
     sr_message (requests s ! 0) = Some ''packet'' \<and> sr_done (requests s ! 0) \<and> sr_err (requests s ! 0) = None"
proof -
  note go = reach.reach_step [where step = "sup_step cfg"]
  obtain s where s: "sup_reach cfg s" "at_phase s = Serving" "IsPrimary s" "sendGate s = GateFree" "requests s = []"
      "sendCh s = []" "\<not> draining s" "\<not> stop s" "\<not> stopped s"
    using run_primary [of cfg] by blast
  define s1 where "s1 = s\<lparr>sendGate := SendAcquired ''packet'' None\<rparr>"
  have 1: "sup_reach cfg s1" unfolding s1_def using go [OF s(1) sup_moves.send_acquire] s(4) by simp
  define s2 where "s2 = (newRequest (Some ''packet'') None s1)\<lparr>sendGate := SendQueuing 0\<rparr>"
  have 2: "sup_reach cfg s2"
    unfolding s2_def using go [OF 1 sup_moves.send_watch [of s1 "''packet''" None]] s(5) by (simp add: s1_def)
  define s3 where "s3 = s2\<lparr>sendGate := SendPushing 0\<rparr>"
  have 3: "sup_reach cfg s3"
    unfolding s3_def using go [OF 2 sup_moves.send_check [of s2 0]] s by (simp add: s2_def s1_def)
  define s4 where "s4 = s3\<lparr>sendCh := sendCh s3 @ [0], sendGate := GateFree\<rparr>"
  have 4: "sup_reach cfg s4"
    unfolding s4_def using go [OF 3 sup_moves.send_push [of s3 0]] s by (simp add: s3_def s2_def s1_def)
  have r4: "requests s4 = [\<lparr>sr_message = Some ''packet'', sr_ctxErr = None, sr_state = changed s, sr_accepted = state s, sr_done = False, sr_err = None\<rparr>]"
      "sendCh s4 = [0]" "at_phase s4 = Serving" "changed s4 = changed s" "state s4 = state s"
    using s by (simp_all add: s4_def s3_def s2_def s1_def newRequest_def WatchState_def)
  define s5 where "s5 = (pop s4)\<lparr>at_phase := Sending 0, sent := sent s4 @ [(0, changed s4, state s4)]\<rparr>"
  have 5: "sup_reach cfg s5"
    unfolding s5_def using go [OF 4 sup_moves.serve_send [of s4 0 "[]"]] s(3) by (simp add: r4 IsPrimary_def WatchState_def)
  define s6 where "s6 = (finish 0 None s5)\<lparr>at_phase := Serving\<rparr>"
  have 6: "sup_reach cfg s6" unfolding s6_def using go [OF 5 sup_moves.sending_ok [of s5 0]] by (simp add: s5_def r4)
  have "at_phase s6 = Serving \<and> length (requests s6) = 1 \<and> sr_message (requests s6 ! 0) = Some ''packet'' \<and>
     sr_done (requests s6 ! 0) \<and> sr_err (requests s6 ! 0) = None"
    by (simp add: s6_def s5_def r4 finish_request)
  with 6 show ?thesis by blast
qed

subsection \<open>Shutting down\<close>

abbreviation steps :: "Config \<Rightarrow> Supervisor \<Rightarrow> Supervisor \<Rightarrow> bool" where
  "steps cfg \<equiv> (sup_step cfg)\<^sup>*\<^sup>*"

text \<open>The result of a request is written once: no step changes a finished request, however the
  remaining calls of \<open>finish\<close> are interleaved.\<close>

lemma finished_step:
  "sup_moves cfg a s t \<Longrightarrow> r < length (requests s) \<Longrightarrow> sr_done (requests s ! r) \<Longrightarrow>
     r < length (requests t) \<and> sr_done (requests t ! r) \<and> sr_err (requests t ! r) = sr_err (requests s ! r)"
  by (induction rule: sup_moves.induct) (auto simp: finish_request nth_list_update)

lemma finished_steps:
  assumes "(sup_moves cfg a)\<^sup>*\<^sup>* s t" "r < length (requests s)" "sr_done (requests s ! r)"
  shows "r < length (requests t) \<and> sr_done (requests t ! r) \<and> sr_err (requests t ! r) = sr_err (requests s ! r)"
  using assms by (induction rule: rtranclp_induct) (auto dest: finished_step)







lemma req_ok_upd [simp]:
  "phase_request ph = phase_request (at_phase s) \<Longrightarrow> req_ok (s\<lparr>at_phase := ph\<rparr>) = req_ok s"
  "req_ok (setState st e s) = req_ok s" "req_ok (s\<lparr>backoff := b\<rparr>) = req_ok s"
  by (simp_all add: req_ok_def held_def)














lemma filter_fst_unique: "distinct (map fst xs) \<Longrightarrow> x \<in> set xs \<Longrightarrow> fst x = r \<Longrightarrow> filter (\<lambda>y. fst y = r) xs = [x]"
  by (induction xs) (auto simp: filter_empty_conv image_iff)

subsection \<open>Properties\<close>

definition sample_config :: Config where
  "sample_config = sup_defaults \<lparr>cfg_DeviceID = 1, cfg_ElectionHigh = 0, cfg_ElectionLow = 7, cfg_Role = '''',
     cfg_ArbitrationTimeout = 0, cfg_BackoffInitial = 0, cfg_BackoffMax = 0\<rparr>"

lemma reach_sup_inv: "sup_reach cfg s \<Longrightarrow> sup_inv s"
  by (rule sup.reach_inv)

lemma reach_backoff_ok: "sup_reach cfg s \<Longrightarrow> cfg_ok cfg \<Longrightarrow> backoff_ok cfg s"
proof (induction rule: reach.induct)
  case (reach_init s)
  then show ?case by (simp add: backoff_ok_def sup_New_def)
next
  case (reach_step s t)
  then show ?case using backoff_ok_step by blast
qed

lemma primary_phases:
  "phase_ok s \<Longrightarrow> IsPrimary s \<Longrightarrow> \<not> stop s \<Longrightarrow> parentErr s = None \<Longrightarrow>
     at_phase s \<in> {Serving, ExitState} \<union> range Sending \<union> range Finishing"
  by (cases "at_phase s") (auto simp: phase_ok_def IsPrimary_def)

lemma connecting_phases:
  "phase_ok s \<Longrightarrow> state s = StateConnecting \<longleftrightarrow> at_phase s \<in> {Dialing, ArbitrateSend, Arbitrating}"
  by (cases "at_phase s") (auto simp: phase_ok_def split: if_splits)

text \<open>C15. In every reachable state of the supervisor the published state follows the main loop: it is
  primary only while the main loop serves, sends on or closes an arbitrated stream (or is on its way
  out), it is connecting exactly while the loop dials or arbitrates, and it is disconnected once the
  supervisor has stopped; the two channels never hold more than their capacity.\<close>

theorem supervisor_state_safe:
  assumes "sup_reach cfg s"
  shows "(IsPrimary s \<longrightarrow> at_phase s \<in> {Serving, ExitState} \<union> range Sending \<union> range Finishing \<or>
            ((stop s \<or> parentErr s \<noteq> None) \<and> at_phase s \<in> {LoopTop, LoopSelect})) \<and>
         (state s = StateConnecting \<longleftrightarrow> at_phase s \<in> {Dialing, ArbitrateSend, Arbitrating}) \<and>
         (stopped s \<longrightarrow> state s = StateDisconnected \<and> at_phase s = Stopped) \<and>
         length (sendCh s) \<le> 16 \<and> length (events s) \<le> 16"
proof -
  have inv: "phase_ok s" "chan_ok s" using reach_sup_inv [OF assms] by (simp_all add: sup_inv_def)
  have "IsPrimary s \<longrightarrow> at_phase s \<in> {Serving, ExitState} \<union> range Sending \<union> range Finishing \<or>
      ((stop s \<or> parentErr s \<noteq> None) \<and> at_phase s \<in> {LoopTop, LoopSelect})"
    using inv(1) by (cases "at_phase s") (auto simp: phase_ok_def IsPrimary_def split: if_splits)
  with inv connecting_phases [OF inv(1)] show ?thesis by (auto simp: phase_ok_def chan_ok_def)
qed

lemma supervisor_state_safe_witness:
  "\<exists>s. sup_reach sample_config s \<and> IsPrimary s \<and> length (sendCh s) \<le> 16 \<and>
     at_phase s \<in> {Serving, ExitState} \<union> range Sending \<union> range Finishing"
proof -
  obtain s where s: "sup_reach sample_config s" "IsPrimary s" "\<not> stop s" "at_phase s = Serving"
    using run_primary [of sample_config] by blast
  with supervisor_state_safe [OF s(1)] show ?thesis by auto
qed

text \<open>The role of primary comes from arbitration only: a step that makes the supervisor primary
  applies an arbitration update with status OK, on a stream that is being arbitrated, served or closed.\<close>

theorem primary_only_by_arbitration:
  assumes "sup_step cfg s t" "\<not> IsPrimary s" "IsPrimary t"
  shows "\<exists>status. statusOK status \<and>
    ((t = applyArbitration status s \<and> (at_phase s = Serving \<or> (\<exists>r. at_phase s = Finishing r))) \<or>
     (t = (applyArbitration status s)\<lparr>at_phase := Serving, backoff := cfg_BackoffInitial cfg\<rparr> \<and> at_phase s = Arbitrating))"
  using assms
  by (induction rule: sup_moves.induct) (auto simp: IsPrimary_def split: if_splits)

lemma primary_only_by_arbitration_witness:
  "\<exists>status. statusOK status \<and> applyArbitration (Some 0) (sup_New\<lparr>at_phase := Serving\<rparr>) =
     applyArbitration status (sup_New\<lparr>at_phase := Serving\<rparr>)"
proof -
  let ?s = "sup_New\<lparr>at_phase := Serving\<rparr>"
  have "sup_step sample_config ?s (applyArbitration (Some 0) ?s)" by (rule sup_moves.serve_arb) simp_all
  moreover have "\<not> IsPrimary ?s" "IsPrimary (applyArbitration (Some 0) ?s)"
    by (simp_all add: IsPrimary_def sup_New_def statusOK_def)
  ultimately show ?thesis using primary_only_by_arbitration [of sample_config ?s "applyArbitration (Some 0) ?s"] by auto
qed

text \<open>C1. A call of \<open>Send\<close> that returns nil had its message handed to the stream exactly once, while the
  supervisor was primary, in the very generation of the state in which the request was accepted: no
  request is replayed on a later stream or under a later mastership.\<close>

theorem Send_nil_sent_once:
  assumes "sup_reach cfg s" "r < length (requests s)" "sr_message (requests s ! r) = Some msg"
    and "None \<in> wait_results s r"
  shows "filter (\<lambda>x. fst x = r) (sent s) = [(r, sr_state (requests s ! r), StatePrimary)] \<and>
    sr_accepted (requests s ! r) = StatePrimary"
proof -
  have ok: "sent_ok s" using reach_sup_inv [OF assms(1)] by (simp add: sup_inv_def)
  have d: "sr_done (requests s ! r)" "sr_err (requests s ! r) = None"
    using assms(4) by (auto simp: wait_results_def Let_def split: if_splits option.splits)
  then obtain x where x: "x \<in> set (sent s)" "fst x = r" using ok assms(2,3) by (auto simp: sent_ok_def)
  then have "x = (r, sr_state (requests s ! r), StatePrimary)" "sr_accepted (requests s ! r) = StatePrimary"
    using ok by (auto simp: sent_ok_def)
  then show ?thesis using filter_fst_unique [OF _ x] ok by (simp add: sent_ok_def)
qed

lemma Send_nil_sent_once_witness:
  "\<exists>s. sup_reach sample_config s \<and> filter (\<lambda>x. fst x = 0) (sent s) = [(0, sr_state (requests s ! 0), StatePrimary)]"
proof -
  obtain s where s: "sup_reach sample_config s" "length (requests s) = 1" "sr_message (requests s ! 0) = Some ''packet''"
      "sr_done (requests s ! 0)" "sr_err (requests s ! 0) = None"
    using run_send [of sample_config] by blast
  have "None \<in> wait_results s 0" using s by (simp add: wait_results_def Let_def)
  then show ?thesis using Send_nil_sent_once [OF s(1) _ s(3)] s(1,2) by auto
qed

text \<open>Results are final: once a request is finished its result never changes, on any further
  run, and a caller still waiting whose context has not ended can only return that result.\<close>

theorem request_result_final:
  assumes "steps cfg s t" "r < length (requests s)" "sr_done (requests s ! r)"
  shows "sr_done (requests t ! r) \<and> sr_err (requests t ! r) = sr_err (requests s ! r) \<and>
    (sr_ctxErr (requests t ! r) = None \<longrightarrow> wait_results t r = {sr_err (requests s ! r)})"
proof -
  have "r < length (requests t) \<and> sr_done (requests t ! r) \<and> sr_err (requests t ! r) = sr_err (requests s ! r)"
    using assms by (rule finished_steps)
  then show ?thesis by (simp add: wait_results_def Let_def)
qed

lemma request_result_final_witness:
  "\<exists>s. sup_reach sample_config s \<and> sr_done (requests s ! 0) \<and> sr_err (requests (s\<lparr>stop := True\<rparr>) ! 0) = None"
proof -
  obtain s where s: "sup_reach sample_config s" "length (requests s) = 1" "sr_done (requests s ! 0)" "sr_err (requests s ! 0) = None"
    using run_send [of sample_config] by blast
  have "steps sample_config s (s\<lparr>stop := True\<rparr>)" by (intro r_into_rtranclp sup_moves.close_stop)
  from request_result_final [OF this, of 0] s show ?thesis by auto
qed

lemma no_dial_start_step:
  "sup_step cfg s t \<Longrightarrow> stop s \<or> draining s \<Longrightarrow> at_phase s \<noteq> Dialing \<Longrightarrow>
     (stop t \<or> draining t) \<and> at_phase t \<noteq> Dialing"
  by (induction rule: sup_moves.induct) auto

lemma finishStream_result_nil: "finishStream_result True s None \<Longrightarrow> parentErr s = None"
  by (auto elim!: finishStream_result.cases simp: finishStream_recv_def split: if_splits)

text \<open>C9. \<open>CloseGracefully\<close> and \<open>Close\<close> end the reconnect loop, and a graceful close comes after what was
  accepted. In a reachable state in which one of them was called and the loop is not dialling, no run
  dials again. When the main loop half-closes the stream, it does so for the one close request, the
  queue is empty and no caller of \<open>Send\<close> can still queue a request; and the close can return nil only
  while the context of the supervisor is alive.\<close>

theorem graceful_close:
  assumes "sup_reach cfg s"
  shows "((stop s \<or> draining s) \<and> at_phase s \<noteq> Dialing \<and> steps cfg s t \<longrightarrow> at_phase t \<noteq> Dialing) \<and>
    (at_phase s = Finishing g \<longrightarrow> grace s = Some g \<and> draining s \<and> sendCh s = [] \<and> (\<forall>r. sendGate s \<noteq> SendPushing r) \<and>
       \<not> sr_done (requests s ! g) \<and> (finishStream_result True s None \<longrightarrow> parentErr s = None))"
proof (intro conjI)
  have "steps cfg s t \<Longrightarrow> stop s \<or> draining s \<Longrightarrow> at_phase s \<noteq> Dialing \<Longrightarrow> (stop t \<or> draining t) \<and> at_phase t \<noteq> Dialing"
    by (induction rule: rtranclp_induct) (auto dest: no_dial_start_step)
  then show "(stop s \<or> draining s) \<and> at_phase s \<noteq> Dialing \<and> steps cfg s t \<longrightarrow> at_phase t \<noteq> Dialing" by blast
  have "grace_ok s" "req_ok s" using reach_sup_inv [OF assms] by (simp_all add: sup_inv_def)
  then show "at_phase s = Finishing g \<longrightarrow> grace s = Some g \<and> draining s \<and> sendCh s = [] \<and> (\<forall>r. sendGate s \<noteq> SendPushing r) \<and>
      \<not> sr_done (requests s ! g) \<and> (finishStream_result True s None \<longrightarrow> parentErr s = None)"
    using finishStream_result_nil by (auto simp: grace_ok_def req_ok_def held_def)
qed

lemma run_finishing: "\<exists>s. sup_reach cfg s \<and> at_phase s = Finishing 0"
proof -
  note go = reach.reach_step [where step = "sup_step cfg"]
  obtain s where s: "sup_reach cfg s" "at_phase s = Serving" "sendGate s = GateFree" "requests s = []"
      "sendCh s = []" "\<not> stopped s" "grace s = None"
    using run_primary [of cfg] by blast
  define s1 where "s1 = (newRequest None None s)\<lparr>grace := Some 0, draining := True, sendGate := CloseAcquired 0\<rparr>"
  have 1: "sup_reach cfg s1" unfolding s1_def using go [OF s(1) sup_moves.close_acquire [where ctxErr = None]] s by simp
  define s2 where "s2 = s1\<lparr>sendGate := ClosePushing 0\<rparr>"
  have r1: "requests s1 = [\<lparr>sr_message = None, sr_ctxErr = None, sr_state = changed s, sr_accepted = state s, sr_done = False, sr_err = None\<rparr>]"
    using s by (simp add: s1_def newRequest_def WatchState_def)
  have 2: "sup_reach cfg s2" unfolding s2_def using go [OF 1 sup_moves.close_check [of s1 0]] s r1 by (simp add: s1_def)
  define s3 where "s3 = s2\<lparr>sendCh := [0], sendGate := GateFree\<rparr>"
  have 3: "sup_reach cfg s3" unfolding s3_def using go [OF 2 sup_moves.close_push [of s2 0]] s by (simp add: s2_def s1_def)
  have "sup_reach cfg ((pop s3)\<lparr>at_phase := Finishing 0\<rparr>)"
    using go [OF 3 sup_moves.serve_close [of s3 0 "[]"]] s r1 by (simp add: s3_def s2_def s1_def)
  then show ?thesis by (intro exI [of _ "(pop s3)\<lparr>at_phase := Finishing 0\<rparr>"]) simp
qed

lemma graceful_close_witness:
  "\<exists>s. sup_reach sample_config s \<and> grace s = Some 0 \<and> draining s \<and> sendCh s = [] \<and> at_phase (s\<lparr>stop := True\<rparr>) \<noteq> Dialing"
proof -
  obtain s where s: "sup_reach sample_config s" "at_phase s = Finishing 0" using run_finishing [of sample_config] by blast
  have "steps sample_config s (s\<lparr>stop := True\<rparr>)" by (intro r_into_rtranclp sup_moves.close_stop)
  with graceful_close [OF s(1)] s show ?thesis by auto
qed



text \<open>C32. The delay between two attempts of a supervisor built by \<open>New\<close>, with delays configured up to 146 years. In every reachable state
  after the start the backoff is positive and at most the larger of the initial and the maximal one; the timer that
  \<open>sleep\<close> waits on is armed with a positive delay that is the backoff give or take a fifth (the rounding of the floating-point
  product adds at most a fraction of 2^-51, nothing below 26 days). When the timer fires the backoff doubles, capped at the maximum, and an arbitration resets
  it to the initial one.\<close>

theorem backoff_bounded:
  assumes "sup_reach (sup_defaults cfg) s" "at_phase s \<noteq> NotStarted"
    and "cfg_BackoffInitial cfg \<le> 2 ^ 62" "cfg_BackoffMax cfg \<le> 2 ^ 62"
  shows "0 < backoff s \<and> backoff s \<le> max (cfg_BackoffInitial (sup_defaults cfg)) (cfg_BackoffMax (sup_defaults cfg)) \<and>
    (\<forall>delay. at_phase s = SleepTimer delay \<longrightarrow> 0 < delay \<and>
       4 * backoff s \<le> 5 * delay + backoff s div 2 ^ 51 \<and> 5 * delay \<le> 6 * backoff s + backoff s div 2 ^ 51) \<and>
    (\<forall>t. sup_step (sup_defaults cfg) s t \<longrightarrow> backoff t =
       (if (\<exists>delay. at_phase s = SleepTimer delay) \<and> at_phase t = LoopTop then min (2 * backoff s) (cfg_BackoffMax (sup_defaults cfg))
        else if at_phase s = Arbitrating \<and> at_phase t = Serving then cfg_BackoffInitial (sup_defaults cfg)
        else backoff s))"
proof -
  let ?c = "sup_defaults cfg"
  have ok: "cfg_ok ?c" by (rule sup_defaults_ok)
  then have b: "0 < backoff s" "backoff s \<le> max (cfg_BackoffInitial ?c) (cfg_BackoffMax ?c)"
    using reach_backoff_ok [OF assms(1)] assms(2) by (simp_all add: backoff_ok_def)
  have c: "cfg_BackoffInitial ?c \<le> 2 ^ 62" "cfg_BackoffMax ?c \<le> 2 ^ 62"
    using assms(3,4) by (simp_all add: sup_defaults_def Let_def)
  with b have le: "backoff s \<le> 2 ^ 62" by linarith
  have "0 < delay \<and> 4 * backoff s \<le> 5 * delay + backoff s div 2 ^ 51 \<and> 5 * delay \<le> 6 * backoff s + backoff s div 2 ^ 51"
    if "at_phase s = SleepTimer delay" for delay
    using reach_timer_ok [OF assms(1)] that jitter_range [OF b(1) le] by (auto simp: timer_ok_def)
  moreover have "nextBackoff (backoff s) (cfg_BackoffMax ?c) = min (2 * backoff s) (cfg_BackoffMax ?c)"
    using nextBackoff_doubles [of "backoff s" "cfg_BackoffMax ?c"] b ok c le by simp
  ultimately show ?thesis using b assms(2) backoff_step [of ?c s] by simp
qed

lemma run_sleeping: "cfg_ok cfg \<Longrightarrow> \<exists>s d. sup_reach cfg s \<and> at_phase s = SleepTimer d \<and> backoff s = cfg_BackoffInitial cfg"
proof -
  assume ok: "cfg_ok cfg"
  note go = reach.reach_step [where step = "sup_step cfg"]
  define s1 where "s1 = sup_New\<lparr>at_phase := LoopTop, backoff := cfg_BackoffInitial cfg\<rparr>"
  have 1: "sup_reach cfg s1" unfolding s1_def
    by (rule go [OF reach.reach_init sup_moves.start]) (simp_all add: sup_New_def)
  have 2: "sup_reach cfg (s1\<lparr>at_phase := LoopSelect\<rparr>)" by (rule go [OF 1 sup_moves.top_check]) (simp_all add: s1_def sup_New_def)
  define s3 where "s3 = (setState StateConnecting None (s1\<lparr>at_phase := LoopSelect\<rparr>))\<lparr>at_phase := Dialing\<rparr>"
  have 3: "sup_reach cfg s3" unfolding s3_def by (rule go [OF 2 sup_moves.select_connect]) (simp_all add: s1_def sup_New_def)
  define s4 where "s4 = (setState StateDisconnected (Some EOF) s3)\<lparr>at_phase := SleepCheck\<rparr>"
  have 4: "sup_reach cfg s4" unfolding s4_def by (rule go [OF 3 sup_moves.dial_fail]) (simp_all add: s3_def)
  have "sup_reach cfg (s4\<lparr>at_phase := SleepTimer (jitter (\<lambda>_. 0) (backoff s4))\<rparr>)"
    by (rule go [OF 4 sup_moves.sleep_arm]) (use ok in \<open>simp_all add: s4_def s3_def s1_def sup_New_def below_def\<close>)
  moreover have "backoff s4 = cfg_BackoffInitial cfg" by (simp add: s4_def s3_def s1_def)
  ultimately show ?thesis by (intro exI [of _ "s4\<lparr>at_phase := SleepTimer (jitter (\<lambda>_. 0) (backoff s4))\<rparr>"]) auto
qed

text \<open>The first retry after the default initial backoff of 500 ms: between 400 and 600 ms.\<close>

lemma backoff_bounded_witness:
  "\<exists>s d. sup_reach sample_config s \<and> at_phase s = SleepTimer d \<and> backoff s = 500000000 \<and> 400000000 \<le> d \<and> d \<le> 600000000"
proof -
  let ?c = "\<lparr>cfg_DeviceID = 1, cfg_ElectionHigh = 0, cfg_ElectionLow = 7, cfg_Role = '''',
     cfg_ArbitrationTimeout = 0, cfg_BackoffInitial = 0, cfg_BackoffMax = 0\<rparr>"
  have c: "cfg_BackoffInitial (sup_defaults ?c) = 500000000" by (simp add: sup_defaults_def Let_def)
  obtain s d where s: "sup_reach (sup_defaults ?c) s" "at_phase s = SleepTimer d" "backoff s = 500000000"
    using run_sleeping [of "sup_defaults ?c"] sup_defaults_ok [of ?c] c by auto
  with backoff_bounded [OF s(1)] have "4 * 500000000 \<le> 5 * d + 500000000 div 2 ^ 51 \<and> 5 * d \<le> 6 * 500000000 + 500000000 div 2 ^ 51"
    by simp
  with s show ?thesis unfolding sample_config_def by (intro exI [of _ s] exI [of _ d]) simp
qed

end
