(* ===== verification/Stream_Dispatch.thy ===== *)
theory Stream_Dispatch
  imports P4_Messages "HOL-Library.AList" "HOL-Library.Multiset"
begin

text \<open>
  Subscriptions to stream messages (src/client/stream.go): the four maps of handlers of
  \<^verbatim>\<open>dispatchSlots\<close>, the functions that add a handler and the closures they return, and \<open>dispatch\<close>.

  A Go map is an association list with distinct keys; its iteration order, which Go leaves open, is the
  parameter \<open>order\<close> of \<open>dispatch\<close>. Handlers are named by values of type \<open>'h\<close>. What a handler does, which
  may be to subscribe or to cancel, is the parameter \<open>run\<close>: it acts on the slots and on the rest of the
  program's state. The identifiers are 64-bit words and wrap.
\<close>

subsection \<open>Messages of the stream\<close>

text \<open>A nil element of the metadata reads as the zero message.\<close>

record PacketMetadata_msg =
  pm_MetadataId :: uint32
  pm_Value :: bytes

record PacketIn_msg =
  pim_Payload :: bytes
  pim_Metadata :: "PacketMetadata_msg list"

record DigestList_msg =
  dl_DigestId :: uint32
  dl_ListId :: uint64

record IdleTimeout_msg =
  it_Entries :: "TableEntry list"

text \<open>The update of a \<open>StreamMessageResponse\<close>; the message inside a oneof may be nil.\<close>

datatype stream_update =
    U_Packet "PacketIn_msg option"
  | U_Digest "DigestList_msg option"
  | U_IdleTimeout "IdleTimeout_msg option"
  | U_Other

subsection \<open>Slots\<close>

record 'h dispatchSlots =
  ds_packetIn :: "(uint64 \<times> 'h) list"
  ds_digestList :: "(uint64 \<times> 'h) list"
  ds_idle :: "(uint64 \<times> 'h) list"
  ds_stream :: "(uint64 \<times> 'h) list"
  ds_nextID :: uint64

definition newDispatch :: "'h dispatchSlots" where
  "newDispatch = \<lparr>ds_packetIn = [], ds_digestList = [], ds_idle = [], ds_stream = [], ds_nextID = 0\<rparr>"

text \<open>Adding a handler returns the identifier that the cancelling closure holds.\<close>

definition addPacketIn :: "'h \<Rightarrow> 'h dispatchSlots \<Rightarrow> 'h dispatchSlots \<times> uint64" where
  "addPacketIn h d = (let i = ds_nextID d in
     (d\<lparr>ds_nextID := i + 1, ds_packetIn := AList.update i h (ds_packetIn d)\<rparr>, i))"

definition addDigestList :: "'h \<Rightarrow> 'h dispatchSlots \<Rightarrow> 'h dispatchSlots \<times> uint64" where
  "addDigestList h d = (let i = ds_nextID d in
     (d\<lparr>ds_nextID := i + 1, ds_digestList := AList.update i h (ds_digestList d)\<rparr>, i))"

definition addIdle :: "'h \<Rightarrow> 'h dispatchSlots \<Rightarrow> 'h dispatchSlots \<times> uint64" where
  "addIdle h d = (let i = ds_nextID d in
     (d\<lparr>ds_nextID := i + 1, ds_idle := AList.update i h (ds_idle d)\<rparr>, i))"

definition addStream :: "'h \<Rightarrow> 'h dispatchSlots \<Rightarrow> 'h dispatchSlots \<times> uint64" where
  "addStream h d = (let i = ds_nextID d in
     (d\<lparr>ds_nextID := i + 1, ds_stream := AList.update i h (ds_stream d)\<rparr>, i))"

definition cancelPacketIn :: "uint64 \<Rightarrow> 'h dispatchSlots \<Rightarrow> 'h dispatchSlots" where
  "cancelPacketIn i d = d\<lparr>ds_packetIn := AList.delete i (ds_packetIn d)\<rparr>"

definition cancelDigestList :: "uint64 \<Rightarrow> 'h dispatchSlots \<Rightarrow> 'h dispatchSlots" where
  "cancelDigestList i d = d\<lparr>ds_digestList := AList.delete i (ds_digestList d)\<rparr>"

definition cancelIdle :: "uint64 \<Rightarrow> 'h dispatchSlots \<Rightarrow> 'h dispatchSlots" where
  "cancelIdle i d = d\<lparr>ds_idle := AList.delete i (ds_idle d)\<rparr>"

definition cancelStream :: "uint64 \<Rightarrow> 'h dispatchSlots \<Rightarrow> 'h dispatchSlots" where
  "cancelStream i d = d\<lparr>ds_stream := AList.delete i (ds_stream d)\<rparr>"

subsection \<open>Dispatch\<close>

datatype 'h call =
    CallStream 'h stream_update
  | CallPacketIn 'h "PacketIn_msg option"
  | CallDigestList 'h "DigestList_msg option"
  | CallIdle 'h "IdleTimeout_msg option"

text \<open>The handlers are selected under the lock, before any of them runs.\<close>

definition selectCalls :: "('h list \<Rightarrow> 'h list) \<Rightarrow> 'h dispatchSlots \<Rightarrow> stream_update \<Rightarrow> 'h call list" where
  "selectCalls order d msg =
     map (\<lambda>h. CallStream h msg) (order (map snd (ds_stream d))) @
     (case msg of
        U_Packet p \<Rightarrow> map (\<lambda>h. CallPacketIn h p) (order (map snd (ds_packetIn d)))
      | U_Digest p \<Rightarrow> map (\<lambda>h. CallDigestList h p) (order (map snd (ds_digestList d)))
      | U_IdleTimeout p \<Rightarrow> map (\<lambda>h. CallIdle h p) (order (map snd (ds_idle d)))
      | U_Other \<Rightarrow> [])"

definition dispatch :: "('h call \<Rightarrow> 'h dispatchSlots \<times> 's \<Rightarrow> 'h dispatchSlots \<times> 's) \<Rightarrow> ('h list \<Rightarrow> 'h list) \<Rightarrow>
    stream_update \<Rightarrow> 'h dispatchSlots \<times> 's \<Rightarrow> 'h dispatchSlots \<times> 's" where
  "dispatch run order msg st = fold run (selectCalls order (fst st) msg) st"

subsection \<open>The contract of one kind of subscription\<close>

text \<open>
  What the four kinds share: adding takes the next identifier and binds the handler to it, cancelling
  removes the binding, and neither touches the other kinds, which \<open>rest\<close> observes.
\<close>

lemma alist_update_fresh: "k \<notin> fst ` set al \<Longrightarrow> AList.update k v al = al @ [(k, v)]"
  by (induction al) auto

locale slot =
  fixes get :: "'h dispatchSlots \<Rightarrow> (uint64 \<times> 'h) list"
    and add :: "'h \<Rightarrow> 'h dispatchSlots \<Rightarrow> 'h dispatchSlots \<times> uint64"
    and cancel :: "uint64 \<Rightarrow> 'h dispatchSlots \<Rightarrow> 'h dispatchSlots"
    and rest :: "'h dispatchSlots \<Rightarrow> 'r"
  assumes add_id: "snd (add h d) = ds_nextID d"
    and add_nextID: "ds_nextID (fst (add h d)) = ds_nextID d + 1"
    and add_get: "get (fst (add h d)) = AList.update (ds_nextID d) h (get d)"
    and add_rest: "rest (fst (add h d)) = rest d"
    and cancel_nextID: "ds_nextID (cancel i d) = ds_nextID d"
    and cancel_get: "get (cancel i d) = AList.delete i (get d)"
    and cancel_rest: "rest (cancel i d) = rest d"
begin

lemma add_fresh: "ds_nextID d \<notin> fst ` set (get d) \<Longrightarrow> get (fst (add h d)) = get d @ [(ds_nextID d, h)]"
  unfolding add_get by (rule alist_update_fresh)

lemma cancel_add:
  assumes "ds_nextID d \<notin> fst ` set (get d)"
  shows "get (cancel (snd (add h d)) (fst (add h d))) = get d"
  unfolding cancel_get add_id add_fresh [OF assms] using assms by (force simp: AList.delete_eq filter_id_conv)

lemma cancel_twice: "get (cancel i (cancel i d)) = get (cancel i d)"
  by (simp add: cancel_get AList.delete_eq)

lemmas laws = add_id add_nextID add_get add_rest cancel_nextID cancel_get cancel_rest

end

lemmas slot_defs = addPacketIn_def addDigestList_def addIdle_def addStream_def
  cancelPacketIn_def cancelDigestList_def cancelIdle_def cancelStream_def Let_def

interpretation packetIn: slot ds_packetIn addPacketIn cancelPacketIn "\<lambda>d. (ds_digestList d, ds_idle d, ds_stream d)"
  by unfold_locales (simp_all add: slot_defs)

interpretation digestList: slot ds_digestList addDigestList cancelDigestList "\<lambda>d. (ds_packetIn d, ds_idle d, ds_stream d)"
  by unfold_locales (simp_all add: slot_defs)

interpretation idle: slot ds_idle addIdle cancelIdle "\<lambda>d. (ds_packetIn d, ds_digestList d, ds_stream d)"
  by unfold_locales (simp_all add: slot_defs)

interpretation streamMsg: slot ds_stream addStream cancelStream "\<lambda>d. (ds_packetIn d, ds_digestList d, ds_idle d)"
  by unfold_locales (simp_all add: slot_defs)

subsection \<open>Refinement of a list of subscriptions\<close>

text \<open>
  The abstract view: the registrations in the order in which they were made, each with its kind, its
  handler and whether it is active. Cancelling is possible any number of times, in any order.
\<close>

datatype kind = KPacketIn | KDigestList | KIdle | KStream

datatype 'h dispatch_op = Register kind 'h | Cancel nat

type_synonym 'h subs = "(kind \<times> 'h \<times> bool) list"

fun abs_op :: "'h dispatch_op \<Rightarrow> 'h subs \<Rightarrow> 'h subs" where
  "abs_op (Register k h) xs = xs @ [(k, h, True)]"
| "abs_op (Cancel n) xs = (if n < length xs then xs[n := (fst (xs ! n), fst (snd (xs ! n)), False)] else xs)"

text \<open>The concrete run keeps the closures that were returned: the kind and the identifier they cancel.\<close>

definition addKind :: "kind \<Rightarrow> 'h \<Rightarrow> 'h dispatchSlots \<Rightarrow> 'h dispatchSlots \<times> uint64" where
  "addKind k = (case k of KPacketIn \<Rightarrow> addPacketIn | KDigestList \<Rightarrow> addDigestList | KIdle \<Rightarrow> addIdle | KStream \<Rightarrow> addStream)"

definition cancelKind :: "kind \<Rightarrow> uint64 \<Rightarrow> 'h dispatchSlots \<Rightarrow> 'h dispatchSlots" where
  "cancelKind k = (case k of KPacketIn \<Rightarrow> cancelPacketIn | KDigestList \<Rightarrow> cancelDigestList | KIdle \<Rightarrow> cancelIdle | KStream \<Rightarrow> cancelStream)"

definition getKind :: "kind \<Rightarrow> 'h dispatchSlots \<Rightarrow> (uint64 \<times> 'h) list" where
  "getKind k = (case k of KPacketIn \<Rightarrow> ds_packetIn | KDigestList \<Rightarrow> ds_digestList | KIdle \<Rightarrow> ds_idle | KStream \<Rightarrow> ds_stream)"

fun conc_op :: "'h dispatch_op \<Rightarrow> 'h dispatchSlots \<times> (kind \<times> uint64) list \<Rightarrow> 'h dispatchSlots \<times> (kind \<times> uint64) list" where
  "conc_op (Register k h) (d, cs) = (let (d', i) = addKind k h d in (d', cs @ [(k, i)]))"
| "conc_op (Cancel n) (d, cs) = (if n < length cs then (cancelKind (fst (cs ! n)) (snd (cs ! n)) d, cs) else (d, cs))"

lemma kind_laws:
  "snd (addKind k h d) = ds_nextID d" "ds_nextID (fst (addKind k h d)) = ds_nextID d + 1"
  "getKind k' (fst (addKind k h d)) = (if k' = k then AList.update (ds_nextID d) h (getKind k d) else getKind k' d)"
  "ds_nextID (cancelKind k i d) = ds_nextID d"
  "getKind k' (cancelKind k i d) = (if k' = k then AList.delete i (getKind k d) else getKind k' d)"
  by (cases k; cases k'; simp add: addKind_def cancelKind_def getKind_def packetIn.laws digestList.laws idle.laws streamMsg.laws
      packetIn.add_rest [simplified] digestList.add_rest [simplified] idle.add_rest [simplified] streamMsg.add_rest [simplified]
      packetIn.cancel_rest [simplified] digestList.cancel_rest [simplified] idle.cancel_rest [simplified] streamMsg.cancel_rest [simplified])+

text \<open>The active registrations of a kind, with their positions as identifiers.\<close>

definition active_subs :: "kind \<Rightarrow> 'h subs \<Rightarrow> (uint64 \<times> 'h) list" where
  "active_subs k xs = map (\<lambda>n. (of_nat n, fst (snd (xs ! n)))) (filter (\<lambda>n. fst (xs ! n) = k \<and> snd (snd (xs ! n))) [0..<length xs])"

definition dispatch_rel :: "'h dispatchSlots \<times> (kind \<times> uint64) list \<Rightarrow> 'h subs \<Rightarrow> bool" where
  "dispatch_rel st xs \<longleftrightarrow> (case st of (d, cs) \<Rightarrow>
     ds_nextID d = of_nat (length xs) \<and> cs = map (\<lambda>n. (fst (xs ! n), of_nat n)) [0..<length xs] \<and>
     (\<forall>k. getKind k d = active_subs k xs))"

lemma of_nat_uint64_inj:
  assumes "i < 2 ^ 64" "j < 2 ^ 64"
  shows "(of_nat i :: uint64) = of_nat j \<longleftrightarrow> i = j"
proof -
  have "unat (of_nat n :: uint64) = n" if "n < 2 ^ 64" for n
    using that by (simp add: unsigned_of_nat take_bit_nat_eq_self)
  with assms show ?thesis by metis
qed

lemma active_subs_snoc:
  "active_subs k (xs @ [(k', h, True)]) = active_subs k xs @ (if k' = k then [(of_nat (length xs), h)] else [])"
proof -
  have "filter (\<lambda>n. fst ((xs @ [(k', h, True)]) ! n) = k \<and> snd (snd ((xs @ [(k', h, True)]) ! n))) [0..<length xs] =
      filter (\<lambda>n. fst (xs ! n) = k \<and> snd (snd (xs ! n))) [0..<length xs]"
    by (rule filter_cong) (simp_all add: nth_append)
  then show ?thesis by (auto simp: active_subs_def nth_append)
qed

lemma active_subs_cancel:
  assumes "n < length xs" "length xs < 2 ^ 64"
  shows "active_subs k (xs[n := (fst (xs ! n), fst (snd (xs ! n)), False)]) =
    (if fst (xs ! n) = k then AList.delete (of_nat n) (active_subs k xs) else active_subs k xs)"
proof -
  let ?P = "\<lambda>m. fst (xs ! m) = k \<and> snd (snd (xs ! m))"
  have "active_subs k (xs[n := (fst (xs ! n), fst (snd (xs ! n)), False)]) =
      map (\<lambda>m. (of_nat m, fst (snd (xs ! m)))) (filter (\<lambda>m. ?P m \<and> m \<noteq> n) [0..<length xs])"
    unfolding active_subs_def using assms(1)
    by (auto simp: nth_list_update intro!: map_cong filter_cong)
  moreover have "filter (\<lambda>m. ?P m \<and> m \<noteq> n) [0..<length xs] = filter ?P [0..<length xs]" if "fst (xs ! n) \<noteq> k"
    using that by (intro filter_cong) auto
  moreover have "AList.delete (of_nat n) (active_subs k xs) =
      map (\<lambda>m. (of_nat m, fst (snd (xs ! m)))) (filter (\<lambda>m. ?P m \<and> m \<noteq> n) [0..<length xs])"
  proof -
    have "filter (\<lambda>m. of_nat n \<noteq> (of_nat m :: uint64)) (filter ?P [0..<length xs]) = filter (\<lambda>m. m \<noteq> n) (filter ?P [0..<length xs])"
      using assms by (intro filter_cong) (auto simp: of_nat_uint64_inj)
    then show ?thesis by (simp add: AList.delete_eq active_subs_def filter_map comp_def conj_commute)
  qed
  ultimately show ?thesis by (simp add: active_subs_def)
qed

lemma active_subs_fresh:
  assumes "length xs < 2 ^ 64"
  shows "of_nat (length xs) \<notin> fst ` set (active_subs k xs)"
  using assms by (auto simp: active_subs_def of_nat_uint64_inj)

lemma dispatch_rel_init: "dispatch_rel (newDispatch, []) []"
  by (auto simp: dispatch_rel_def newDispatch_def active_subs_def getKind_def split: kind.splits)

lemma dispatch_rel_op:
  assumes "dispatch_rel st xs" "length xs < 2 ^ 64"
  shows "dispatch_rel (conc_op e st) (abs_op e xs)"
proof -
  obtain d cs where st: "st = (d, cs)" by (cases st)
  have r: "ds_nextID d = of_nat (length xs)" "cs = map (\<lambda>n. (fst (xs ! n), of_nat n)) [0..<length xs]"
      "\<And>k. getKind k d = active_subs k xs"
    using assms(1) st by (auto simp: dispatch_rel_def)
  show ?thesis
  proof (cases e)
    case (Register k h)
    obtain d' i where add: "addKind k h d = (d', i)" by (cases "addKind k h d")
    have "i = of_nat (length xs)" "ds_nextID d' = of_nat (length xs) + 1"
        "\<And>k'. getKind k' d' = active_subs k' (xs @ [(k, h, True)])"
      using kind_laws(1-3) [where k = k and h = h and d = d] add r(1,3)
      by (auto simp: active_subs_snoc alist_update_fresh active_subs_fresh [OF assms(2)])
    moreover have "cs @ [(k, of_nat (length xs))] =
        map (\<lambda>n. (fst ((xs @ [(k, h, True)]) ! n), of_nat n)) [0..<length (xs @ [(k, h, True)])]"
      using r(2) by (auto simp: nth_append)
    ultimately show ?thesis using st Register add by (simp add: dispatch_rel_def)
  next
    case (Cancel n)
    show ?thesis
    proof (cases "n < length xs")
      case True
      have "map (\<lambda>m. (fst (xs[n := (fst (xs ! n), y)] ! m), of_nat m :: uint64)) [0..<length xs] = cs" for y
        using r(2) True by (auto simp: nth_list_update)
      then show ?thesis using st Cancel True r kind_laws(4,5) [where d = d] active_subs_cancel [OF True assms(2)]
        by (simp add: dispatch_rel_def)
    next
      case False
      then show ?thesis using st Cancel r by (simp add: dispatch_rel_def)
    qed
  qed
qed

lemma abs_op_length: "length (abs_op e xs) \<le> Suc (length xs)"
  by (cases e) auto

lemma dispatch_rel_run:
  assumes "dispatch_rel st xs" "length xs + length es \<le> 2 ^ 64"
  shows "dispatch_rel (fold conc_op es st) (fold abs_op es xs)"
  using assms
proof (induction es arbitrary: st xs)
  case (Cons e es)
  then have "dispatch_rel (conc_op e st) (abs_op e xs)" by (intro dispatch_rel_op) simp_all
  moreover have "length (abs_op e xs) + length es \<le> 2 ^ 64" using Cons.prems(2) abs_op_length [of e xs] by simp
  ultimately show ?case using Cons.IH by simp
qed simp

text \<open>The handlers of a kind that are active after a run.\<close>

definition active_handlers :: "kind \<Rightarrow> 'h subs \<Rightarrow> 'h list" where
  "active_handlers k xs = map (fst \<circ> snd) (filter (\<lambda>x. fst x = k \<and> snd (snd x)) xs)"

lemma active_subs_handlers: "map snd (active_subs k xs) = active_handlers k xs"
proof -
  have "active_handlers k (map ((!) xs) [0..<length xs]) = map snd (active_subs k xs)"
    by (simp add: active_handlers_def active_subs_def filter_map comp_def)
  then show ?thesis by (simp add: map_nth)
qed

text \<open>Running the handlers, with a log of the calls.\<close>

definition logged :: "('h call \<Rightarrow> 'h dispatchSlots \<times> 's \<Rightarrow> 'h dispatchSlots \<times> 's) \<Rightarrow> 'h call \<Rightarrow>
    'h dispatchSlots \<times> 'h call list \<times> 's \<Rightarrow> 'h dispatchSlots \<times> 'h call list \<times> 's" where
  "logged run c st = (case st of (d, log, s) \<Rightarrow> case run c (d, s) of (d', s') \<Rightarrow> (d', log @ [c], s'))"

lemma fold_logged:
  "fold (logged run) cs (d, log, s) = (case fold run cs (d, s) of (d', s') \<Rightarrow> (d', log @ cs, s'))"
  by (induction cs arbitrary: d log s) (auto simp: logged_def split: prod.splits)

subsection \<open>Properties\<close>

text \<open>C11. After any sequence of at most \<open>2^64\<close> registrations and cancellations (repeated ones included),
  dispatching a message calls exactly the handlers whose registrations are active at that moment:
  every catch-all handler once, before all others, then every handler of the kind of the message once,
  and no handler of another kind or that was cancelled. This holds whatever the handlers do while
  they run, subscribing and cancelling included, and whatever order Go iterates its maps in.\<close>

theorem dispatch_correct:
  assumes "length es \<le> 2 ^ 64" "\<And>hs. mset (order hs) = mset hs"
    and "fold conc_op es (newDispatch, []) = (d, cs)"
    and "subs = fold abs_op es []"
  shows "\<exists>streams others d' s'. dispatch (logged run) order msg (d, log, s) = (d', log @ streams @ others, s') \<and>
    mset streams = mset (map (\<lambda>h. CallStream h msg) (active_handlers KStream subs)) \<and>
    mset others = mset (case msg of
        U_Packet p \<Rightarrow> map (\<lambda>h. CallPacketIn h p) (active_handlers KPacketIn subs)
      | U_Digest p \<Rightarrow> map (\<lambda>h. CallDigestList h p) (active_handlers KDigestList subs)
      | U_IdleTimeout p \<Rightarrow> map (\<lambda>h. CallIdle h p) (active_handlers KIdle subs)
      | U_Other \<Rightarrow> [])"
proof -
  have "dispatch_rel (d, cs) subs"
    using dispatch_rel_run [OF dispatch_rel_init, of es] assms(1,3,4) by simp
  then have g: "map snd (getKind k d) = active_handlers k subs" for k by (simp add: dispatch_rel_def active_subs_handlers)
  let ?streams = "map (\<lambda>h. CallStream h msg) (order (map snd (ds_stream d)))"
  let ?others = "case msg of
      U_Packet p \<Rightarrow> map (\<lambda>h. CallPacketIn h p) (order (map snd (ds_packetIn d)))
    | U_Digest p \<Rightarrow> map (\<lambda>h. CallDigestList h p) (order (map snd (ds_digestList d)))
    | U_IdleTimeout p \<Rightarrow> map (\<lambda>h. CallIdle h p) (order (map snd (ds_idle d)))
    | U_Other \<Rightarrow> []"
  have "dispatch (logged run) order msg (d, log, s) =
      (case fold run (?streams @ ?others) (d, s) of (d', s') \<Rightarrow> (d', log @ ?streams @ ?others, s'))"
    by (simp only: dispatch_def selectCalls_def fst_conv fold_logged)
  moreover have "mset ?streams = mset (map (\<lambda>h. CallStream h msg) (active_handlers KStream subs))"
    using g [of KStream] assms(2) by (simp add: getKind_def)
  moreover have "mset ?others = mset (case msg of
        U_Packet p \<Rightarrow> map (\<lambda>h. CallPacketIn h p) (active_handlers KPacketIn subs)
      | U_Digest p \<Rightarrow> map (\<lambda>h. CallDigestList h p) (active_handlers KDigestList subs)
      | U_IdleTimeout p \<Rightarrow> map (\<lambda>h. CallIdle h p) (active_handlers KIdle subs)
      | U_Other \<Rightarrow> [])"
    using g [of KPacketIn] g [of KDigestList] g [of KIdle] assms(2) by (simp add: getKind_def split: stream_update.splits)
  ultimately show ?thesis by (metis (no_types, lifting) prod.case_eq_if)
qed

theorem dispatch_correct_witness:
  "\<exists>d' s'. dispatch (logged (\<lambda>c st. st)) id (U_Packet None)
     (fst (fold conc_op [Register KPacketIn ''a'', Register KStream ''b'', Register KPacketIn ''c'', Cancel 0] (newDispatch, [])), [], ()) =
     (d', [CallStream ''b'' (U_Packet None), CallPacketIn ''c'' None], s')"
proof -
  let ?es = "[Register KPacketIn ''a'', Register KStream ''b'', Register KPacketIn ''c'', Cancel 0]"
  obtain d cs where dc: "fold conc_op ?es (newDispatch, []) = (d, cs)" by (cases "fold conc_op ?es (newDispatch, [])")
  from dispatch_correct [OF _ _ dc refl, of id "\<lambda>c st. st" "U_Packet None" "[]" "()"]
  show ?thesis unfolding dc by (auto simp: active_handlers_def)
qed

end
