(* ===== verification/Stream_Receive.thy ===== *)
theory Stream_Receive
  imports Supervisor Stream_Dispatch
begin

text \<open>
  The receiving side of \<open>serve\<close> (src/internal/stream/supervisor.go): the goroutine that reads the stream, hands arbitration
  updates to the main loop over an unbuffered channel and every other message to the handler, interleaved
  with the main loop in \<open>serve\<close> and \<open>finishStream\<close>. The supervisor's step relation leaves free which arbitration updates and receive
  errors arrive; here they come from the messages of the target, in order.

  The rendezvous of the unbuffered channel is one step of both sides. \<open>rv_sent\<close>, \<open>rv_received\<close> and \<open>rv_log\<close> are history variables: what
  the target sent, what \<^verbatim>\<open>Recv\<close> returned, and what has been dealt with (an update applied, or a handler returned).
\<close>

subsection \<open>State\<close>

datatype stream_msg = M_Arbitration "int option" | M_Update stream_update

text \<open>Where the receiving goroutine is: at the top of its loop, in \<^verbatim>\<open>Recv\<close>, before the second check of the context, offering an
  update to the main loop, in the handler, or gone.\<close>

datatype pump =
    PumpTop | PumpRecv | PumpCheck stream_msg | PumpOffer "int option" | PumpHandling stream_update | PumpDone

datatype main_phase = MainServing | MainFinishing | MainReturned

record Receive =
  rv_sup :: Supervisor
  rv_main :: main_phase
  rv_ctx :: bool
  rv_pump :: pump
  rv_recvErr :: "goerr option"
  rv_queue :: "stream_msg list"
  rv_end :: "goerr option"
  rv_sent :: "stream_msg list"
  rv_received :: "stream_msg list"
  rv_log :: "stream_msg list"

definition receive_init :: "Supervisor \<Rightarrow> Receive" where
  "receive_init s = \<lparr>rv_sup = s, rv_main = MainServing, rv_ctx = False, rv_pump = PumpTop, rv_recvErr = None, rv_queue = [], rv_end = None,
     rv_sent = [], rv_received = [], rv_log = []\<rparr>"

subsection \<open>Steps\<close>

inductive receive_step :: "Receive \<Rightarrow> Receive \<Rightarrow> bool" where
  \<comment> \<open>the target sends and ends the stream; the context of the stream is cancelled by \<open>run\<close> or by a caller\<close>
  target_sends: "rv_end s = None \<Longrightarrow> receive_step s (s\<lparr>rv_queue := rv_queue s @ [m], rv_sent := rv_sent s @ [m]\<rparr>)"
| target_ends: "rv_end s = None \<Longrightarrow> receive_step s (s\<lparr>rv_end := Some e\<rparr>)"
| cancel: "receive_step s (s\<lparr>rv_ctx := True\<rparr>)"
  \<comment> \<open>the receiving goroutine\<close>
| top_done: "rv_pump s = PumpTop \<Longrightarrow> rv_ctx s \<Longrightarrow> receive_step s (s\<lparr>rv_pump := PumpDone\<rparr>)"
| top_recv: "rv_pump s = PumpTop \<Longrightarrow> \<not> rv_ctx s \<Longrightarrow> receive_step s (s\<lparr>rv_pump := PumpRecv\<rparr>)"
| recv_msg: "rv_pump s = PumpRecv \<Longrightarrow> rv_queue s = m # q \<Longrightarrow>
    receive_step s (s\<lparr>rv_pump := PumpCheck m, rv_queue := q, rv_received := rv_received s @ [m]\<rparr>)"
| recv_end: "rv_pump s = PumpRecv \<Longrightarrow> rv_queue s = [] \<Longrightarrow> rv_end s = Some e \<Longrightarrow> receive_step s (s\<lparr>rv_pump := PumpDone, rv_recvErr := Some e\<rparr>)"
| recv_cancelled: "rv_pump s = PumpRecv \<Longrightarrow> rv_ctx s \<Longrightarrow> receive_step s (s\<lparr>rv_pump := PumpDone, rv_recvErr := Some CtxCanceled\<rparr>)"
| check_done: "rv_pump s = PumpCheck m \<Longrightarrow> rv_ctx s \<Longrightarrow> receive_step s (s\<lparr>rv_pump := PumpDone\<rparr>)"
| check_arbitration: "rv_pump s = PumpCheck (M_Arbitration a) \<Longrightarrow> \<not> rv_ctx s \<Longrightarrow> receive_step s (s\<lparr>rv_pump := PumpOffer a\<rparr>)"
| check_update: "rv_pump s = PumpCheck (M_Update u) \<Longrightarrow> \<not> rv_ctx s \<Longrightarrow> receive_step s (s\<lparr>rv_pump := PumpHandling u\<rparr>)"
| offer_done: "rv_pump s = PumpOffer a \<Longrightarrow> rv_ctx s \<Longrightarrow> receive_step s (s\<lparr>rv_pump := PumpDone\<rparr>)"
| handler_returns: "rv_pump s = PumpHandling u \<Longrightarrow> receive_step s (s\<lparr>rv_pump := PumpTop, rv_log := rv_log s @ [M_Update u]\<rparr>)"
  \<comment> \<open>the main loop: an update is taken over and applied, an error, a failed send or the end of the context returns; a close request
    whose \<open>CloseSend\<close> succeeds starts to finish, one whose \<open>CloseSend\<close> fails returns\<close>
| main_arbitration: "rv_pump s = PumpOffer a \<Longrightarrow> rv_main s \<noteq> MainReturned \<Longrightarrow>
    receive_step s (s\<lparr>rv_pump := PumpTop, rv_sup := applyArbitration a (rv_sup s), rv_log := rv_log s @ [M_Arbitration a]\<rparr>)"
| main_error: "rv_main s = MainServing \<Longrightarrow> rv_recvErr s = Some e \<Longrightarrow>
    receive_step s (s\<lparr>rv_main := MainReturned, rv_recvErr := None, rv_sup := disconnect e (rv_sup s)\<rparr>)"
| main_send_fails: "rv_main s = MainServing \<Longrightarrow> receive_step s (s\<lparr>rv_main := MainReturned, rv_sup := disconnect e (rv_sup s)\<rparr>)"
| main_finish: "rv_main s = MainServing \<Longrightarrow> receive_step s (s\<lparr>rv_main := MainFinishing\<rparr>)"
| main_close_fails: "rv_main s = MainServing \<Longrightarrow> receive_step s (s\<lparr>rv_main := MainReturned\<rparr>)"
| main_finished: "rv_main s = MainFinishing \<Longrightarrow> rv_recvErr s = Some e \<Longrightarrow> receive_step s (s\<lparr>rv_main := MainReturned, rv_recvErr := None\<rparr>)"
| main_stop: "rv_main s \<noteq> MainReturned \<Longrightarrow> rv_ctx s \<or> stop (rv_sup s) \<Longrightarrow> receive_step s (s\<lparr>rv_main := MainReturned\<rparr>)"
| main_stopping: "receive_step s (s\<lparr>rv_sup := (rv_sup s)\<lparr>stop := True\<rparr>\<rparr>)"

abbreviation receive_reach :: "Supervisor \<Rightarrow> Receive \<Rightarrow> bool" where
  "receive_reach s0 \<equiv> reach (\<lambda>s. s = receive_init s0) receive_step"

subsection \<open>Order\<close>

text \<open>What the goroutine is busy with.\<close>

fun in_hand :: "pump \<Rightarrow> stream_msg list" where
  "in_hand (PumpCheck m) = [m]"
| "in_hand (PumpOffer a) = [M_Arbitration a]"
| "in_hand (PumpHandling u) = [M_Update u]"
| "in_hand _ = []"

text \<open>The role that the updates of a list of messages leave.\<close>

fun role_after :: "State \<Rightarrow> stream_msg list \<Rightarrow> State" where
  "role_after st [] = st"
| "role_after st (M_Arbitration a # ms) = role_after (if statusOK a then StatePrimary else StateBackup) ms"
| "role_after st (M_Update u # ms) = role_after st ms"

lemma role_after_append [simp]: "role_after st (xs @ ys) = role_after (role_after st xs) ys"
  by (induction st xs rule: role_after.induct) auto

definition receive_inv :: "State \<Rightarrow> Receive \<Rightarrow> bool" where
  "receive_inv st s \<longleftrightarrow>
     rv_sent s = rv_received s @ rv_queue s \<and>
     (rv_pump s \<noteq> PumpDone \<longrightarrow> rv_received s = rv_log s @ in_hand (rv_pump s) \<and> rv_recvErr s = None) \<and>
     (rv_pump s = PumpDone \<longrightarrow> rv_received s = rv_log s \<or> rv_ctx s \<and> rv_recvErr s = None \<and> (\<exists>m. rv_received s = rv_log s @ [m])) \<and>
     (rv_pump s = PumpDone \<and> \<not> rv_ctx s \<and> rv_main s \<noteq> MainReturned \<longrightarrow> rv_recvErr s \<noteq> None \<and> rv_queue s = [] \<and> rv_end s \<noteq> None) \<and>
     (rv_main s \<noteq> MainReturned \<longrightarrow> state (rv_sup s) = role_after st (rv_log s))"

lemma receive_inv_step: "receive_step s t \<Longrightarrow> receive_inv st s \<Longrightarrow> receive_inv st t"
  by (induction rule: receive_step.induct) (auto simp: receive_inv_def)

interpretation receiving: invariant_system "\<lambda>s. s = receive_init s0" receive_step "receive_inv (state s0)" for s0
proof unfold_locales
  show "s = receive_init s0 \<Longrightarrow> receive_inv (state s0) s" for s by (simp add: receive_inv_def receive_init_def)
qed (rule receive_inv_step)

text \<open>Once the context is cancelled, only what is already offered or in the handler is still dealt with.\<close>

definition committed :: "pump \<Rightarrow> bool" where
  "committed p \<longleftrightarrow> (\<exists>a. p = PumpOffer a) \<or> (\<exists>u. p = PumpHandling u)"

lemma cancelled_step:
  assumes "receive_step t u" and "rv_ctx t"
    and "rv_log t = l \<and> (committed (rv_pump t) \<longrightarrow> rv_pump t = p) \<or> committed p \<and> rv_log t = l @ in_hand p \<and> \<not> committed (rv_pump t)"
  shows "rv_ctx u \<and> (rv_log u = l \<and> (committed (rv_pump u) \<longrightarrow> rv_pump u = p) \<or> committed p \<and> rv_log u = l @ in_hand p \<and> \<not> committed (rv_pump u))"
  using assms by (induction rule: receive_step.induct) (auto simp: committed_def; metis in_hand.simps)+

lemma cancelled_log:
  assumes "receive_step\<^sup>*\<^sup>* s t" and "rv_ctx s"
  shows "rv_log t = rv_log s \<or> committed (rv_pump s) \<and> rv_log t = rv_log s @ in_hand (rv_pump s)"
proof -
  have "rv_ctx t \<and> (rv_log t = rv_log s \<and> (committed (rv_pump t) \<longrightarrow> rv_pump t = rv_pump s) \<or>
      committed (rv_pump s) \<and> rv_log t = rv_log s @ in_hand (rv_pump s) \<and> \<not> committed (rv_pump t))"
    using assms by (induction rule: rtranclp_induct) (use cancelled_step in blast)+
  then show ?thesis by blast
qed

text \<open>A cancelled goroutine ends, after the handler it may be in.\<close>

lemma top_ends: "rv_pump s = PumpTop \<Longrightarrow> rv_ctx s \<Longrightarrow> \<exists>t. receive_step\<^sup>*\<^sup>* s t \<and> rv_pump t = PumpDone"
  using top_done [of s] by (intro exI [of _ "s\<lparr>rv_pump := PumpDone\<rparr>"]) auto

lemma step_ends: "receive_step s t \<Longrightarrow> rv_pump t = PumpDone \<Longrightarrow> \<exists>t. receive_step\<^sup>*\<^sup>* s t \<and> rv_pump t = PumpDone"
  by blast

lemma cancelled_ends: "rv_ctx s \<Longrightarrow> \<exists>t. receive_step\<^sup>*\<^sup>* s t \<and> rv_pump t = PumpDone"
proof (cases "rv_pump s")
  case (PumpHandling u)
  assume "rv_ctx s"
  then have "\<exists>t. receive_step\<^sup>*\<^sup>* (s\<lparr>rv_pump := PumpTop, rv_log := rv_log s @ [M_Update u]\<rparr>) t \<and> rv_pump t = PumpDone"
    by (intro top_ends) simp_all
  with handler_returns [OF PumpHandling] show ?thesis by (meson converse_rtranclp_into_rtranclp)
next
  case PumpRecv
  assume "rv_ctx s"
  from recv_cancelled [OF PumpRecv this] show ?thesis by (rule step_ends) simp
next
  case (PumpCheck m)
  assume "rv_ctx s"
  from check_done [OF PumpCheck this] show ?thesis by (rule step_ends) simp
next
  case (PumpOffer a)
  assume "rv_ctx s"
  from offer_done [OF PumpOffer this] show ?thesis by (rule step_ends) simp
qed (auto intro: top_ends)

subsection \<open>Properties\<close>

text \<open>C10. What happens to the messages of the stream. They are dealt with one at a time and in the order in which the target
  sent them, arbitration updates by the main loop and all others by the handler. While a message is in
  the handler and the main loop runs, the state is the role that the updates sent before that message give: a
  packet is never handled in the role of an earlier arbitration. A receive error that is not due to a
  cancellation reaches the main loop only after everything sent before it has been dealt with. After a
  cancellation at most a message that is already offered or in the handler is still dealt with, and the goroutine can end.\<close>

theorem stream_receive_ordered:
  assumes "receive_reach s0 s"
  shows "(\<exists>rest. rv_sent s = rv_log s @ rest) \<and>
    (rv_pump s = PumpHandling u \<and> rv_main s \<noteq> MainReturned \<longrightarrow>
       (\<exists>rest. rv_sent s = rv_log s @ M_Update u # rest) \<and> state (rv_sup s) = role_after (state s0) (rv_log s)) \<and>
    (rv_recvErr s \<noteq> None \<and> \<not> rv_ctx s \<and> rv_main s \<noteq> MainReturned \<longrightarrow> rv_log s = rv_sent s \<and> rv_end s \<noteq> None) \<and>
    (rv_ctx s \<longrightarrow> (\<forall>t. receive_step\<^sup>*\<^sup>* s t \<longrightarrow> rv_log t = rv_log s \<or> committed (rv_pump s) \<and> rv_log t = rv_log s @ in_hand (rv_pump s)) \<and>
       (\<exists>t. receive_step\<^sup>*\<^sup>* s t \<and> rv_pump t = PumpDone))"
proof -
  have inv: "receive_inv (state s0) s" by (rule receiving.reach_inv [OF assms])
  have "\<exists>rest. rv_sent s = rv_log s @ rest"
    using inv by (cases "rv_pump s = PumpDone") (auto simp: receive_inv_def)
  moreover have "rv_pump s = PumpHandling u \<and> rv_main s \<noteq> MainReturned \<longrightarrow>
      (\<exists>rest. rv_sent s = rv_log s @ M_Update u # rest) \<and> state (rv_sup s) = role_after (state s0) (rv_log s)"
    using inv by (auto simp: receive_inv_def)
  moreover have "rv_recvErr s \<noteq> None \<and> \<not> rv_ctx s \<and> rv_main s \<noteq> MainReturned \<longrightarrow> rv_log s = rv_sent s \<and> rv_end s \<noteq> None"
    using inv by (auto simp: receive_inv_def)
  ultimately show ?thesis using cancelled_log cancelled_ends by blast
qed

text \<open>A demotion followed by a packet: when the packet is handled, the supervisor is a backup.\<close>

theorem stream_receive_ordered_witness:
  "\<exists>s. receive_reach (applyArbitration None sup_New) s \<and> rv_pump s = PumpHandling U_Other \<and> state (rv_sup s) = StateBackup"
proof -
  let ?q = "applyArbitration None sup_New"
  let ?a = "Some codes_AlreadyExists"
  let ?m = "[M_Arbitration ?a, M_Update U_Other]"
  let ?r = "receive_init ?q"
  let ?b = "applyArbitration ?a ?q"
  let ?s = "?r\<lparr>rv_sent := ?m, rv_received := ?m, rv_log := [M_Arbitration ?a], rv_sup := ?b, rv_pump := PumpHandling U_Other\<rparr>"
  have "receive_reach ?q ?r" by (rule reach_init) simp
  from reach_step [OF this target_sends [of ?r "M_Arbitration ?a"]]
  have "receive_reach ?q (?r\<lparr>rv_queue := [M_Arbitration ?a], rv_sent := [M_Arbitration ?a]\<rparr>)" by (simp add: receive_init_def)
  from reach_step [OF this target_sends [of _ "M_Update U_Other"]]
  have "receive_reach ?q (?r\<lparr>rv_queue := ?m, rv_sent := ?m\<rparr>)" by (simp add: receive_init_def)
  from reach_step [OF this top_recv]
  have "receive_reach ?q (?r\<lparr>rv_queue := ?m, rv_sent := ?m, rv_pump := PumpRecv\<rparr>)" by (simp add: receive_init_def)
  from reach_step [OF this recv_msg]
  have "receive_reach ?q (?r\<lparr>rv_queue := [M_Update U_Other], rv_sent := ?m, rv_received := [M_Arbitration ?a], rv_pump := PumpCheck (M_Arbitration ?a)\<rparr>)"
    by (simp add: receive_init_def)
  from reach_step [OF this check_arbitration]
  have "receive_reach ?q (?r\<lparr>rv_queue := [M_Update U_Other], rv_sent := ?m, rv_received := [M_Arbitration ?a], rv_pump := PumpOffer ?a\<rparr>)"
    by (simp add: receive_init_def)
  from reach_step [OF this main_arbitration]
  have "receive_reach ?q (?r\<lparr>rv_queue := [M_Update U_Other], rv_sent := ?m, rv_received := [M_Arbitration ?a], rv_log := [M_Arbitration ?a], rv_sup := ?b\<rparr>)"
    by (simp add: receive_init_def)
  from reach_step [OF this top_recv]
  have "receive_reach ?q (?r\<lparr>rv_queue := [M_Update U_Other], rv_sent := ?m, rv_received := [M_Arbitration ?a], rv_log := [M_Arbitration ?a], rv_sup := ?b,
      rv_pump := PumpRecv\<rparr>)" by (simp add: receive_init_def)
  from reach_step [OF this recv_msg]
  have "receive_reach ?q (?r\<lparr>rv_sent := ?m, rv_received := ?m, rv_log := [M_Arbitration ?a], rv_sup := ?b, rv_pump := PumpCheck (M_Update U_Other)\<rparr>)"
    by (simp add: receive_init_def)
  from reach_step [OF this check_update]
  have run: "receive_reach ?q ?s" by (simp add: receive_init_def)
  have "state (rv_sup ?s) = role_after (state ?q) (rv_log ?s)"
    using stream_receive_ordered [OF run, of U_Other] by (simp add: receive_init_def)
  then have "state (rv_sup ?s) = StateBackup" by (simp add: statusOK_def)
  with run show ?thesis by (intro exI [of _ ?s]) simp
qed

end
