(* ===== verification/Pre.thy ===== *)
theory Pre
  imports Client_RPC
begin

text \<open>
  The packet replication engine (src/pre/pre.go): multicast groups and clone sessions, their
  validation, their encoding into P4Runtime messages and the decoding of what a target returns.
  A Go byte slice that the program compares with nil is an option; one of which it only takes the
  length is a list.
\<close>

subsection \<open>Data\<close>

record BackupReplica =
  br_Port :: bytes
  br_Instance :: uint32

record Replica =
  rep_EgressPort :: uint32
  rep_Instance :: uint32
  rep_Port :: "bytes option"
  rep_BackupReplicas :: "BackupReplica list"

record MulticastGroup =
  mg_ID :: uint32
  mg_Replicas :: "Replica list"
  mg_Metadata :: bytes

record CloneSession =
  cs_ID :: uint32
  cs_Replicas :: "Replica list"
  cs_ClassOfService :: uint32
  cs_PacketLengthBytes :: int

definition NewWriter :: "Client option \<Rightarrow> goerr + Client" where
  "NewWriter c = (case c of None \<Rightarrow> Inl (NewErr ''pre.NewWriter: nil client'') | Some cl \<Rightarrow> Inr cl)"

subsection \<open>Encoding and decoding of replicas\<close>

definition encodeBackup :: "BackupReplica \<Rightarrow> BackupReplica_msg" where
  "encodeBackup b = \<lparr>brm_Port = br_Port b, brm_Instance = br_Instance b\<rparr>"

definition encodeReplica :: "Replica \<Rightarrow> Replica_msg" where
  "encodeReplica r =
     \<lparr>rm_PortKind = Some (case rep_Port r of Some p \<Rightarrow> PK_Port (Some p) | None \<Rightarrow> PK_EgressPort (Some (rep_EgressPort r))),
      rm_Instance = rep_Instance r,
      rm_BackupReplicas = map (\<lambda>b. Some (encodeBackup b)) (rep_BackupReplicas r)\<rparr>"

definition encodeReplicas :: "Replica list \<Rightarrow> Replica_msg option list" where
  "encodeReplicas rs = map (\<lambda>r. Some (encodeReplica r)) rs"

definition decodeBackup :: "nat \<Rightarrow> nat \<Rightarrow> BackupReplica_msg option \<Rightarrow> goerr + BackupReplica" where
  "decodeBackup i j backup =
     (case backup of
        Some b \<Rightarrow>
          if brm_Port b = [] then Inl (Errorf ''pre: replica[%d] backup[%d] port must not be empty'' [AInt (int i), AInt (int j)])
          else Inr \<lparr>br_Port = brm_Port b, br_Instance = brm_Instance b\<rparr>
      | None \<Rightarrow> Inl (Errorf ''pre: replica[%d] backup[%d] port must not be empty'' [AInt (int i), AInt (int j)]))"

text \<open>The switch on the oneof: a typed nil, a zero egress port and an empty port are refused. The
  result is the egress port (zero if unset) and the port (nil if unset).\<close>

definition decodePort :: "nat \<Rightarrow> PortKind option \<Rightarrow> goerr + uint32 \<times> bytes option" where
  "decodePort i kind =
     (case kind of
        Some (PK_EgressPort port) \<Rightarrow>
          if port = None \<or> port = Some 0 then Inl (Errorf ''pre: replica[%d] egress port must be non-zero'' [AInt (int i)])
          else Inr (the port, None)
      | Some (PK_Port port) \<Rightarrow>
          if port = None \<or> port = Some [] then Inl (Errorf ''pre: replica[%d] port must not be empty'' [AInt (int i)])
          else Inr (0, port)
      | None \<Rightarrow> Inl (Errorf ''pre: replica[%d] port is missing'' [AInt (int i)]))"

definition decodeReplica :: "nat \<Rightarrow> Replica_msg option \<Rightarrow> goerr + Replica" where
  "decodeReplica i replica =
     (case replica of
        None \<Rightarrow> Inl (Errorf ''pre: replica[%d] is nil'' [AInt (int i)])
      | Some r \<Rightarrow>
          bindE (decodePort i (rm_PortKind r)) (\<lambda>(egress, port).
          bindE (mapE_idx (decodeBackup i) (rm_BackupReplicas r)) (\<lambda>backups.
          Inr \<lparr>rep_EgressPort = egress, rep_Instance = rm_Instance r, rep_Port = port, rep_BackupReplicas = backups\<rparr>)))"

definition decodeReplicas :: "Replica_msg option list \<Rightarrow> goerr + Replica list" where
  "decodeReplicas rs = mapE_idx decodeReplica rs"

definition validateReplica :: "nat \<Rightarrow> Replica \<Rightarrow> goerr + unit" where
  "validateReplica i r =
     (if rep_Port r \<noteq> None \<and> rep_EgressPort r \<noteq> 0 then
        Inl (Errorf ''pre: replica[%d] must set only one of EgressPort and Port'' [AInt (int i)])
      else if rep_Port r \<noteq> None \<and> rep_Port r = Some [] then
        Inl (Errorf ''pre: replica[%d] port must not be empty'' [AInt (int i)])
      else if rep_Port r = None \<and> rep_EgressPort r = 0 then
        Inl (Errorf ''pre: replica[%d] egress port must be non-zero'' [AInt (int i)])
      else
        bindE (mapE_idx (\<lambda>j b. if br_Port b = [] then
                   Inl (Errorf ''pre: replica[%d] backup[%d] port must not be empty'' [AInt (int i), AInt (int j)])
                 else Inr ()) (rep_BackupReplicas r)) (\<lambda>_. Inr ()))"

definition validateReplicas :: "Replica list \<Rightarrow> goerr + unit" where
  "validateReplicas rs =
     (if length rs = 0 then Inl (NewErr ''pre: replicas must not be empty'')
      else bindE (mapE_idx validateReplica rs) (\<lambda>_. Inr ()))"

subsection \<open>Updates\<close>

definition multicastUpdate :: "int \<Rightarrow> MulticastGroup \<Rightarrow> Update" where
  "multicastUpdate kind mg =
     \<lparr>up_Type = kind, up_Entity = E_MulticastGroupEntry (Some
        \<lparr>mge_MulticastGroupId = mg_ID mg, mge_Replicas = encodeReplicas (mg_Replicas mg),
         mge_Metadata = (if length (mg_Metadata mg) > 0 then mg_Metadata mg else [])\<rparr>)\<rparr>"

definition cloneUpdate :: "int \<Rightarrow> CloneSession \<Rightarrow> Update" where
  "cloneUpdate kind cs =
     \<lparr>up_Type = kind, up_Entity = E_CloneSessionEntry (Some
        \<lparr>cse_SessionId = cs_ID cs, cse_Replicas = encodeReplicas (cs_Replicas cs),
         cse_ClassOfService = cs_ClassOfService cs, cse_PacketLengthBytes = cs_PacketLengthBytes cs\<rparr>)\<rparr>"

text \<open>The checks of the write operations, which come before the call of \<open>Client.Write\<close>.\<close>

definition multicastWriteUpdate :: "int \<times> MulticastGroup \<Rightarrow> goerr + Update" where
  "multicastWriteUpdate arg = (case arg of (kind, mg) \<Rightarrow>
     if mg_ID mg = 0 then Inl (Errorf ''pre.MulticastGroup: id must be non-zero'' [])
     else bindE (validateReplicas (mg_Replicas mg)) (\<lambda>_. Inr (multicastUpdate kind mg)))"

definition cloneWriteUpdate :: "int \<times> CloneSession \<Rightarrow> goerr + Update" where
  "cloneWriteUpdate arg = (case arg of (kind, cs) \<Rightarrow>
     if cs_ID cs = 0 then Inl (Errorf ''pre.CloneSession: id must be non-zero'' [])
     else bindE (validateReplicas (cs_Replicas cs)) (\<lambda>_. Inr (cloneUpdate kind cs)))"

abbreviation emptyGroup :: "uint32 \<Rightarrow> MulticastGroup" where
  "emptyGroup i \<equiv> \<lparr>mg_ID = i, mg_Replicas = [], mg_Metadata = []\<rparr>"

abbreviation emptySession :: "uint32 \<Rightarrow> CloneSession" where
  "emptySession i \<equiv> \<lparr>cs_ID = i, cs_Replicas = [], cs_ClassOfService = 0, cs_PacketLengthBytes = 0\<rparr>"

definition multicastDeleteUpdate :: "uint32 \<Rightarrow> goerr + Update" where
  "multicastDeleteUpdate i =
     (if i = 0 then Inl (NewErr ''pre.DeleteMulticastGroup: id must be non-zero'')
      else Inr (multicastUpdate UpdateDelete (emptyGroup i)))"

definition cloneDeleteUpdate :: "uint32 \<Rightarrow> goerr + Update" where
  "cloneDeleteUpdate i =
     (if i = 0 then Inl (NewErr ''pre.DeleteCloneSession: id must be non-zero'')
      else Inr (cloneUpdate UpdateDelete (emptySession i)))"

subsection \<open>Operations\<close>

definition writeMulticastGroup :: "'s rpc_write \<Rightarrow> from_error \<Rightarrow> unmarshal_any \<Rightarrow> Client \<Rightarrow> int \<Rightarrow> MulticastGroup \<Rightarrow>
    's \<Rightarrow> 's \<times> goerr option" where
  "writeMulticastGroup rpc fe unmarshal c kind mg s =
     (case multicastWriteUpdate (kind, mg) of
        Inl e \<Rightarrow> (s, Some e)
      | Inr u \<Rightarrow> Client_Write rpc fe unmarshal c 0 [u] s)"

definition writeCloneSession :: "'s rpc_write \<Rightarrow> from_error \<Rightarrow> unmarshal_any \<Rightarrow> Client \<Rightarrow> int \<Rightarrow> CloneSession \<Rightarrow>
    's \<Rightarrow> 's \<times> goerr option" where
  "writeCloneSession rpc fe unmarshal c kind cs s =
     (case cloneWriteUpdate (kind, cs) of
        Inl e \<Rightarrow> (s, Some e)
      | Inr u \<Rightarrow> Client_Write rpc fe unmarshal c 0 [u] s)"

definition InsertMulticastGroup :: "'s rpc_write \<Rightarrow> from_error \<Rightarrow> unmarshal_any \<Rightarrow> Client \<Rightarrow> MulticastGroup \<Rightarrow> 's \<Rightarrow> 's \<times> goerr option" where
  "InsertMulticastGroup rpc fe unmarshal c mg s = writeMulticastGroup rpc fe unmarshal c UpdateInsert mg s"

definition ModifyMulticastGroup :: "'s rpc_write \<Rightarrow> from_error \<Rightarrow> unmarshal_any \<Rightarrow> Client \<Rightarrow> MulticastGroup \<Rightarrow> 's \<Rightarrow> 's \<times> goerr option" where
  "ModifyMulticastGroup rpc fe unmarshal c mg s = writeMulticastGroup rpc fe unmarshal c UpdateModify mg s"

definition DeleteMulticastGroup :: "'s rpc_write \<Rightarrow> from_error \<Rightarrow> unmarshal_any \<Rightarrow> Client \<Rightarrow> uint32 \<Rightarrow> 's \<Rightarrow> 's \<times> goerr option" where
  "DeleteMulticastGroup rpc fe unmarshal c i s =
     (case multicastDeleteUpdate i of
        Inl e \<Rightarrow> (s, Some e)
      | Inr u \<Rightarrow> Client_Write rpc fe unmarshal c 0 [u] s)"

definition InsertCloneSession :: "'s rpc_write \<Rightarrow> from_error \<Rightarrow> unmarshal_any \<Rightarrow> Client \<Rightarrow> CloneSession \<Rightarrow> 's \<Rightarrow> 's \<times> goerr option" where
  "InsertCloneSession rpc fe unmarshal c cs s = writeCloneSession rpc fe unmarshal c UpdateInsert cs s"

definition ModifyCloneSession :: "'s rpc_write \<Rightarrow> from_error \<Rightarrow> unmarshal_any \<Rightarrow> Client \<Rightarrow> CloneSession \<Rightarrow> 's \<Rightarrow> 's \<times> goerr option" where
  "ModifyCloneSession rpc fe unmarshal c cs s = writeCloneSession rpc fe unmarshal c UpdateModify cs s"

definition DeleteCloneSession :: "'s rpc_write \<Rightarrow> from_error \<Rightarrow> unmarshal_any \<Rightarrow> Client \<Rightarrow> uint32 \<Rightarrow> 's \<Rightarrow> 's \<times> goerr option" where
  "DeleteCloneSession rpc fe unmarshal c i s =
     (case cloneDeleteUpdate i of
        Inl e \<Rightarrow> (s, Some e)
      | Inr u \<Rightarrow> Client_Write rpc fe unmarshal c 0 [u] s)"

text \<open>The loops over the entities that were read: other kinds are skipped, a malformed replica stops
  the read.\<close>

fun decodeGroups :: "Entity list \<Rightarrow> goerr + MulticastGroup list" where
  "decodeGroups [] = Inr []"
| "decodeGroups (e # es) =
     (case GetMulticastGroupEntry e of
        None \<Rightarrow> decodeGroups es
      | Some mge \<Rightarrow>
          bindE (mapErr (\<lambda>err. Errorf ''pre.ReadMulticastGroups: group %d: %w'' [AInt (uint (mge_MulticastGroupId mge)), AErr err])
                   (decodeReplicas (mge_Replicas mge))) (\<lambda>replicas.
          bindE (decodeGroups es) (\<lambda>out.
          Inr (\<lparr>mg_ID = mge_MulticastGroupId mge, mg_Replicas = replicas, mg_Metadata = mge_Metadata mge\<rparr> # out))))"

fun decodeSessions :: "Entity list \<Rightarrow> goerr + CloneSession list" where
  "decodeSessions [] = Inr []"
| "decodeSessions (e # es) =
     (case GetCloneSessionEntry e of
        None \<Rightarrow> decodeSessions es
      | Some cse \<Rightarrow>
          bindE (mapErr (\<lambda>err. Errorf ''pre.ReadCloneSessions: session %d: %w'' [AInt (uint (cse_SessionId cse)), AErr err])
                   (decodeReplicas (cse_Replicas cse))) (\<lambda>replicas.
          bindE (decodeSessions es) (\<lambda>out.
          Inr (\<lparr>cs_ID = cse_SessionId cse, cs_Replicas = replicas, cs_ClassOfService = cse_ClassOfService cse,
                cs_PacketLengthBytes = cse_PacketLengthBytes cse\<rparr> # out))))"

definition ReadMulticastGroups :: "'s rpc_read \<Rightarrow> Client \<Rightarrow> uint32 \<Rightarrow> 's \<Rightarrow> 's \<times> (goerr + MulticastGroup list) option" where
  "ReadMulticastGroups rpc c i s =
     (let selector = E_MulticastGroupEntry (Some \<lparr>mge_MulticastGroupId = i, mge_Replicas = [], mge_Metadata = []\<rparr>) in
      case Client_Read rpc c [selector] s of (s', r) \<Rightarrow> (s', map_option (\<lambda>res. bindE res decodeGroups) r))"

definition ReadCloneSessions :: "'s rpc_read \<Rightarrow> Client \<Rightarrow> uint32 \<Rightarrow> 's \<Rightarrow> 's \<times> (goerr + CloneSession list) option" where
  "ReadCloneSessions rpc c i s =
     (let selector = E_CloneSessionEntry (Some \<lparr>cse_SessionId = i, cse_Replicas = [], cse_ClassOfService = 0, cse_PacketLengthBytes = 0\<rparr>) in
      case Client_Read rpc c [selector] s of (s', r) \<Rightarrow> (s', map_option (\<lambda>res. bindE res decodeSessions) r))"

interpretation multicast_write: guarded_write multicastWriteUpdate
  "\<lambda>rpc fe unmarshal c (kind, mg). writeMulticastGroup rpc fe unmarshal c kind mg"
  by unfold_locales (auto simp: writeMulticastGroup_def)

interpretation clone_write: guarded_write cloneWriteUpdate
  "\<lambda>rpc fe unmarshal c (kind, cs). writeCloneSession rpc fe unmarshal c kind cs"
  by unfold_locales (auto simp: writeCloneSession_def)

interpretation multicast_delete: guarded_write multicastDeleteUpdate DeleteMulticastGroup
  by unfold_locales (simp add: DeleteMulticastGroup_def)

interpretation clone_delete: guarded_write cloneDeleteUpdate DeleteCloneSession
  by unfold_locales (simp add: DeleteCloneSession_def)

subsection \<open>Validation and the round trip of replicas\<close>

text \<open>A well-formed replica has exactly one of the two port fields, not empty, and non-empty backup
  ports.\<close>

definition replica_ok :: "Replica \<Rightarrow> bool" where
  "replica_ok r \<longleftrightarrow>
     (case rep_Port r of None \<Rightarrow> rep_EgressPort r \<noteq> 0 | Some p \<Rightarrow> rep_EgressPort r = 0 \<and> p \<noteq> []) \<and>
     list_all (\<lambda>b. br_Port b \<noteq> []) (rep_BackupReplicas r)"

definition replicas_ok :: "Replica list \<Rightarrow> bool" where
  "replicas_ok rs \<longleftrightarrow> rs \<noteq> [] \<and> list_all replica_ok rs"

lemma isOk_mapE_idx: "isOk (mapE_idx f xs) \<longleftrightarrow> (\<forall>i < length xs. isOk (f i (xs ! i)))"
proof -
  have "zip [0..<length xs] xs = map (\<lambda>i. (i, xs ! i)) [0..<length xs]" by (rule nth_equalityI) simp_all
  then show ?thesis by (auto simp: mapE_idx_def isOk_mapE)
qed

lemma validateReplica_iff: "isOk (validateReplica i r) \<longleftrightarrow> replica_ok r"
  by (auto simp: validateReplica_def replica_ok_def isOk_bindE isOk_iff [symmetric] isOk_mapE_idx list_all_length
      split: option.splits if_splits)

lemma validateReplicas_iff: "isOk (validateReplicas rs) \<longleftrightarrow> replicas_ok rs"
  by (auto simp: validateReplicas_def replicas_ok_def isOk_bindE isOk_iff [symmetric] isOk_mapE_idx
      validateReplica_iff list_all_length)

lemma decodeBackup_iff: "decodeBackup i j m = Inr b \<longleftrightarrow> br_Port b \<noteq> [] \<and> m = Some (encodeBackup b)"
  by (cases m) (auto simp: decodeBackup_def encodeBackup_def)

lemma decodeBackups_iff:
  "mapE_idx (decodeBackup i) ms = Inr bs \<longleftrightarrow> list_all (\<lambda>b. br_Port b \<noteq> []) bs \<and> ms = map (\<lambda>b. Some (encodeBackup b)) bs"
  by (auto simp: mapE_idx_Inr_iff decodeBackup_iff list_all_length intro!: nth_equalityI)

lemma decodePort_iff:
  "decodePort i k = Inr (eg, p) \<longleftrightarrow>
     (case p of None \<Rightarrow> eg \<noteq> 0 \<and> k = Some (PK_EgressPort (Some eg)) | Some b \<Rightarrow> eg = 0 \<and> b \<noteq> [] \<and> k = Some (PK_Port (Some b)))"
  by (auto simp: decodePort_def split: option.splits PortKind.splits)

lemma decodeReplica_iff: "decodeReplica i m = Inr r \<longleftrightarrow> replica_ok r \<and> m = Some (encodeReplica r)"
proof (cases m)
  case (Some rm)
  have "decodeReplica i m = Inr r \<longleftrightarrow>
      decodePort i (rm_PortKind rm) = Inr (rep_EgressPort r, rep_Port r) \<and> rm_Instance rm = rep_Instance r \<and>
      mapE_idx (decodeBackup i) (rm_BackupReplicas rm) = Inr (rep_BackupReplicas r)"
    using Some by (cases r) (auto simp: decodeReplica_def bindE_Inr_iff split: prod.splits)
  also have "\<dots> \<longleftrightarrow> replica_ok r \<and> rm = encodeReplica r"
    by (cases rm) (auto simp: decodePort_iff decodeBackups_iff replica_ok_def encodeReplica_def split: option.splits)
  finally show ?thesis using Some by simp
qed (simp add: decodeReplica_def)

lemma decodeReplicas_iff: "decodeReplicas ms = Inr rs \<longleftrightarrow> list_all replica_ok rs \<and> ms = encodeReplicas rs"
  by (auto simp: decodeReplicas_def encodeReplicas_def mapE_idx_Inr_iff decodeReplica_iff list_all_length
      intro!: nth_equalityI)

subsection \<open>Updates\<close>

lemma multicastWriteUpdate_Inr_iff:
  "multicastWriteUpdate (kind, mg) = Inr u \<longleftrightarrow> mg_ID mg \<noteq> 0 \<and> replicas_ok (mg_Replicas mg) \<and> u = multicastUpdate kind mg"
  using validateReplicas_iff [of "mg_Replicas mg"]
  by (auto simp: multicastWriteUpdate_def bindE_Inr_iff isOk_iff)

lemma cloneWriteUpdate_Inr_iff:
  "cloneWriteUpdate (kind, cs) = Inr u \<longleftrightarrow> cs_ID cs \<noteq> 0 \<and> replicas_ok (cs_Replicas cs) \<and> u = cloneUpdate kind cs"
  using validateReplicas_iff [of "cs_Replicas cs"]
  by (auto simp: cloneWriteUpdate_def bindE_Inr_iff isOk_iff)

text \<open>What a read returns is exactly what re-encodes to the entities of that kind.\<close>

lemma decodeGroups_iff:
  "decodeGroups es = Inr gs \<longleftrightarrow>
     list_all (\<lambda>g. list_all replica_ok (mg_Replicas g)) gs \<and>
     List.map_filter GetMulticastGroupEntry es =
       map (\<lambda>g. \<lparr>mge_MulticastGroupId = mg_ID g, mge_Replicas = encodeReplicas (mg_Replicas g), mge_Metadata = mg_Metadata g\<rparr>) gs"
proof (induction es arbitrary: gs)
  case (Cons e es)
  note IH = Cons.IH
  show ?case
  proof (cases "GetMulticastGroupEntry e")
    case (Some m)
    show ?thesis
    proof (cases gs)
      case (Cons g gs')
      then show ?thesis using Some IH [of gs']
        by (cases g; cases m) (auto simp: bindE_Inr_iff decodeReplicas_iff List.map_filter_def)
    qed (use Some in \<open>auto simp: bindE_Inr_iff List.map_filter_def\<close>)
  qed (use Cons in \<open>simp add: List.map_filter_def\<close>)
qed (auto simp: List.map_filter_def)

lemma decodeSessions_iff:
  "decodeSessions es = Inr gs \<longleftrightarrow>
     list_all (\<lambda>g. list_all replica_ok (cs_Replicas g)) gs \<and>
     List.map_filter GetCloneSessionEntry es =
       map (\<lambda>g. \<lparr>cse_SessionId = cs_ID g, cse_Replicas = encodeReplicas (cs_Replicas g), cse_ClassOfService = cs_ClassOfService g,
                 cse_PacketLengthBytes = cs_PacketLengthBytes g\<rparr>) gs"
proof (induction es arbitrary: gs)
  case (Cons e es)
  note IH = Cons.IH
  show ?case
  proof (cases "GetCloneSessionEntry e")
    case (Some m)
    show ?thesis
    proof (cases gs)
      case (Cons g gs')
      then show ?thesis using Some IH [of gs']
        by (cases g; cases m) (auto simp: bindE_Inr_iff decodeReplicas_iff List.map_filter_def)
    qed (use Some in \<open>auto simp: bindE_Inr_iff List.map_filter_def\<close>)
  qed (use Cons in \<open>simp add: List.map_filter_def\<close>)
qed (auto simp: List.map_filter_def)

subsection \<open>Properties\<close>

text \<open>Writing multicast groups and clone sessions: the target is sent exactly one update, carrying the
  identifier, the replicas and the other fields of the group or session, when the identifier is
  non-zero, there is at least one replica, every replica has exactly one non-empty port and
  non-empty backup ports, and the client is primary; otherwise nothing is sent and an error is
  returned. A delete needs a non-zero identifier only.\<close>

theorem pre_write_correct:
  "(mg_ID mg \<noteq> 0 \<and> replicas_ok (mg_Replicas mg) \<and> cl_primary c \<longrightarrow>
      fst (writeMulticastGroup rpc fe unmarshal c kind mg s) = fst (rpc s (writeRequest c 0 [multicastUpdate kind mg])) \<and>
      (snd (writeMulticastGroup rpc fe unmarshal c kind mg s) = None \<longleftrightarrow> snd (rpc s (writeRequest c 0 [multicastUpdate kind mg])) = None)) \<and>
   (\<not> (mg_ID mg \<noteq> 0 \<and> replicas_ok (mg_Replicas mg) \<and> cl_primary c) \<longrightarrow>
      fst (writeMulticastGroup rpc fe unmarshal c kind mg s) = s \<and> snd (writeMulticastGroup rpc fe unmarshal c kind mg s) \<noteq> None) \<and>
   (cs_ID cs \<noteq> 0 \<and> replicas_ok (cs_Replicas cs) \<and> cl_primary c \<longrightarrow>
      fst (writeCloneSession rpc fe unmarshal c kind cs s) = fst (rpc s (writeRequest c 0 [cloneUpdate kind cs])) \<and>
      (snd (writeCloneSession rpc fe unmarshal c kind cs s) = None \<longleftrightarrow> snd (rpc s (writeRequest c 0 [cloneUpdate kind cs])) = None)) \<and>
   (\<not> (cs_ID cs \<noteq> 0 \<and> replicas_ok (cs_Replicas cs) \<and> cl_primary c) \<longrightarrow>
      fst (writeCloneSession rpc fe unmarshal c kind cs s) = s \<and> snd (writeCloneSession rpc fe unmarshal c kind cs s) \<noteq> None) \<and>
   (i \<noteq> 0 \<and> cl_primary c \<longrightarrow>
      fst (DeleteMulticastGroup rpc fe unmarshal c i s) = fst (rpc s (writeRequest c 0 [multicastUpdate UpdateDelete (emptyGroup i)])) \<and>
      fst (DeleteCloneSession rpc fe unmarshal c i s) = fst (rpc s (writeRequest c 0 [cloneUpdate UpdateDelete (emptySession i)]))) \<and>
   (i = 0 \<or> \<not> cl_primary c \<longrightarrow>
      fst (DeleteMulticastGroup rpc fe unmarshal c i s) = s \<and> snd (DeleteMulticastGroup rpc fe unmarshal c i s) \<noteq> None \<and>
      fst (DeleteCloneSession rpc fe unmarshal c i s) = s \<and> snd (DeleteCloneSession rpc fe unmarshal c i s) \<noteq> None)"
  (is "?a \<and> ?b \<and> ?c \<and> ?d \<and> ?e \<and> ?f")
proof (intro conjI)
  show ?a using multicast_write.op_sends_one [of c "(kind, mg)" "multicastUpdate kind mg" rpc fe unmarshal s]
    by (simp add: multicastWriteUpdate_Inr_iff)
  show ?b using multicast_write.op_refused [of "(kind, mg)" c rpc fe unmarshal s]
    by (auto simp: multicastWriteUpdate_Inr_iff)
  show ?c using clone_write.op_sends_one [of c "(kind, cs)" "cloneUpdate kind cs" rpc fe unmarshal s]
    by (simp add: cloneWriteUpdate_Inr_iff)
  show ?d using clone_write.op_refused [of "(kind, cs)" c rpc fe unmarshal s]
    by (auto simp: cloneWriteUpdate_Inr_iff)
  show ?e using multicast_delete.op_sends_one [of c i _ rpc fe unmarshal s] clone_delete.op_sends_one [of c i _ rpc fe unmarshal s]
    by (simp add: multicastDeleteUpdate_def cloneDeleteUpdate_def)
  show ?f using multicast_delete.op_refused [of i c rpc fe unmarshal s] clone_delete.op_refused [of i c rpc fe unmarshal s]
    by (auto simp: multicastDeleteUpdate_def cloneDeleteUpdate_def)
qed

abbreviation sample_group :: MulticastGroup where
  "sample_group \<equiv> \<lparr>mg_ID = 5, mg_Replicas = [\<lparr>rep_EgressPort = 1, rep_Instance = 0, rep_Port = None, rep_BackupReplicas = []\<rparr>,
     \<lparr>rep_EgressPort = 0, rep_Instance = 2, rep_Port = Some [1, 2], rep_BackupReplicas = [\<lparr>br_Port = [9], br_Instance = 1\<rparr>]\<rparr>],
     mg_Metadata = [7]\<rparr>"

abbreviation sample_session :: CloneSession where
  "sample_session \<equiv> \<lparr>cs_ID = 0, cs_Replicas = mg_Replicas sample_group, cs_ClassOfService = 0, cs_PacketLengthBytes = 128\<rparr>"

theorem pre_write_correct_witness:
  "map wr_Updates (fst (writeMulticastGroup logging_target no_status (\<lambda>_. None) sample_client UpdateInsert sample_group [])) =
     [[multicastUpdate UpdateInsert sample_group]] \<and>
   fst (writeCloneSession logging_target no_status (\<lambda>_. None) sample_client UpdateInsert sample_session []) = []"
  using pre_write_correct [of sample_group sample_client logging_target no_status "\<lambda>_. None" UpdateInsert "[]" sample_session 1]
  by (simp add: replicas_ok_def replica_ok_def writeRequest_def)

text \<open>C19. Reading back what was written: the entity of every group or session that the write operations
  accept is decoded to the same group or session; and whatever entities a read gets, those of other
  kinds included, the groups and sessions it returns are those of its group and session entries, in the order of
  the entries: their encodings are these entries again. An entry written and returned by the
  target in one response therefore comes back unchanged.\<close>

theorem pre_roundtrip:
  "(multicastWriteUpdate (kind, mg) = Inr u \<longrightarrow> decodeGroups [up_Entity u] = Inr [mg]) \<and>
   (cloneWriteUpdate (kind, cs) = Inr v \<longrightarrow> decodeSessions [up_Entity v] = Inr [cs]) \<and>
   (decodeGroups es = Inr gs \<longrightarrow>
      map (\<lambda>g. up_Entity (multicastUpdate kind g)) gs = map (\<lambda>m. E_MulticastGroupEntry (Some m)) (List.map_filter GetMulticastGroupEntry es)) \<and>
   (decodeSessions es = Inr ss \<longrightarrow>
      map (\<lambda>g. up_Entity (cloneUpdate kind g)) ss = map (\<lambda>m. E_CloneSessionEntry (Some m)) (List.map_filter GetCloneSessionEntry es)) \<and>
   (multicastWriteUpdate (kind, mg) = Inr u \<and>
      Client_Read rpc c [E_MulticastGroupEntry (Some \<lparr>mge_MulticastGroupId = i, mge_Replicas = [], mge_Metadata = []\<rparr>)] s
        = (s', Some (Inr [E_Other, up_Entity u])) \<longrightarrow>
      ReadMulticastGroups rpc c i s = (s', Some (Inr [mg])))"
proof -
  have g: "decodeGroups [up_Entity u] = Inr [mg]" if "multicastWriteUpdate (kind, mg) = Inr u"
    using that unfolding decodeGroups_iff
    by (auto simp: multicastWriteUpdate_Inr_iff replicas_ok_def multicastUpdate_def List.map_filter_def)
  have "decodeSessions [up_Entity v] = Inr [cs]" if "cloneWriteUpdate (kind, cs) = Inr v"
    using that unfolding decodeSessions_iff
    by (auto simp: cloneWriteUpdate_Inr_iff replicas_ok_def cloneUpdate_def List.map_filter_def)
  moreover have "ReadMulticastGroups rpc c i s = (s', Some (Inr [mg]))"
    if "multicastWriteUpdate (kind, mg) = Inr u"
      "Client_Read rpc c [E_MulticastGroupEntry (Some \<lparr>mge_MulticastGroupId = i, mge_Replicas = [], mge_Metadata = []\<rparr>)] s
        = (s', Some (Inr [E_Other, up_Entity u]))"
    using g [OF that(1)] that(2) by (simp add: ReadMulticastGroups_def)
  ultimately show ?thesis using g
    by (auto simp: decodeGroups_iff decodeSessions_iff multicastUpdate_def cloneUpdate_def)
qed

theorem pre_roundtrip_witness:
  "decodeGroups [up_Entity (multicastUpdate UpdateInsert sample_group)] = Inr [sample_group]"
proof -
  have "multicastWriteUpdate (UpdateInsert, sample_group) = Inr (multicastUpdate UpdateInsert sample_group)"
    unfolding multicastWriteUpdate_Inr_iff by (simp add: replicas_ok_def replica_ok_def)
  then show ?thesis by (rule mp [OF conjunct1 [OF pre_roundtrip]])
qed

end
