(* ===== verification/Net_IP.thy ===== *)
theory Net_IP
  imports Codec
begin

text \<open>
  IP address literals: \<^verbatim>\<open>netip.ParseAddr\<close> of Go's standard library, and the encoders \<open>IPv4\<close> and \<open>IPv6\<close> of
  src/internal/codec/codec.go built on it. The parser is written the way the library has it: one
  scan of the digits of an IPv4 address; groups of hexadecimal digits, an optional ellipsis, an
  embedded IPv4 address and a zone for IPv6.

  The array of 16 bytes that the library fills from the left is the list of the bytes filled so
  far. The lemmas show that exactly the dotted decimal literals without leading zeros are IPv4, and
  what the groups and the embedded IPv4 address of an IPv6 literal mean.
\<close>

subsection \<open>Addresses\<close>

datatype Addr = Addr4 bytes | Addr6 bytes string

definition parseAddrError :: "string \<Rightarrow> string \<Rightarrow> string \<Rightarrow> goerr" where
  "parseAddrError inp msg at' =
     (if at' = '''' then Errorf (''ParseAddr(%q): '' @ msg) [AStr inp]
      else Errorf (''ParseAddr(%q): '' @ msg @ '' (at %q)'') [AStr inp, AStr at'])"

text \<open>The loop of \<open>parseIPv4Fields\<close> over the rest of the string: the previous character, the value and the
  number of digits of the current field, and the fields so far.\<close>

fun parseIPv4Fields :: "string \<Rightarrow> string \<Rightarrow> char option \<Rightarrow> nat \<Rightarrow> nat \<Rightarrow> bytes \<Rightarrow> goerr + bytes" where
  "parseIPv4Fields inp [] prev v digLen octets =
     (if length octets < 3 then Inl (parseAddrError inp ''IPv4 address too short'' '''')
      else Inr (octets @ [of_nat v]))"
| "parseIPv4Fields inp (c # s) prev v digLen octets =
     (if isDigit c then
        if digLen = 1 \<and> v = 0 then Inl (parseAddrError inp ''IPv4 field has octet with leading zero'' '''')
        else
          let v' = v * 10 + (ord_of c - 48) in
          if v' > 255 then Inl (parseAddrError inp ''IPv4 field has value >255'' '''')
          else parseIPv4Fields inp s (Some c) v' (digLen + 1) octets
      else if c = CHR ''.'' then
        if prev = None \<or> s = [] \<or> prev = Some CHR ''.'' then
          Inl (parseAddrError inp ''IPv4 field must have at least one digit'' (c # s))
        else if length octets = 3 then Inl (parseAddrError inp ''IPv4 address too long'' '''')
        else parseIPv4Fields inp s (Some c) 0 0 (octets @ [of_nat v])
      else Inl (parseAddrError inp ''unexpected character'' (c # s)))"

text \<open>The digits of one group: how many, their value and what follows.\<close>

fun scanHex :: "string \<Rightarrow> string \<Rightarrow> string \<Rightarrow> nat \<Rightarrow> nat \<Rightarrow> goerr + nat \<times> nat \<times> string" where
  "scanHex inp s0 [] off acc = Inr (off, acc, [])"
| "scanHex inp s0 (c # s) off acc =
     (case hexVal c of
        None \<Rightarrow> Inr (off, acc, c # s)
      | Some h \<Rightarrow>
          let acc' = acc * 16 + unat h in
          if off > 3 then Inl (parseAddrError inp ''each group must have 4 or less digits'' s0)
          else if acc' > 65535 then Inl (parseAddrError inp ''IPv6 field has value >=2^16'' s0)
          else scanHex inp s0 s (off + 1) acc')"

text \<open>The loop of \<open>parseIPv6\<close>: the rest of the string, the position of the ellipsis and the bytes so far.\<close>

function parseIPv6Groups :: "string \<Rightarrow> string \<Rightarrow> nat option \<Rightarrow> bytes \<Rightarrow> goerr + string \<times> nat option \<times> bytes" where
  "parseIPv6Groups inp s ellipsis ip =
     (if length ip \<ge> 16 then Inr (s, ellipsis, ip)
      else case scanHex inp s s 0 0 of
        Inl e \<Rightarrow> Inl e
      | Inr (off, acc, rest) \<Rightarrow>
          if off = 0 then Inl (parseAddrError inp ''each colon-separated field must have at least one digit'' s)
          else if rest \<noteq> [] \<and> hd rest = CHR ''.'' then
            (if ellipsis = None \<and> length ip \<noteq> 12 then
               Inl (parseAddrError inp ''embedded IPv4 address must replace the final 2 octets of the address'' s)
             else if length ip + 4 > 16 then
               Inl (parseAddrError inp ''too many hex octets to fit an embedded IPv4 at the end of the address'' s)
             else bindE (parseIPv4Fields inp s None 0 0 []) (\<lambda>four. Inr ([], ellipsis, ip @ four)))
          else
            let ip' = ip @ [of_nat (acc div 256), of_nat (acc mod 256)] in
            (case rest of
               [] \<Rightarrow> Inr ([], ellipsis, ip')
             | c # s' \<Rightarrow>
                 if c \<noteq> CHR '':'' then Inl (parseAddrError inp ''unexpected character, want colon'' rest)
                 else (case s' of
                     [] \<Rightarrow> Inl (parseAddrError inp ''colon must be followed by more characters'' rest)
                   | c' # s'' \<Rightarrow>
                       if c' = CHR '':'' then
                         (if ellipsis \<noteq> None then Inl (parseAddrError inp ''multiple :: in address'' s')
                          else if s'' = [] then Inr ([], Some (length ip'), ip')
                          else parseIPv6Groups inp s'' (Some (length ip')) ip')
                       else parseIPv6Groups inp s' ellipsis ip')))"
  by pat_completeness auto
termination parseIPv6Groups
  by (relation "measure (\<lambda>(inp, s, ellipsis, ip). 16 - length ip)") auto

declare parseIPv6Groups.simps [simp del]

text \<open>After the loop: the whole string must be used, and an ellipsis stands for at least one group.\<close>

definition expandIPv6 :: "string \<Rightarrow> string \<times> nat option \<times> bytes \<Rightarrow> goerr + bytes" where
  "expandIPv6 inp r =
     (case r of (s, ellipsis, ip) \<Rightarrow>
        if s \<noteq> [] then Inl (parseAddrError inp ''trailing garbage after address'' s)
        else if length ip < 16 then
          (case ellipsis of
             None \<Rightarrow> Inl (parseAddrError inp ''address string too short'' '''')
           | Some e \<Rightarrow> Inr (take e ip @ replicate (16 - length ip) 0 @ drop e ip))
        else if ellipsis \<noteq> None then
          Inl (parseAddrError inp ''the :: must expand to at least one field of zeros'' '''')
        else Inr ip)"

definition parseIPv6 :: "string \<Rightarrow> goerr + Addr" where
  "parseIPv6 inp =
     (let (s, zone) = (case splitOnce ''%'' inp of None \<Rightarrow> (inp, None) | Some (a, z) \<Rightarrow> (a, Some z)) in
      if zone = Some '''' then Inl (parseAddrError inp ''zone must be a non-empty string'' '''')
      else
        let z = (case zone of None \<Rightarrow> '''' | Some z \<Rightarrow> z) in
        if s = ''::'' then Inr (Addr6 (replicate 16 0) z)
        else bindE (bindE (if HasPrefix s ''::'' then parseIPv6Groups inp (drop 2 s) (Some 0) []
                           else parseIPv6Groups inp s None []) (expandIPv6 inp))
               (\<lambda>ip. Inr (Addr6 ip z)))"

text \<open>\<open>ParseAddr\<close>: the first separator decides.\<close>

fun firstSeparator :: "string \<Rightarrow> char option" where
  "firstSeparator [] = None"
| "firstSeparator (c # s) = (if c \<in> {CHR ''.'', CHR '':'', CHR ''%''} then Some c else firstSeparator s)"

definition ParseAddr :: "string \<Rightarrow> goerr + Addr" where
  "ParseAddr s =
     (case firstSeparator s of
        Some c \<Rightarrow>
          if c = CHR ''.'' then bindE (parseIPv4Fields s s None 0 0 []) (\<lambda>four. Inr (Addr4 four))
          else if c = CHR '':'' then parseIPv6 s
          else Inl (parseAddrError s ''missing IPv6 address'' '''')
      | None \<Rightarrow> Inl (parseAddrError s ''unable to parse IP'' ''''))"

definition Is4In6 :: "bytes \<Rightarrow> bool" where
  "Is4In6 ip \<longleftrightarrow> take 12 ip = replicate 10 0 @ [0xff, 0xff]"

subsection \<open>The encoders\<close>

definition IPv4 :: "string \<Rightarrow> goerr + bytes" where
  "IPv4 s =
     (case ParseAddr s of
        Inl err \<Rightarrow> Inl (Errorf ''codec.IPv4: %w'' [AErr err])
      | Inr (Addr4 four) \<Rightarrow> Inr (stripLeadingZeros four)
      | Inr (Addr6 _ _) \<Rightarrow> Inl (Errorf ''codec.IPv4: %q is not IPv4'' [AStr s]))"

definition IPv6 :: "string \<Rightarrow> goerr + bytes" where
  "IPv6 s =
     (case ParseAddr s of
        Inl err \<Rightarrow> Inl (Errorf ''codec.IPv6: %w'' [AErr err])
      | Inr (Addr4 _) \<Rightarrow> Inl (Errorf ''codec.IPv6: %q is not IPv6'' [AStr s])
      | Inr (Addr6 sixteen zone) \<Rightarrow>
          if Is4In6 sixteen then Inl (Errorf ''codec.IPv6: %q is not IPv6'' [AStr s])
          else Inr (stripLeadingZeros sixteen))"

definition MustIPv4 :: "string \<Rightarrow> goerr + bytes" where
  "MustIPv4 s = must (IPv4 s)"

definition MustIPv6 :: "string \<Rightarrow> goerr + bytes" where
  "MustIPv6 s = must (IPv6 s)"

subsection \<open>Dotted decimal\<close>

lemma decimal_digit: "isDigit c \<Longrightarrow> decimal (ord_of c - 48) = [c]"
  by (subst decimal.simps) (auto simp: isDigit_def)

lemma decimal_snoc: "0 < v \<Longrightarrow> isDigit c \<Longrightarrow> decimal (v * 10 + (ord_of c - 48)) = decimal v @ [c]"
proof -
  assume v: "0 < v" and c: "isDigit c"
  define k where "k = ord_of c - 48"
  have k: "k < 10" "c = char_of (48 + k)" using c by (auto simp: k_def isDigit_def)
  have "\<not> v * 10 + k < 10" "(v * 10 + k) div 10 = v" "(v * 10 + k) mod 10 = k" using v k(1) by simp_all
  then show ?thesis using k(2) unfolding k_def [symmetric] by (subst decimal.simps) simp
qed

lemma decimal_zero: "decimal 0 = ''0''"
  using decimal_digit [of "CHR ''0''"] by (simp add: isDigit_def)

text \<open>Reading digits: \<open>t\<close> is what has been read of the current field.\<close>

definition field_read :: "string \<Rightarrow> nat \<Rightarrow> nat \<Rightarrow> bool" where
  "field_read t v digLen \<longleftrightarrow> digLen = length t \<and> v \<le> 255 \<and> (t = [] \<and> v = 0 \<or> t = decimal v)"

lemma field_read_digit:
  assumes "field_read t v d" and "isDigit c" and "\<not> (d = 1 \<and> v = 0)" and "v * 10 + (ord_of c - 48) \<le> 255"
  shows "field_read (t @ [c]) (v * 10 + (ord_of c - 48)) (Suc d)"
proof (cases "t = []")
  case True
  with assms show ?thesis by (auto simp: field_read_def decimal_digit decimal_not_Nil [symmetric])
next
  case False
  with assms have t: "t = decimal v" by (simp add: field_read_def)
  have "0 < v" using assms t decimal_zero by (cases v) (auto simp: field_read_def)
  with assms t show ?thesis by (simp add: field_read_def decimal_snoc)
qed

lemma not_digit_dot [simp]: "\<not> isDigit CHR ''.''"
  by (simp add: isDigit_def)

text \<open>Soundness: an accepted string is the current field followed by the remaining fields.\<close>

lemma parseIPv4Fields_sound:
  assumes "parseIPv4Fields inp s prev v d octets = Inr bs" and "field_read t v d"
    and "t = [] \<longleftrightarrow> prev = None \<or> prev = Some CHR ''.''" and "prev = Some CHR ''.'' \<longrightarrow> s \<noteq> []"
    and "prev = None \<longrightarrow> octets = []" and "length octets \<le> 3"
  shows "\<exists>ns. ns \<noteq> [] \<and> (\<forall>n\<in>set ns. n \<le> 255) \<and> length octets + length ns = 4 \<and>
    t @ s = Join (map decimal ns) ''.'' \<and> bs = octets @ map of_nat ns"
  using assms
proof (induction inp s prev v d octets arbitrary: t rule: parseIPv4Fields.induct)
  case (1 inp prev v d octets)
  then have "t = decimal v" by (auto simp: field_read_def split: if_splits)
  with 1 show ?case by (intro exI [of _ "[v]"]) (auto simp: field_read_def split: if_splits)
next
  case (2 inp c s prev v d octets)
  show ?case
  proof (cases "isDigit c")
    case True
    let ?v = "v * 10 + (ord_of c - 48)"
    have ok: "\<not> (d = 1 \<and> v = 0)" "?v \<le> 255" "parseIPv4Fields inp s (Some c) ?v (d + 1) octets = Inr bs"
      using "2.prems"(1) True by (auto simp: Let_def split: if_splits)
    have "c \<noteq> CHR ''.''" using True by auto
    with "2.IH"(1) [OF True ok(1) refl _ ok(3), of "t @ [c]"] field_read_digit [OF "2.prems"(2) True ok(1,2)] ok "2.prems"
    show ?thesis by auto
  next
    case False
    have ok: "c = CHR ''.''" "prev \<noteq> None" "s \<noteq> []" "prev \<noteq> Some CHR ''.''" "length octets \<noteq> 3"
        "parseIPv4Fields inp s (Some c) 0 0 (octets @ [of_nat v]) = Inr bs"
      using "2.prems"(1) False by (auto split: if_splits)
    have t: "t = decimal v" "v \<le> 255" using "2.prems"(2,3) ok by (auto simp: field_read_def)
    have "\<exists>ns. ns \<noteq> [] \<and> (\<forall>n\<in>set ns. n \<le> 255) \<and> length (octets @ [of_nat v :: byte]) + length ns = 4 \<and>
        [] @ s = Join (map decimal ns) ''.'' \<and> bs = (octets @ [of_nat v]) @ map of_nat ns"
      using "2.IH"(2) [OF False ok(1), of "[]"] ok "2.prems" by (auto simp: field_read_def)
    then obtain ns where ns: "ns \<noteq> []" "\<forall>n\<in>set ns. n \<le> 255" "length octets + length ns = 3"
        "s = Join (map decimal ns) ''.''" "bs = octets @ of_nat v # map of_nat ns" by auto
    then have "Join (map decimal (v # ns)) ''.'' = decimal v @ ''.'' @ s" by (cases ns) simp_all
    with ns t ok(1) show ?thesis by (intro exI [of _ "v # ns"]) simp
  qed
qed

text \<open>Completeness: the digits of a field are read up to its end, and the fields one after the other.\<close>

abbreviation digit :: "nat \<Rightarrow> char" where "digit k \<equiv> char_of (48 + k)"

lemma digit_simps: "k < 10 \<Longrightarrow> isDigit (digit k)" "k < 10 \<Longrightarrow> ord_of (digit k) = 48 + k"
  by (simp_all add: isDigit_def)

lemma parse_digit:
  assumes "k < 10" and "\<not> (d = 1 \<and> v = 0)" and "v * 10 + k \<le> 255"
  shows "parseIPv4Fields inp (digit k # s) prev v d octets = parseIPv4Fields inp s (Some (digit k)) (v * 10 + k) (Suc d) octets"
  using assms digit_simps [OF assms(1)] by (auto simp: Let_def)

lemma decimal_255:
  "n \<le> 255 \<Longrightarrow> decimal n =
     (if n < 10 then [digit n] else if n < 100 then [digit (n div 10), digit (n mod 10)]
      else [digit (n div 10 div 10), digit (n div 10 mod 10), digit (n mod 10)])"
proof -
  assume "n \<le> 255"
  then have "n div 10 div 10 < 10" "n div 10 < 10 \<longleftrightarrow> n < 100" by auto
  then show ?thesis
    by (simp add: decimal.simps [of n] decimal.simps [of "n div 10"] decimal.simps [of "n div 10 div 10"])
qed

lemma parse_field:
  assumes "n \<le> 255"
  obtains p d where "p \<noteq> CHR ''.''"
    "parseIPv4Fields inp (decimal n @ s) prev 0 0 octets = parseIPv4Fields inp s (Some p) n d octets"
proof -
  have dot: "digit k \<noteq> CHR ''.''" if "k < 10" for k using digit_simps(1) [OF that] by auto
  consider "n < 10" | "10 \<le> n" "n < 100" | "100 \<le> n" by linarith
  then show ?thesis
  proof cases
    case 1
    with that [OF dot [of n], of 1] show ?thesis
      by (simp add: decimal_255 [OF assms] parse_digit del: parseIPv4Fields.simps(2))
  next
    case 2
    then have "n div 10 * 10 + n mod 10 = n" "n div 10 < 10" by auto
    with 2 that [OF dot [of "n mod 10"], of "Suc (Suc 0)"] assms show ?thesis
      by (simp add: decimal_255 [OF assms] parse_digit del: parseIPv4Fields.simps(2))
  next
    case 3
    define a b c where "a = n div 10 div 10" and "b = n div 10 mod 10" and "c = n mod 10"
    have "(a * 10 + b) * 10 + c = n" "a < 10" "b < 10" "c < 10" "0 < a" using 3 assms by (auto simp: a_def b_def c_def)
    with 3 that [OF dot [of c], of "Suc (Suc (Suc 0))"] assms show ?thesis
      by (simp add: decimal_255 [OF assms] parse_digit a_def [symmetric] b_def [symmetric] c_def [symmetric]
          del: parseIPv4Fields.simps(2))
  qed
qed

lemma parseIPv4Fields_complete:
  assumes "ns \<noteq> []" and "\<forall>n\<in>set ns. n \<le> 255" and "length octets + length ns = 4"
  shows "parseIPv4Fields inp (Join (map decimal ns) ''.'') prev 0 0 octets = Inr (octets @ map of_nat ns)"
  using assms
proof (induction ns arbitrary: prev octets)
  case (Cons n ns)
  then have n: "n \<le> 255" by simp
  show ?case
  proof (cases ns)
    case Nil
    obtain p d where "parseIPv4Fields inp (decimal n @ []) prev 0 0 octets = parseIPv4Fields inp [] (Some p) n d octets"
      using parse_field [OF n] by metis
    with Nil Cons.prems show ?thesis by simp
  next
    case (Cons m ms)
    let ?r = "Join (map decimal ns) ''.''"
    obtain p d where p: "p \<noteq> CHR ''.''"
      "parseIPv4Fields inp (decimal n @ CHR ''.'' # ?r) prev 0 0 octets = parseIPv4Fields inp (CHR ''.'' # ?r) (Some p) n d octets"
      using parse_field [OF n] by metis
    have "?r \<noteq> []" using Cons by (cases ms) simp_all
    with p Cons.prems Cons have "parseIPv4Fields inp (decimal n @ CHR ''.'' # ?r) prev 0 0 octets =
        parseIPv4Fields inp ?r (Some CHR ''.'') 0 0 (octets @ [of_nat n])" by auto
    with Cons.IH [of "octets @ [of_nat n]" "Some CHR ''.''"] Cons.prems Cons show ?thesis by simp
  qed
qed simp

lemma map_unat_byte: "map (of_nat \<circ> unat) (a :: bytes) = a"
  by (induction a) simp_all

lemma dotted_separator: "firstSeparator (decimal n @ CHR ''.'' # s) = Some CHR ''.''"
proof -
  have "firstSeparator (t @ CHR ''.'' # s) = Some CHR ''.''" if "\<forall>c\<in>set t. isDigit c" for t
    using that by (induction t) (auto simp: isDigit_def)
  then show ?thesis using decimal_digits by blast
qed

text \<open>\<open>ParseAddr\<close> returns an IPv4 address exactly for the dotted decimal literals.\<close>

lemma ParseAddr_Addr4_iff:
  "ParseAddr s = Inr (Addr4 a) \<longleftrightarrow> length a = 4 \<and> s = Join (map (decimal \<circ> unat) a) ''.''"
proof
  assume "ParseAddr s = Inr (Addr4 a)"
  then have "parseIPv4Fields s s None 0 0 [] = Inr a"
    by (auto simp: ParseAddr_def parseIPv6_def bindE_Inr_iff Let_def split: option.splits if_splits prod.splits)
  from parseIPv4Fields_sound [OF this, of "[]"] obtain ns where
    ns: "\<forall>n\<in>set ns. n \<le> 255" "length ns = 4" "s = Join (map decimal ns) ''.''" "a = map of_nat ns"
    by (auto simp: field_read_def)
  then have "map unat a = ns" by (fastforce intro!: map_idI unat_of_nat_byte)
  with ns show "length a = 4 \<and> s = Join (map (decimal \<circ> unat) a) ''.''" by (auto simp flip: map_map)
next
  assume a: "length a = 4 \<and> s = Join (map (decimal \<circ> unat) a) ''.''"
  have "parseIPv4Fields s s None 0 0 [] = Inr ([] @ map of_nat (map unat a))"
    by (subst (2) conjunct2 [OF a], subst map_map [symmetric], intro parseIPv4Fields_complete)
      (use a unat_byte in \<open>auto simp: less_Suc_eq_le [symmetric]\<close>)
  moreover obtain w x y z where "a = [w, x, y, z]" using a by (auto simp: length_Suc_conv numeral_eq_Suc)
  ultimately show "ParseAddr s = Inr (Addr4 a)" using a dotted_separator by (simp add: ParseAddr_def map_unat_byte)
qed

subsection \<open>Groups of IPv6\<close>

text \<open>The value of a string of hexadecimal digits; a group has one to four of them.\<close>

definition hexNat :: "string \<Rightarrow> nat" where
  "hexNat t = foldl (\<lambda>a c. a * 16 + unat (the (hexVal c))) 0 t"

definition hex_group :: "string \<Rightarrow> bool" where
  "hex_group t \<longleftrightarrow> t \<noteq> [] \<and> length t \<le> 4 \<and> (\<forall>c\<in>set t. hexVal c \<noteq> None)"

definition group_bytes :: "string \<Rightarrow> bytes" where
  "group_bytes t = [of_nat (hexNat t div 256), of_nat (hexNat t mod 256)]"

abbreviation groups_bytes :: "string list \<Rightarrow> bytes" where
  "groups_bytes ts \<equiv> concat (map group_bytes ts)"

lemma hexVal_less: "hexVal c = Some h \<Longrightarrow> unat h < 16"
proof -
  have "unat (of_nat k :: byte) < 16" if "k < 16" for k :: nat
    using that by (simp add: unsigned_of_nat take_bit_nat_eq_self)
  then show "hexVal c = Some h \<Longrightarrow> ?thesis" by (auto simp: hexVal_def Let_def simp del: of_nat_diff split: if_splits)
qed

lemma hexVal_separator [simp]: "hexVal CHR '':'' = None" "hexVal CHR ''.'' = None" "hexVal CHR ''%'' = None"
  by (simp_all add: hexVal_def)

lemma scanHex_digits:
  assumes "\<forall>c\<in>set t. hexVal c \<noteq> None" and "off + length t \<le> 4" and "acc < 16 ^ off"
    and "rest = [] \<or> hexVal (hd rest) = None"
  shows "scanHex inp s0 (t @ rest) off acc =
    Inr (off + length t, foldl (\<lambda>a c. a * 16 + unat (the (hexVal c))) acc t, rest)"
  using assms
proof (induction t arbitrary: off acc)
  case Nil
  then show ?case by (cases rest) auto
next
  case (Cons c t)
  obtain h where h: "hexVal c = Some h" using Cons.prems(1) by auto
  have less: "acc * 16 + unat h < 16 ^ Suc off" using hexVal_less [OF h] Cons.prems(3) by simp
  have "(16 :: nat) ^ Suc off \<le> 16 ^ 4" by (rule power_increasing) (use Cons.prems(2) in simp_all)
  with less have "acc * 16 + unat h \<le> 65535" by simp
  with Cons.IH [of "Suc off" "acc * 16 + unat h"] Cons.prems less h show ?case by (simp add: Let_def)
qed

lemma scanHex_group:
  assumes "hex_group t" and "rest = [] \<or> hexVal (hd rest) = None"
  shows "scanHex inp s0 (t @ rest) 0 0 = Inr (length t, hexNat t, rest)"
  using scanHex_digits [of t 0 0 rest inp s0] assms by (simp add: hex_group_def hexNat_def)

text \<open>One round of the loop: the last group, a group before a colon, and a group before the ellipsis.\<close>

lemma groups_last:
  assumes "hex_group t" and "length ip < 16"
  shows "parseIPv6Groups inp t e ip = Inr ([], e, ip @ group_bytes t)"
  using scanHex_group [OF assms(1), of "[]" inp t] assms
  by (subst parseIPv6Groups.simps) (auto simp: hex_group_def group_bytes_def)

lemma groups_colon:
  assumes "hex_group t" and "length ip < 16" and "s \<noteq> []" and "hd s \<noteq> CHR '':''"
  shows "parseIPv6Groups inp (t @ CHR '':'' # s) e ip = parseIPv6Groups inp s e (ip @ group_bytes t)"
proof -
  obtain c s' where s: "s = c # s'" "c \<noteq> CHR '':''" using assms(3,4) by (cases s) auto
  show ?thesis
    using scanHex_group [OF assms(1), of "CHR '':'' # s" inp "t @ CHR '':'' # s"] assms s
    by (subst parseIPv6Groups.simps) (auto simp: hex_group_def group_bytes_def Let_def)
qed

lemma groups_ellipsis:
  assumes "hex_group t" and "length ip < 16"
  shows "parseIPv6Groups inp (t @ CHR '':'' # CHR '':'' # s) None ip =
    (if s = [] then Inr ([], Some (length ip + 2), ip @ group_bytes t)
     else parseIPv6Groups inp s (Some (length ip + 2)) (ip @ group_bytes t))"
  using scanHex_group [OF assms(1), of "CHR '':'' # CHR '':'' # s" inp "t @ CHR '':'' # CHR '':'' # s"] assms
  by (subst parseIPv6Groups.simps) (auto simp: hex_group_def group_bytes_def Let_def)

lemma hex_group_hd: "hex_group t \<Longrightarrow> hd (t @ s) \<noteq> CHR '':''" "hex_group t \<Longrightarrow> t @ s \<noteq> []"
  by (cases t; auto simp: hex_group_def)+

lemma Join_groups_hd: "ts \<noteq> [] \<Longrightarrow> \<forall>t\<in>set ts. hex_group t \<Longrightarrow> Join ts '':'' \<noteq> [] \<and> hd (Join ts '':'') \<noteq> CHR '':''"
  using hex_group_hd [of "hd ts" "[]"] hex_group_hd [of "hd ts"] by (cases "(ts, '':'')" rule: Join.cases) auto

lemma groups_length: "length (groups_bytes ts) = 2 * length ts"
  by (induction ts) (simp_all add: group_bytes_def)

lemma groups_list:
  assumes "ts \<noteq> []" and "\<forall>t\<in>set ts. hex_group t" and "length ip + 2 * length ts \<le> 16"
  shows "parseIPv6Groups inp (Join ts '':'') e ip = Inr ([], e, ip @ groups_bytes ts)"
  using assms
proof (induction ts arbitrary: ip)
  case (Cons t ts)
  show ?case
  proof (cases ts)
    case Nil
    with Cons.prems show ?thesis by (simp add: groups_last)
  next
    case (Cons u us)
    with Cons.prems Join_groups_hd [of ts] have "parseIPv6Groups inp (t @ CHR '':'' # Join ts '':'') e ip =
        parseIPv6Groups inp (Join ts '':'') e (ip @ group_bytes t)"
      by (intro groups_colon) auto
    with Cons Cons.IH [of "ip @ group_bytes t"] Cons.prems show ?thesis by (simp add: group_bytes_def)
  qed
qed simp

lemma groups_list_ellipsis:
  assumes "ts \<noteq> []" and "\<forall>t\<in>set ts. hex_group t" and "length ip + 2 * length ts \<le> 16"
  shows "parseIPv6Groups inp (Join ts '':'' @ ''::'' @ s) None ip =
    (if s = [] then Inr ([], Some (length ip + 2 * length ts), ip @ groups_bytes ts)
     else parseIPv6Groups inp s (Some (length ip + 2 * length ts)) (ip @ groups_bytes ts))"
  using assms
proof (induction ts arbitrary: ip)
  case (Cons t ts)
  show ?case
  proof (cases ts)
    case Nil
    with Cons.prems groups_ellipsis [of t ip inp s] show ?thesis by simp
  next
    case (Cons u us)
    let ?r = "Join ts '':'' @ ''::'' @ s"
    have "?r \<noteq> []" "hd ?r \<noteq> CHR '':''" using Join_groups_hd [of ts] Cons Cons.prems by (auto simp: hd_append)
    with Cons.prems have "parseIPv6Groups inp (t @ CHR '':'' # ?r) None ip = parseIPv6Groups inp ?r None (ip @ group_bytes t)"
      by (intro groups_colon) auto
    with Cons Cons.IH [of "ip @ group_bytes t"] Cons.prems show ?thesis by (simp add: group_bytes_def)
  qed
qed simp

text \<open>The text of an IPv6 literal, and its value: eight groups, or fewer with an ellipsis between them.\<close>

definition ipv6_text :: "string list \<Rightarrow> string list option \<Rightarrow> string" where
  "ipv6_text ts us = Join ts '':'' @ (case us of None \<Rightarrow> '''' | Some us \<Rightarrow> ''::'' @ Join us '':'')"

definition ipv6_value :: "string list \<Rightarrow> string list option \<Rightarrow> bytes" where
  "ipv6_value ts us = groups_bytes ts @
     (case us of None \<Rightarrow> [] | Some us \<Rightarrow> replicate (16 - 2 * (length ts + length us)) 0 @ groups_bytes us)"

definition ipv6_groups_ok :: "string list \<Rightarrow> string list option \<Rightarrow> bool" where
  "ipv6_groups_ok ts us \<longleftrightarrow> (\<forall>t\<in>set ts. hex_group t) \<and>
     (case us of None \<Rightarrow> length ts = 8 | Some us \<Rightarrow> (\<forall>t\<in>set us. hex_group t) \<and> length ts + length us \<le> 7)"

lemma parse_groups_full:
  assumes "ipv6_groups_ok ts None"
  shows "bindE (parseIPv6Groups inp (ipv6_text ts None) None []) (expandIPv6 inp) = Inr (ipv6_value ts None)"
proof -
  have "ts \<noteq> []" "\<forall>t\<in>set ts. hex_group t" "length ([] :: bytes) + 2 * length ts \<le> 16" "length ts = 8"
    using assms by (auto simp: ipv6_groups_ok_def)
  from groups_list [OF this(1-3)] this(4) show ?thesis
    by (simp add: ipv6_text_def ipv6_value_def expandIPv6_def groups_length)
qed

lemma parse_groups_ellipsis:
  assumes "ipv6_groups_ok ts (Some us)" and "ts \<noteq> []"
  shows "bindE (parseIPv6Groups inp (ipv6_text ts (Some us)) None []) (expandIPv6 inp) = Inr (ipv6_value ts (Some us))"
proof -
  have ok: "\<forall>t\<in>set ts. hex_group t" "\<forall>t\<in>set us. hex_group t" "length ts + length us \<le> 7"
    using assms by (simp_all add: ipv6_groups_ok_def)
  have e: "parseIPv6Groups inp (Join ts '':'' @ ''::'' @ Join us '':'') None [] =
      Inr ([], Some (2 * length ts), groups_bytes ts @ groups_bytes us)"
  proof (cases "us = []")
    case True
    with groups_list_ellipsis [OF assms(2) ok(1), of "[]" inp "[]"] ok show ?thesis by simp
  next
    case False
    with groups_list_ellipsis [OF assms(2) ok(1), of "[]" inp "Join us '':''"] Join_groups_hd [OF False ok(2)]
      groups_list [OF False ok(2), of "groups_bytes ts" inp "Some (2 * length ts)"] ok
    show ?thesis by (simp add: groups_length)
  qed
  then show ?thesis using ok by (simp add: ipv6_text_def ipv6_value_def expandIPv6_def groups_length algebra_simps)
qed

lemma parse_groups_leading:
  assumes "ipv6_groups_ok [] (Some us)" and "us \<noteq> []"
  shows "bindE (parseIPv6Groups inp (Join us '':'') (Some 0) []) (expandIPv6 inp) = Inr (ipv6_value [] (Some us))"
proof -
  have ok: "\<forall>t\<in>set us. hex_group t" "length us \<le> 7" using assms by (simp_all add: ipv6_groups_ok_def)
  from groups_list [OF assms(2) ok(1), of "[]" inp "Some 0"] ok show ?thesis
    by (simp add: ipv6_value_def expandIPv6_def groups_length)
qed

text \<open>No separator of another kind comes before the first colon, and no zone is in the text.\<close>

lemma group_clean: "hex_group t \<Longrightarrow> CHR ''%'' \<notin> set t \<and> CHR ''.'' \<notin> set t \<and> CHR '':'' \<notin> set t"
  by (force simp: hex_group_def)

lemma Join_clean: "c \<notin> set sep \<Longrightarrow> \<forall>t\<in>set ts. c \<notin> set t \<Longrightarrow> c \<notin> set (Join ts sep)"
  by (induction ts sep rule: Join.induct) auto

lemma text_no_zone: "ipv6_groups_ok ts us \<Longrightarrow> CHR ''%'' \<notin> set (ipv6_text ts us)"
  using group_clean Join_clean [of "CHR ''%''" "'':''"]
  by (auto simp: ipv6_text_def ipv6_groups_ok_def split: option.splits)

lemma firstSeparator_group: "hex_group t \<Longrightarrow> firstSeparator (t @ CHR '':'' # s) = Some CHR '':''"
proof -
  have "firstSeparator (t @ CHR '':'' # s) = Some CHR '':''" if "\<forall>c\<in>set t. hexVal c \<noteq> None"
    using that by (induction t) force+
  then show "hex_group t \<Longrightarrow> ?thesis" by (simp add: hex_group_def)
qed

lemma text_first_separator:
  assumes "ipv6_groups_ok ts us"
  shows "firstSeparator (ipv6_text ts us @ z) = Some CHR '':''"
proof (cases ts)
  case Nil
  with assms show ?thesis by (auto simp: ipv6_text_def ipv6_groups_ok_def split: option.splits)
next
  case (Cons t ts')
  then have t: "hex_group t" using assms by (simp add: ipv6_groups_ok_def)
  have "\<exists>s. ipv6_text ts us @ z = t @ CHR '':'' # s"
    using Cons assms by (cases ts') (auto simp: ipv6_text_def ipv6_groups_ok_def split: option.splits)
  with firstSeparator_group [OF t] show ?thesis by auto
qed

lemma text_leading:
  assumes "ipv6_groups_ok ts us" and "ts \<noteq> []"
  shows "ipv6_text ts us \<noteq> ''::'' \<and> \<not> HasPrefix (ipv6_text ts us) ''::''"
proof -
  have "Join ts '':'' \<noteq> []" "hd (Join ts '':'') \<noteq> CHR '':''" using Join_groups_hd [of ts] assms by (auto simp: ipv6_groups_ok_def)
  then show ?thesis by (cases "Join ts '':''") (auto simp: ipv6_text_def HasPrefix_def)
qed

lemma zeros_value: "ipv6_value [] (Some []) = replicate 16 0"
  by (simp add: ipv6_value_def)

text \<open>The zone part of a literal.\<close>

abbreviation zone_text :: "string \<Rightarrow> string" where
  "zone_text z \<equiv> (if z = [] then [] else CHR ''%'' # z)"

lemma ParseAddr_ipv6:
  assumes ok: "ipv6_groups_ok ts us"
  shows "ParseAddr (ipv6_text ts us @ zone_text z) = Inr (Addr6 (ipv6_value ts us) z)"
proof -
  let ?in = "ipv6_text ts us @ zone_text z"
  have clean: "CHR ''%'' \<notin> set (ipv6_text ts us)" by (rule text_no_zone [OF ok])
  have split: "(case splitOnce ''%'' ?in of None \<Rightarrow> (?in, None) | Some (a, z) \<Rightarrow> (a, Some z)) =
      (ipv6_text ts us, if z = [] then None else Some z)"
    using splitOnce_append [OF clean, of z] splitOnce_single_None [of "CHR ''%''" "ipv6_text ts us"] clean by simp
  have "ParseAddr ?in = parseIPv6 ?in" using text_first_separator [OF ok] by (simp add: ParseAddr_def)
  also have "\<dots> = (if ipv6_text ts us = ''::'' then Inr (Addr6 (replicate 16 0) z)
      else bindE (bindE (if HasPrefix (ipv6_text ts us) ''::'' then parseIPv6Groups ?in (drop 2 (ipv6_text ts us)) (Some 0) []
                         else parseIPv6Groups ?in (ipv6_text ts us) None []) (expandIPv6 ?in)) (\<lambda>ip. Inr (Addr6 ip z)))"
    unfolding parseIPv6_def split by (simp add: Let_def)
  also have "\<dots> = Inr (Addr6 (ipv6_value ts us) z)"
  proof (cases "ts = []")
    case False
    with text_leading [OF ok False] ok show ?thesis
      by (cases us) (simp_all add: parse_groups_full parse_groups_ellipsis)
  next
    case True
    then obtain vs where us: "us = Some vs" using ok by (cases us) (auto simp: ipv6_groups_ok_def)
    show ?thesis
    proof (cases "vs = []")
      case True
      with us \<open>ts = []\<close> zeros_value show ?thesis by (simp add: ipv6_text_def)
    next
      case False
      have "ipv6_text ts us = ''::'' @ Join vs '':''" using us \<open>ts = []\<close> by (simp add: ipv6_text_def)
      moreover have "Join vs '':'' \<noteq> []" using Join_groups_hd [OF False] ok us by (simp add: ipv6_groups_ok_def)
      ultimately show ?thesis using us \<open>ts = []\<close> ok parse_groups_leading [OF _ False] by (simp add: HasPrefix_def)
    qed
  qed
  finally show ?thesis .
qed

lemma ipv6_value_length: "ipv6_groups_ok ts us \<Longrightarrow> length (ipv6_value ts us) = 16"
  by (auto simp: ipv6_groups_ok_def ipv6_value_def groups_length split: option.splits)

subsection \<open>Embedded IPv4 addresses\<close>

text \<open>The text of an IPv6 literal that ends in an IPv4 address, and its value: six groups before the address, or
  fewer with an ellipsis.\<close>

abbreviation dotted :: "bytes \<Rightarrow> string" where
  "dotted a \<equiv> Join (map (decimal \<circ> unat) a) ''.''"

abbreviation colons :: "string list \<Rightarrow> string" where
  "colons ts \<equiv> concat (map (\<lambda>t. t @ '':'') ts)"

definition ipv6_prefix :: "string list \<Rightarrow> string list option \<Rightarrow> string" where
  "ipv6_prefix ts us = (case us of None \<Rightarrow> colons ts | Some us \<Rightarrow> Join ts '':'' @ ''::'' @ colons us)"

definition embedded_value :: "string list \<Rightarrow> string list option \<Rightarrow> bytes \<Rightarrow> bytes" where
  "embedded_value ts us a = groups_bytes ts @
     (case us of None \<Rightarrow> [] | Some us \<Rightarrow> replicate (12 - 2 * (length ts + length us)) 0 @ groups_bytes us) @ a"

definition embedded_ok :: "string list \<Rightarrow> string list option \<Rightarrow> bytes \<Rightarrow> bool" where
  "embedded_ok ts us a \<longleftrightarrow> length a = 4 \<and> (\<forall>t\<in>set ts. hex_group t) \<and>
     (case us of None \<Rightarrow> length ts = 6 | Some us \<Rightarrow> (\<forall>t\<in>set us. hex_group t) \<and> length ts + length us \<le> 5)"

lemma decimal_group: "n \<le> 255 \<Longrightarrow> hex_group (decimal n)"
proof -
  assume n: "n \<le> 255"
  have "hexVal c \<noteq> None" if "isDigit c" for c using that by (auto simp: hexVal_def isDigit_def Let_def)
  then have "\<forall>c\<in>set (decimal n). hexVal c \<noteq> None" using decimal_digits by blast
  with n show ?thesis by (simp add: hex_group_def decimal_255)
qed

text \<open>The text after the groups starts with a group.\<close>

lemma dotted_head: "length a = 4 \<Longrightarrow> \<exists>x b. a = x # b \<and> dotted a = decimal (unat x) @ CHR ''.'' # dotted b \<and> hex_group (decimal (unat x))"
proof -
  assume "length a = 4"
  then obtain x y b where "a = x # y # b" by (cases a; cases "tl a") auto
  moreover have "hex_group (decimal (unat x))" by (rule decimal_group) (use unat_byte [of x] in simp)
  ultimately show ?thesis by simp
qed

lemma tail_head:
  assumes "\<forall>t\<in>set ts. hex_group t" and "length a = 4"
  shows "colons ts @ dotted a \<noteq> [] \<and> hd (colons ts @ dotted a) \<noteq> CHR '':''"
proof -
  obtain t s where "hex_group t" "colons ts @ dotted a = t @ s"
    using assms dotted_head [OF assms(2)] by (cases ts) auto
  with hex_group_hd [of t s] show ?thesis by auto
qed

lemma groups_dotted:
  assumes "length a = 4" and "length ip \<le> 12" and "e = None \<Longrightarrow> length ip = 12"
  shows "parseIPv6Groups inp (dotted a) e ip = Inr ([], e, ip @ a)"
proof -
  obtain x :: byte and b where a: "dotted a = decimal (unat x) @ CHR ''.'' # dotted b" and x: "hex_group (decimal (unat x))"
    using dotted_head [OF assms(1)] by blast
  have "scanHex inp (dotted a) (dotted a) 0 0 = Inr (length (decimal (unat x)), hexNat (decimal (unat x)), CHR ''.'' # dotted b)"
    unfolding a using scanHex_group [OF x, of "CHR ''.'' # dotted b"] by simp
  moreover have "parseIPv4Fields inp (dotted a) None 0 0 [] = Inr a"
  proof -
    have "n \<le> 255" if "n \<in> set (map unat a)" for n using that unat_byte by (auto simp: less_Suc_eq_le [symmetric])
    moreover have "map unat a \<noteq> []" "length ([] :: bytes) + length (map unat a) = 4" using assms(1) by auto
    ultimately have "parseIPv4Fields inp (Join (map decimal (map unat a)) ''.'') None 0 0 [] = Inr ([] @ map of_nat (map unat a))"
      by (intro parseIPv4Fields_complete) blast+
    then show ?thesis by (simp add: map_unat_byte)
  qed
  ultimately show ?thesis using assms x by (subst parseIPv6Groups.simps) (auto simp: hex_group_def)
qed

lemma groups_embedded:
  assumes "\<forall>t\<in>set ts. hex_group t" and "length a = 4" and "length ip + 2 * length ts \<le> 12"
    and "e = None \<Longrightarrow> length ip + 2 * length ts = 12"
  shows "parseIPv6Groups inp (colons ts @ dotted a) e ip = Inr ([], e, ip @ groups_bytes ts @ a)"
  using assms
proof (induction ts arbitrary: ip)
  case Nil
  then show ?case using groups_dotted [of a ip e inp] by (simp add: o_def)
next
  case (Cons t ts)
  have "colons (t # ts) @ dotted a = t @ CHR '':'' # colons ts @ dotted a" by simp
  moreover have "parseIPv6Groups inp (t @ CHR '':'' # colons ts @ dotted a) e ip =
      parseIPv6Groups inp (colons ts @ dotted a) e (ip @ group_bytes t)"
    by (rule groups_colon) (use Cons.prems tail_head [of ts a] in auto)
  moreover have "\<dots> = Inr ([], e, (ip @ group_bytes t) @ groups_bytes ts @ a)"
    by (rule Cons.IH) (use Cons.prems in \<open>auto simp: group_bytes_def\<close>)
  ultimately show ?case by (simp add: o_def)
qed

lemma prefix_clean: "embedded_ok ts us a \<Longrightarrow> c \<in> set (ipv6_prefix ts us) \<Longrightarrow> c = CHR '':'' \<or> hexVal c \<noteq> None"
proof -
  assume ok: "embedded_ok ts us a" and c: "c \<in> set (ipv6_prefix ts us)"
  have "c \<in> set (Join ts '':'') \<Longrightarrow> c = CHR '':'' \<or> (\<exists>t\<in>set ts. c \<in> set t)" using Join_clean [of c "'':''" ts] by auto
  moreover have "c = CHR '':'' \<or> c \<in> set (Join ts '':'') \<or> (\<exists>t \<in> set ts \<union> set (case us of None \<Rightarrow> [] | Some vs \<Rightarrow> vs). c \<in> set t)"
    using c by (auto simp: ipv6_prefix_def split: option.splits if_splits)
  moreover have "\<forall>t \<in> set ts \<union> set (case us of None \<Rightarrow> [] | Some vs \<Rightarrow> vs). hex_group t"
    using ok by (auto simp: embedded_ok_def split: option.splits)
  ultimately show ?thesis by (auto simp: hex_group_def)
qed

lemma dotted_chars: "c \<in> set (dotted a) \<Longrightarrow> c = CHR ''.'' \<or> isDigit c"
  using Join_clean [of c "''.''" "map (decimal \<circ> unat) a"] decimal_digits by auto

lemma ParseAddr_embedded:
  assumes ok: "embedded_ok ts us a"
  shows "ParseAddr (ipv6_prefix ts us @ dotted a) = Inr (Addr6 (embedded_value ts us a) [])"
proof -
  let ?in = "ipv6_prefix ts us @ dotted a"
  have g: "\<forall>t\<in>set ts. hex_group t" "length a = 4" using ok by (simp_all add: embedded_ok_def)
  have "CHR ''%'' \<notin> set ?in" using prefix_clean [OF ok, of "CHR ''%''"] dotted_chars [of "CHR ''%''" a] by (auto simp: isDigit_def)
  then have zone: "splitOnce ''%'' ?in = None" by (simp add: splitOnce_single_None)
  have "firstSeparator ?in = Some CHR '':'' \<and> ?in \<noteq> ''::'' \<and>
    bindE (if HasPrefix ?in ''::'' then parseIPv6Groups ?in (drop 2 ?in) (Some 0) [] else parseIPv6Groups ?in ?in None []) (expandIPv6 ?in) =
      Inr (embedded_value ts us a)"
  proof (cases ts)
    case Nil
    then obtain vs where us: "us = Some vs" "\<forall>t\<in>set vs. hex_group t" "length vs \<le> 5" using ok by (auto simp: embedded_ok_def split: option.splits)
    then have "?in = ''::'' @ colons vs @ dotted a" using Nil by (simp add: ipv6_prefix_def)
    with Nil us g tail_head [of vs a] groups_embedded [of vs a "[]" "Some 0" ?in] show ?thesis
      by (simp add: embedded_value_def expandIPv6_def groups_length HasPrefix_def)
  next
    case (Cons t ts')
    have t: "hex_group t" and ne: "ts \<noteq> []" using g Cons by simp_all
    obtain s where s: "?in = t @ CHR '':'' # s"
      using Cons ok by (cases ts') (auto simp: ipv6_prefix_def embedded_ok_def split: option.splits)
    have sep: "firstSeparator ?in = Some CHR '':''" unfolding s by (rule firstSeparator_group [OF t])
    have hd: "?in \<noteq> ''::'' \<and> \<not> HasPrefix ?in ''::''" unfolding s using t
      by (cases t) (auto simp: HasPrefix_def hex_group_def)
    have "bindE (parseIPv6Groups ?in ?in None []) (expandIPv6 ?in) = Inr (embedded_value ts us a)"
    proof (cases us)
      case None
      with ok groups_embedded [OF g, of "[]" None ?in] show ?thesis
        by (simp add: embedded_ok_def ipv6_prefix_def embedded_value_def expandIPv6_def groups_length)
    next
      case (Some vs)
      then have vs: "\<forall>t\<in>set vs. hex_group t" "length ts + length vs \<le> 5" using ok by (simp_all add: embedded_ok_def)
      have "parseIPv6Groups ?in (Join ts '':'' @ ''::'' @ colons vs @ dotted a) None [] =
          parseIPv6Groups ?in (colons vs @ dotted a) (Some (2 * length ts)) (groups_bytes ts)"
        using groups_list_ellipsis [OF ne g(1), of "[]" ?in "colons vs @ dotted a"] vs tail_head [OF vs(1) g(2)] by (auto split: if_splits)
      also have "\<dots> = Inr ([], Some (2 * length ts), groups_bytes ts @ groups_bytes vs @ a)"
        by (rule groups_embedded) (use vs g in \<open>auto simp: groups_length\<close>)
      finally show ?thesis using Some vs g
        by (simp add: ipv6_prefix_def embedded_value_def expandIPv6_def groups_length algebra_simps)
    qed
    with sep hd show ?thesis by simp
  qed
  then show ?thesis using zone by (simp add: ParseAddr_def parseIPv6_def)
qed

subsection \<open>Properties\<close>

text \<open>\<open>IPv4\<close> accepts exactly the dotted decimal literals of four octets without leading zeros, and returns
  the canonical encoding of the address: its octets without the leading zero octets, with the value
  of the address as a big-endian number.\<close>

theorem IPv4_correct:
  "(\<forall>b. IPv4 s = Inr b \<longleftrightarrow> (\<exists>a. length a = 4 \<and> s = Join (map (decimal \<circ> unat) a) ''.'' \<and> b = stripLeadingZeros a)) \<and>
   (\<forall>w x y z. IPv4 (Join (map (decimal \<circ> unat) [w, x, y, z]) ''.'') = Inr (stripLeadingZeros [w, x, y, z]) \<and>
      canonical (stripLeadingZeros [w, x, y, z]) \<and> be_nat (stripLeadingZeros [w, x, y, z]) = ((unat w * 256 + unat x) * 256 + unat y) * 256 + unat z)"
proof -
  have iff: "IPv4 s = Inr b \<longleftrightarrow> (\<exists>a. length a = 4 \<and> s = Join (map (decimal \<circ> unat) a) ''.'' \<and> b = stripLeadingZeros a)" for s b
  proof -
    have "IPv4 s = Inr b \<longleftrightarrow> (\<exists>a. ParseAddr s = Inr (Addr4 a) \<and> b = stripLeadingZeros a)"
      by (auto simp: IPv4_def split: sum.splits Addr.splits)
    then show ?thesis unfolding ParseAddr_Addr4_iff by auto
  qed
  show ?thesis
  proof (intro conjI allI)
    fix w x y z :: byte
    show "IPv4 (Join (map (decimal \<circ> unat) [w, x, y, z]) ''.'') = Inr (stripLeadingZeros [w, x, y, z])"
      unfolding iff by (intro exI [of _ "[w, x, y, z]"]) simp
    show "canonical (stripLeadingZeros [w, x, y, z])" by (rule canonical_strip)
    show "be_nat (stripLeadingZeros [w, x, y, z]) = ((unat w * 256 + unat x) * 256 + unat y) * 256 + unat z"
      unfolding be_nat_strip by (simp add: be_nat_def)
  qed (rule iff)
qed

text \<open>\<open>IPv6\<close> reads every literal of eight groups, or of at most seven groups with an ellipsis, in either
  case and with or without leading zeros and zone, as the 128-bit address the groups and the zeros in
  place of the ellipsis denote; it refuses the IPv4-mapped addresses, and every IPv4 literal.\<close>

theorem IPv6_correct:
  assumes "ipv6_groups_ok ts us"
  shows "IPv6 (ipv6_text ts us @ (if z = [] then [] else CHR ''%'' # z)) =
      (if Is4In6 (ipv6_value ts us)
       then Inl (Errorf ''codec.IPv6: %q is not IPv6'' [AStr (ipv6_text ts us @ (if z = [] then [] else CHR ''%'' # z))])
       else Inr (stripLeadingZeros (ipv6_value ts us))) \<and>
    length (ipv6_value ts us) = 16 \<and>
    (\<forall>a :: bytes. length a = 4 \<longrightarrow> (\<exists>e. IPv6 (Join (map (decimal \<circ> unat) a) ''.'') = Inl e))"
proof (intro conjI allI impI)
  show "\<exists>e. IPv6 (Join (map (decimal \<circ> unat) a) ''.'') = Inl e" if "length a = 4" for a :: bytes
    using ParseAddr_Addr4_iff [of "Join (map (decimal \<circ> unat) a) ''.''" a] that by (simp add: IPv6_def)
qed (use ParseAddr_ipv6 [OF assms] ipv6_value_length [OF assms] in \<open>simp_all add: IPv6_def\<close>)

theorem IPv6_correct_witness:
  "IPv6 ''2001:Db8::1'' = Inr [0x20, 0x01, 0x0d, 0xb8, 0, 0, 0, 0, 0, 0, 0, 0, 0, 0, 0, 1]"
proof -
  have ok: "ipv6_groups_ok [''2001'', ''Db8''] (Some [''1''])" by (simp add: ipv6_groups_ok_def hex_group_def hexVal_def)
  have v: "ipv6_value [''2001'', ''Db8''] (Some [''1'']) = [0x20, 0x01, 0x0d, 0xb8, 0, 0, 0, 0, 0, 0, 0, 0, 0, 0, 0, 1]"
  proof -
    have "replicate 10 (0 :: byte) = [0, 0, 0, 0, 0, 0, 0, 0, 0, 0]" by (simp add: numeral_eq_Suc)
    then show ?thesis by (simp add: ipv6_value_def group_bytes_def hexNat_def hexVal_def)
  qed
  show ?thesis using IPv6_correct [OF ok, of "[]"] unfolding v
    by (simp add: ipv6_text_def Is4In6_def stripLeadingZeros_def)
qed

end
