(* ===== verification/Public_Codec.thy ===== *)
theory Public_Codec
  imports Net_IP
begin

text \<open>
  The public package codec (src/codec/codec.go): each function hands its arguments to the function of
  the internal package with the same name. The byte encoder of the public package therefore meets the same contract
  as the internal one.
\<close>

definition codec_EncodeUint :: "uint64 \<Rightarrow> int \<Rightarrow> goerr + bytes" where
  "codec_EncodeUint = EncodeUint"

definition codec_MustEncodeUint :: "uint64 \<Rightarrow> int \<Rightarrow> goerr + bytes" where
  "codec_MustEncodeUint = MustEncodeUint"

definition codec_EncodeBytes :: "bytes \<Rightarrow> int \<Rightarrow> goerr + bytes" where
  "codec_EncodeBytes = EncodeBytes"

definition codec_DecodeUint :: "bytes \<Rightarrow> goerr + uint64" where
  "codec_DecodeUint = DecodeUint"

definition codec_MAC :: "string \<Rightarrow> goerr + bytes" where
  "codec_MAC = MAC"

definition codec_MustMAC :: "string \<Rightarrow> goerr + bytes" where
  "codec_MustMAC = MustMAC"

definition codec_IPv4 :: "string \<Rightarrow> goerr + bytes" where
  "codec_IPv4 = IPv4"

definition codec_MustIPv4 :: "string \<Rightarrow> goerr + bytes" where
  "codec_MustIPv4 = MustIPv4"

definition codec_IPv6 :: "string \<Rightarrow> goerr + bytes" where
  "codec_IPv6 = IPv6"

definition codec_MustIPv6 :: "string \<Rightarrow> goerr + bytes" where
  "codec_MustIPv6 = MustIPv6"

definition codec_LPMMask :: "bytes \<Rightarrow> int \<Rightarrow> int \<Rightarrow> goerr + bytes" where
  "codec_LPMMask = LPMMask"

definition codec_TernaryMask :: "int \<Rightarrow> int \<Rightarrow> goerr + bytes" where
  "codec_TernaryMask = TernaryMask"

definition codec_TernaryApply :: "bytes \<Rightarrow> bytes \<Rightarrow> int \<Rightarrow> goerr + bytes" where
  "codec_TernaryApply = TernaryApply"

definition codec_ValidateRange :: "bytes \<Rightarrow> bytes \<Rightarrow> int \<Rightarrow> goerr + unit" where
  "codec_ValidateRange = ValidateRange"

definition codec_ParseHex :: "string \<Rightarrow> goerr + bytes" where
  "codec_ParseHex = ParseHex"

definition codec_FormatHex :: "bytes \<Rightarrow> string" where
  "codec_FormatHex = FormatHex"

interpretation public_bytes: canonical_codec codec_EncodeBytes be_nat canonical uwidth_ok ufits
  unfolding codec_EncodeBytes_def by (rule ubytes.canonical_codec_axioms)

end
