(* ===== verification/Cli_Value.thy ===== *)
theory Cli_Value
  imports Net_IP Register_Numeric
begin

text \<open>
  The value literals of the command line tool (src/cmd/p4ctl/cmd/value.go): unsigned decimal numbers,
  hexadecimal numbers, colon-separated bytes and IP addresses, checked against the bit width of the
  field or parameter they are for.

  \<open>literal\<close> says which number a text denotes; \<open>decodeValue\<close> is shown to read every literal as its number.
\<close>

subsection \<open>Big numbers\<close>

text \<open>\<^verbatim>\<open>big.Int.Bytes\<close>: the big-endian bytes, none for zero. \<^verbatim>\<open>big.Int.BitLen\<close> is \<open>bitLen\<close>, and
  \<^verbatim>\<open>SetString\<close> in base 10 on a non-empty string of digits is \<open>decimalVal\<close>.\<close>

fun natBytes :: "nat \<Rightarrow> bytes" where
  "natBytes n = (if n = 0 then [] else natBytes (n div 256) @ [of_nat (n mod 256)])"

declare natBytes.simps [simp del]

lemma be_nat_natBytes [simp]: "be_nat (natBytes n) = n"
proof (induction n rule: natBytes.induct)
  case (1 n)
  show ?case
  proof (cases "n = 0")
    case False
    have "n mod 256 < 256" by simp
    from unat_of_nat_byte [OF this] show ?thesis
      using 1 [OF False] False by (subst natBytes.simps) (simp add: be_nat_snoc)
  qed (simp add: natBytes.simps)
qed

subsection \<open>Decoding\<close>

definition decodeHex :: "string \<Rightarrow> goerr + bytes" where
  "decodeHex raw =
     (if raw = '''' then Inl (Errorf ''hex literal must not be empty'' [])
      else
        case (if Contains raw '':'' then find (\<lambda>part. length part \<noteq> 2) (Split CHR '':'' raw) else None) of
          Some part \<Rightarrow> Inl (Errorf ''hex byte %q must contain two digits'' [AStr part])
        | None \<Rightarrow>
            let cleaned = dropChars '':'' raw;
                cleaned = (if length cleaned mod 2 \<noteq> 0 then ''0'' @ cleaned else cleaned)
            in (case hexDecode cleaned of
                  None \<Rightarrow> Inl (NewErr ''encoding/hex'')
                | Some b \<Rightarrow> Inr b))"

definition valueErr :: "string \<Rightarrow> goerr \<Rightarrow> goerr" where
  "valueErr raw e = Errorf ''value %q: %w'' [AStr raw, AErr e]"

text \<open>The switch of \<open>decodeValue\<close>: the bytes of the literal.\<close>

definition literalBytes :: "string \<Rightarrow> int \<Rightarrow> goerr + bytes" where
  "literalBytes raw bitwidth =
     (if HasPrefix raw ''0x'' \<or> HasPrefix raw ''0X'' then mapErr (valueErr raw) (decodeHex (drop 2 raw))
      else if CHR '':'' \<in> set raw \<or> CHR ''.'' \<in> set raw then
        (case ParseAddr raw of
           Inr (Addr4 a) \<Rightarrow> Inr a
         | Inr (Addr6 a zone) \<Rightarrow>
             if zone \<noteq> '''' then Inl (Errorf ''value %q: IP zones cannot be encoded in a P4 field'' [AStr raw])
             else Inr a
         | Inl parseErr \<Rightarrow>
             if Contains raw '':'' then mapErr (valueErr raw) (decodeHex raw)
             else Inl (valueErr raw parseErr))
      else if \<not> list_all isDigit raw then
        Inl (Errorf ''value %q: expected an unsigned decimal, hex or IP literal'' [AStr raw])
      else if int (bitLen (decimalVal raw)) > bitwidth then
        Inl (Errorf ''value %q exceeds %d-bit range: %w'' [AStr raw, AInt bitwidth, AErr (Sentinel ErrInvalidBitWidth)])
      else Inr (natBytes (decimalVal raw)))"

definition decodeValue :: "string \<Rightarrow> int \<Rightarrow> goerr + bytes" where
  "decodeValue raw bitwidth =
     (if bitwidth \<le> 0 then Inl (Errorf ''value %q: bitwidth %d must be positive'' [AStr raw, AInt bitwidth])
      else if raw = '''' then Inl (Errorf ''value must not be empty'' [])
      else bindE (literalBytes raw bitwidth) (\<lambda>v. mapErr (valueErr raw) (EncodeBytes v bitwidth)))"

subsection \<open>Hexadecimal text\<close>

abbreviation hex_text :: "string \<Rightarrow> bool" where
  "hex_text t \<equiv> (\<forall>c\<in>set t. hexVal c \<noteq> None)"

lemma hexNat_append: "hexNat (s @ t) = hexNat s * 16 ^ length t + hexNat t"
proof (induction t rule: rev_induct)
  case (snoc c t)
  have "hexNat (u @ [c]) = hexNat u * 16 + unat (the (hexVal c))" for u by (simp add: hexNat_def)
  from this [of "s @ t"] this [of t] snoc show ?case by (simp add: algebra_simps)
qed (simp add: hexNat_def)

lemma nibbles_value:
  assumes "unat x < 16" and "unat y < 16"
  shows "unat (push_bit 4 x OR y :: byte) = unat x * 16 + unat y"
proof -
  have "x = of_nat (unat x)" "y = of_nat (unat y)" by simp_all
  define b :: byte where "b = of_nat (unat x * 16 + unat y)"
  have b: "unat b = unat x * 16 + unat y" unfolding b_def by (rule unat_of_nat_byte) (use assms in simp)
  have "unat b div 16 = unat x" "unat b mod 16 = unat y" using assms by (simp_all add: b)
  with nibbles_join [of b] have "push_bit 4 x OR y = b" by simp
  with b show ?thesis by simp
qed

lemma hexDecode_value:
  "hex_text t \<Longrightarrow> even (length t) \<Longrightarrow> \<exists>b. hexDecode t = Some b \<and> be_nat b = hexNat t \<and> 2 * length b = length t"
proof (induction t rule: hexDecode.induct)
  case (3 a b s)
  obtain x y where xy: "hexVal a = Some x" "hexVal b = Some y" using "3.prems"(1) by auto
  obtain bs where bs: "hexDecode s = Some bs" "be_nat bs = hexNat s" "2 * length bs = length s"
    using "3.IH" [OF _ xy] "3.prems" xy by auto
  have "(16 :: nat) ^ length s = 256 ^ length bs" by (simp add: bs(3) [symmetric] power_mult)
  moreover have "hexNat (a # b # s) = (unat x * 16 + unat y) * 16 ^ length s + hexNat s"
    using hexNat_append [of "[a, b]" s] xy by (simp add: hexNat_def)
  ultimately show ?case
    using bs xy nibbles_value [OF hexVal_less hexVal_less, OF xy] by (simp add: be_nat_Cons)
qed (auto simp: hexNat_def)

lemma hex_text_clean: "hex_text t \<Longrightarrow> CHR '':'' \<notin> set t"
  by force

lemma hexVal_0: "hexVal CHR ''0'' = Some 0"
  by (simp add: hexVal_def)

lemma decodeHex_digits:
  assumes "hex_text t" and "t \<noteq> []"
  shows "\<exists>b. decodeHex t = Inr b \<and> be_nat b = hexNat t"
proof -
  let ?c = "if length t mod 2 \<noteq> 0 then ''0'' @ t else t"
  have "hex_text ?c" "even (length ?c)" "hexNat ?c = hexNat t"
    using assms hexNat_append [of "''0''" t] by (auto simp: hexVal_0 hexNat_def)
  from hexDecode_value [OF this(1,2)] this(3) obtain b where "hexDecode ?c = Some b" "be_nat b = hexNat t" by auto
  moreover have "dropChars '':'' t = t" "\<not> Contains t '':''"
    using hex_text_clean [OF assms(1)] by (auto simp: Contains_single intro: dropChars_clean)
  ultimately show ?thesis using assms(2) by (simp add: decodeHex_def Let_def)
qed

text \<open>Colon-separated bytes.\<close>

definition hex_pairs :: "string list \<Rightarrow> bool" where
  "hex_pairs ps \<longleftrightarrow> length ps \<ge> 2 \<and> (\<forall>p\<in>set ps. length p = 2 \<and> hex_text p)"

lemma decodeHex_pairs:
  assumes "hex_pairs ps"
  shows "\<exists>b. decodeHex (Join ps '':'') = Inr b \<and> be_nat b = hexNat (concat ps)"
proof -
  have ps: "\<forall>p\<in>set ps. CHR '':'' \<notin> set p" "ps \<noteq> []" using assms hex_text_clean by (auto simp: hex_pairs_def)
  have clean: "dropChars '':'' (Join ps '':'') = concat ps" by (rule dropChars_Join) (use ps in auto)
  have "length (concat qs) = 2 * length qs" if "\<forall>p\<in>set qs. length p = 2" for qs :: "string list"
    using that by (induction qs) auto
  then have "even (length (concat ps))" using assms by (simp add: hex_pairs_def)
  moreover have "hex_text (concat ps)" using assms by (auto simp: hex_pairs_def)
  ultimately obtain b where b: "hexDecode (concat ps) = Some b" "be_nat b = hexNat (concat ps)"
    using hexDecode_value by blast
  have "find (\<lambda>part. length part \<noteq> 2) (Split CHR '':'' (Join ps '':'')) = None"
    unfolding Split_Join [OF ps(2,1)] using assms by (auto simp: find_None_iff hex_pairs_def)
  moreover have "Join ps '':'' \<noteq> []" using assms by (cases "(ps, '':'')" rule: Join.cases) (auto simp: hex_pairs_def)
  moreover have "length (concat ps) mod 2 = 0" using \<open>even (length (concat ps))\<close> by presburger
  ultimately show ?thesis using b clean by (simp add: decodeHex_def Let_def)
qed

subsection \<open>Colon-separated bytes are not addresses\<close>

text \<open>Two digits are a group of an IPv6 address, so eight bytes read as one; any other number of them does
  not.\<close>

lemma pairs_groups: "hex_pairs ps \<Longrightarrow> \<forall>p\<in>set ps. hex_group p"
  by (auto simp: hex_pairs_def hex_group_def)

lemma groups_overflow:
  assumes "\<forall>t\<in>set ts. hex_group t" and "even (length ip)" and "length ip \<le> 16" and "16 < length ip + 2 * length ts"
  shows "\<exists>s ip'. parseIPv6Groups inp (Join ts '':'') None ip = Inr (s, None, ip') \<and> s \<noteq> []"
  using assms
proof (induction ts arbitrary: ip)
  case (Cons t ts)
  have ne: "Join (t # ts) '':'' \<noteq> []" using Join_groups_hd [of "t # ts"] Cons.prems(1) by simp
  show ?case
  proof (cases "length ip = 16")
    case True
    then show ?thesis using ne by (subst parseIPv6Groups.simps) simp
  next
    case False
    then have ip: "length ip \<le> 14" using Cons.prems(2,3) by presburger
    then have ts: "ts \<noteq> []" using Cons.prems(4) by (cases ts) auto
    then have "Join (t # ts) '':'' = t @ CHR '':'' # Join ts '':''" by (cases ts) simp_all
    moreover have "parseIPv6Groups inp (t @ CHR '':'' # Join ts '':'') None ip = parseIPv6Groups inp (Join ts '':'') None (ip @ group_bytes t)"
      by (rule groups_colon) (use Cons.prems ip Join_groups_hd [OF ts] in auto)
    ultimately show ?thesis using Cons.IH [of "ip @ group_bytes t"] Cons.prems ip by (simp add: group_bytes_def)
  qed
qed simp

lemma pairs_text:
  assumes "hex_pairs ps"
  shows "firstSeparator (Join ps '':'') = Some CHR '':'' \<and> CHR ''%'' \<notin> set (Join ps '':'') \<and>
    Join ps '':'' \<noteq> ''::'' \<and> \<not> HasPrefix (Join ps '':'') ''::''"
proof -
  obtain p q qs where ps: "ps = p # q # qs" using assms by (cases ps; cases "tl ps") (auto simp: hex_pairs_def)
  have g: "\<forall>t\<in>set ps. hex_group t" by (rule pairs_groups [OF assms])
  have "Join ps '':'' = p @ CHR '':'' # Join (q # qs) '':''" using ps by simp
  moreover have "hex_group p" using g ps by simp
  ultimately have "firstSeparator (Join ps '':'') = Some CHR '':''" by (simp add: firstSeparator_group)
  moreover have "CHR ''%'' \<notin> set (Join ps '':'')" by (rule Join_clean) (use g group_clean in auto)
  moreover have "Join ps '':'' \<noteq> [] \<and> hd (Join ps '':'') \<noteq> CHR '':''" by (rule Join_groups_hd) (use g ps in auto)
  then have "Join ps '':'' \<noteq> ''::'' \<and> \<not> HasPrefix (Join ps '':'') ''::''"
    by (cases "Join ps '':''") (auto simp: HasPrefix_def)
  ultimately show ?thesis by blast
qed

lemma ParseAddr_pairs:
  assumes "hex_pairs ps" and "length ps \<noteq> 8"
  shows "\<exists>e. ParseAddr (Join ps '':'') = Inl e"
proof -
  let ?s = "Join ps '':''"
  have g: "\<forall>t\<in>set ps. hex_group t" "ps \<noteq> []" using pairs_groups [OF assms(1)] assms(1) by (auto simp: hex_pairs_def)
  note t = pairs_text [OF assms(1)]
  have "\<exists>e. bindE (parseIPv6Groups ?s ?s None []) (expandIPv6 ?s) = Inl e"
  proof (cases "length ps < 8")
    case True
    then have "length ([] :: bytes) + 2 * length ps \<le> 16" by simp
    from groups_list [OF g(2,1) this, of ?s None] True show ?thesis by (simp add: expandIPv6_def groups_length)
  next
    case False
    with assms(2) groups_overflow [OF g(1), of "[]" ?s] show ?thesis by (auto simp: expandIPv6_def)
  qed
  moreover have "splitOnce ''%'' ?s = None" using t by (simp add: splitOnce_single_None)
  ultimately show ?thesis using t by (auto simp: ParseAddr_def parseIPv6_def Let_def)
qed

subsection \<open>Literals\<close>

text \<open>The numbers that texts denote.\<close>

inductive literal :: "string \<Rightarrow> nat \<Rightarrow> bool" where
  lit_decimal: "t \<noteq> [] \<Longrightarrow> list_all isDigit t \<Longrightarrow> literal t (decimalVal t)"
| lit_hex: "p \<in> {''0x'', ''0X''} \<Longrightarrow> t \<noteq> [] \<Longrightarrow> hex_text t \<Longrightarrow> literal (p @ t) (hexNat t)"
| lit_hex_pairs: "p \<in> {''0x'', ''0X''} \<Longrightarrow> hex_pairs ps \<Longrightarrow> literal (p @ Join ps '':'') (hexNat (concat ps))"
| lit_pairs: "hex_pairs ps \<Longrightarrow> length ps \<noteq> 8 \<Longrightarrow> literal (Join ps '':'') (hexNat (concat ps))"
| lit_ipv4: "length a = 4 \<Longrightarrow> literal (Join (map (decimal \<circ> unat) a) ''.'') (be_nat a)"
| lit_ipv6: "ipv6_groups_ok ts us \<Longrightarrow> literal (ipv6_text ts us) (be_nat (ipv6_value ts us))"
| lit_embedded: "embedded_ok ts us a \<Longrightarrow> literal (ipv6_prefix ts us @ Join (map (decimal \<circ> unat) a) ''.'') (be_nat (embedded_value ts us a))"

text \<open>Only the prefixed forms contain the letter of the prefix.\<close>

lemma no_prefix: "CHR ''x'' \<notin> set raw \<Longrightarrow> CHR ''X'' \<notin> set raw \<Longrightarrow> \<not> HasPrefix raw ''0x'' \<and> \<not> HasPrefix raw ''0X''"
  by (metis HasPrefix_def in_set_takeD list.set_intros(1) list.set_intros(2))

lemma hex_text_no_x: "hex_text t \<Longrightarrow> CHR ''x'' \<notin> set t \<and> CHR ''X'' \<notin> set t"
  by (force simp: hexVal_def)

lemma digits_no_x: "list_all isDigit t \<Longrightarrow> CHR ''x'' \<notin> set t \<and> CHR ''X'' \<notin> set t \<and> CHR '':'' \<notin> set t \<and> CHR ''.'' \<notin> set t"
  by (force simp: isDigit_def list_all_iff)

lemma group_no_x: "hex_group t \<Longrightarrow> CHR ''x'' \<notin> set t \<and> CHR ''X'' \<notin> set t"
  using hex_text_no_x by (simp add: hex_group_def)

lemma ipv6_no_x: "ipv6_groups_ok ts us \<Longrightarrow> CHR ''x'' \<notin> set (ipv6_text ts us) \<and> CHR ''X'' \<notin> set (ipv6_text ts us)"
  using group_no_x Join_clean [of "CHR ''x''" "'':''"] Join_clean [of "CHR ''X''" "'':''"]
  by (auto simp: ipv6_text_def ipv6_groups_ok_def split: option.splits)

lemma pairs_no_x: "hex_pairs ps \<Longrightarrow> CHR ''x'' \<notin> set (Join ps '':'') \<and> CHR ''X'' \<notin> set (Join ps '':'')"
  using pairs_groups group_no_x Join_clean [of "CHR ''x''" "'':''" ps] Join_clean [of "CHR ''X''" "'':''" ps] by auto

lemma ipv4_no_x: "CHR ''x'' \<notin> set (Join (map (decimal \<circ> unat) a) ''.'') \<and> CHR ''X'' \<notin> set (Join (map (decimal \<circ> unat) a) ''.'')"
proof -
  have "c \<notin> set (decimal n)" if "\<not> isDigit c" for c n using that decimal_digits by blast
  then show ?thesis
    using Join_clean [of "CHR ''x''" "''.''" "map (decimal \<circ> unat) a"] Join_clean [of "CHR ''X''" "''.''" "map (decimal \<circ> unat) a"]
    by (auto simp: isDigit_def)
qed

lemma embedded_no_x:
  assumes "embedded_ok ts us a"
  shows "CHR ''x'' \<notin> set (ipv6_prefix ts us @ dotted a) \<and> CHR ''X'' \<notin> set (ipv6_prefix ts us @ dotted a)"
proof -
  have "hexVal CHR ''x'' = None" "hexVal CHR ''X'' = None" by (simp_all add: hexVal_def)
  with prefix_clean [OF assms, of "CHR ''x''"] prefix_clean [OF assms, of "CHR ''X''"] ipv4_no_x [of a] show ?thesis by auto
qed

lemma separator_in: "firstSeparator s = Some c \<Longrightarrow> c \<in> set s"
  by (induction s) (auto split: if_splits)

text \<open>What the switch does with a literal: its bytes, or for a decimal number that is too big the error of the
  width.\<close>

abbreviation reads_as :: "string \<Rightarrow> int \<Rightarrow> nat \<Rightarrow> bool" where
  "reads_as raw w n \<equiv> (\<exists>v. literalBytes raw w = Inr v \<and> be_nat v = n)"

lemma literal_prefixed:
  assumes "p \<in> {''0x'', ''0X''}" and "decodeHex t = Inr b"
  shows "literalBytes (p @ t) w = Inr b"
  using assms by (auto simp: literalBytes_def HasPrefix_def)

lemma literal_address:
  assumes "ParseAddr raw = Inr a" and "a = Addr4 v \<or> a = Addr6 v []" and "CHR ''x'' \<notin> set raw" and "CHR ''X'' \<notin> set raw"
  shows "literalBytes raw w = Inr v"
proof -
  have "firstSeparator raw = Some CHR '':'' \<or> firstSeparator raw = Some CHR ''.''"
    using assms(1) by (auto simp: ParseAddr_def split: option.splits if_splits)
  then have "CHR '':'' \<in> set raw \<or> CHR ''.'' \<in> set raw" by (auto dest: separator_in)
  with assms no_prefix show ?thesis by (auto simp: literalBytes_def)
qed

lemma literal_reads:
  assumes "literal raw n"
  shows "raw \<noteq> [] \<and> (reads_as raw w n \<or>
    (0 < w \<longrightarrow> 2 ^ nat w \<le> n) \<and> (\<exists>e. literalBytes raw w = Inl e \<and> errors_Is fe e ErrInvalidBitWidth))"
  using assms
proof cases
  case (lit_decimal)
  have x: "CHR '':'' \<notin> set raw" "CHR ''.'' \<notin> set raw" "\<not> HasPrefix raw ''0x''" "\<not> HasPrefix raw ''0X''"
    using digits_no_x [OF lit_decimal(3)] no_prefix by auto
  show ?thesis
  proof (cases "int (bitLen (decimalVal raw)) > w")
    case True
    have "0 < w \<longrightarrow> 2 ^ nat w \<le> n"
      using True bitLen_le_iff [of n "nat w"] lit_decimal(1) by (auto simp: not_le [symmetric])
    then show ?thesis using True x lit_decimal by (simp add: literalBytes_def errors_Is_Errorf_iff)
  next
    case False
    then show ?thesis using x lit_decimal by (simp add: literalBytes_def)
  qed
next
  case (lit_hex p t)
  with decodeHex_digits [of t] literal_prefixed [of p t] show ?thesis by auto
next
  case (lit_hex_pairs p ps)
  with decodeHex_pairs [of ps] literal_prefixed [of p "Join ps '':''"] show ?thesis by auto
next
  case (lit_pairs ps)
  have c: "CHR '':'' \<in> set raw" using pairs_text [OF lit_pairs(3)] lit_pairs(1) by (auto dest: separator_in)
  obtain e where "ParseAddr raw = Inl e" using ParseAddr_pairs [OF lit_pairs(3,4)] lit_pairs(1) by blast
  moreover obtain b where "decodeHex raw = Inr b" "be_nat b = n" using decodeHex_pairs [OF lit_pairs(3)] lit_pairs(1,2) by auto
  moreover have "\<not> HasPrefix raw ''0x''" "\<not> HasPrefix raw ''0X''" using no_prefix pairs_no_x [OF lit_pairs(3)] lit_pairs(1) by auto
  ultimately show ?thesis using c by (auto simp: literalBytes_def Contains_single)
next
  case (lit_ipv4 a)
  have p: "ParseAddr raw = Inr (Addr4 a)" using ParseAddr_Addr4_iff lit_ipv4 by blast
  have "literalBytes raw w = Inr a" by (rule literal_address [OF p]) (use ipv4_no_x [of a] lit_ipv4(1) in simp_all)
  moreover have "raw \<noteq> []" using p by (auto simp: ParseAddr_def)
  ultimately show ?thesis using lit_ipv4(2) by auto
next
  case (lit_ipv6 ts us)
  have p: "ParseAddr raw = Inr (Addr6 (ipv6_value ts us) [])" using ParseAddr_ipv6 [OF lit_ipv6(3), of "[]"] lit_ipv6(1) by simp
  have "literalBytes raw w = Inr (ipv6_value ts us)"
    by (rule literal_address [OF p]) (use ipv6_no_x [OF lit_ipv6(3)] lit_ipv6(1) in simp_all)
  moreover have "raw \<noteq> []" using p by (auto simp: ParseAddr_def)
  ultimately show ?thesis using lit_ipv6(2) by auto
next
  case (lit_embedded ts us a)
  have p: "ParseAddr raw = Inr (Addr6 (embedded_value ts us a) [])" using ParseAddr_embedded [OF lit_embedded(3)] lit_embedded(1) by simp
  have "literalBytes raw w = Inr (embedded_value ts us a)"
    by (rule literal_address [OF p]) (use embedded_no_x [OF lit_embedded(3)] lit_embedded(1) in simp_all)
  moreover have "raw \<noteq> []" using p by (auto simp: ParseAddr_def)
  ultimately show ?thesis using lit_embedded(2) by auto
qed

lemma decodeValue_lemma:
  assumes "0 < w" and "w \<le> max_width"
  shows "(\<forall>n. literal raw n \<longrightarrow>
      (n < 2 ^ nat w \<longrightarrow> (\<exists>b. decodeValue raw w = Inr b \<and> canonical b \<and> be_nat b = n)) \<and>
      (2 ^ nat w \<le> n \<longrightarrow> (\<exists>e. decodeValue raw w = Inl e \<and> errors_Is fe e ErrInvalidBitWidth))) \<and>
    (\<forall>b. decodeValue raw w = Inr b \<longrightarrow> canonical b \<and> be_nat b < 2 ^ nat w)"
proof (intro conjI allI impI)
  fix n assume lit: "literal raw n"
  have raw: "raw \<noteq> []" using literal_reads [OF lit] by blast
  show "\<exists>b. decodeValue raw w = Inr b \<and> canonical b \<and> be_nat b = n" if "n < 2 ^ nat w"
  proof -
    obtain v where v: "literalBytes raw w = Inr v" "be_nat v = n"
      using literal_reads [OF lit, of w] assms(1) \<open>n < 2 ^ nat w\<close> by (auto simp: not_le [symmetric])
    then obtain b where "EncodeBytes v w = Inr b" using ubytes.encode_ok [of w v] assms \<open>n < 2 ^ nat w\<close> by (auto simp: isOk_iff)
    with v raw assms show ?thesis by (auto simp: decodeValue_def intro: EncodeBytes_canonical EncodeBytes_val)
  qed
  show "\<exists>e. decodeValue raw w = Inl e \<and> errors_Is fe e ErrInvalidBitWidth" if big: "2 ^ nat w \<le> n"
    using literal_reads [OF lit, of w fe]
  proof (elim conjE disjE exE)
    fix v assume v: "literalBytes raw w = Inr v" "be_nat v = n"
    then obtain e where e: "EncodeBytes v w = Inl e" using ubytes.encode_error_iff [of w v] assms big by auto
    then have "errors_Is fe e ErrInvalidBitWidth" by (rule EncodeBytes_error [OF assms(1)])
    with v e raw assms show ?thesis by (auto simp: decodeValue_def valueErr_def errors_Is_Errorf_iff)
  qed (use raw assms in \<open>simp add: decodeValue_def\<close>)
next
  fix b assume "decodeValue raw w = Inr b"
  then obtain v where "EncodeBytes v w = Inr b" using assms by (auto simp: decodeValue_def bindE_Inr_iff mapErr_Inr_iff split: if_splits)
  then show "canonical b" "be_nat b < 2 ^ nat w"
    using ubytes.encode_Inr_iff [of w v b] assms by simp_all
qed

lemma decodeValue_number:
  assumes "decodeValue raw w = Inr b" and "literal raw n" and "w \<le> max_width"
  shows "0 < w \<and> be_nat b = n"
proof -
  have w: "0 < w" using assms(1) by (auto simp: decodeValue_def split: if_splits)
  then show ?thesis using decodeValue_lemma [OF w assms(3), of raw] assms(1,2) by (cases "n < 2 ^ nat w") (fastforce simp: not_less)+
qed

subsection \<open>Properties\<close>

text \<open>C21. Value literals of the command line: every decimal number, hexadecimal number (with a prefix, plain or
  as colon-separated bytes), list of colon-separated bytes other than eight, IPv4 address and IPv6 address (eight groups, or fewer with an
  ellipsis, the last two groups possibly written as an IPv4 address, \<^verbatim>\<open>::ffff:192.0.2.1\<close>) is read as the number it denotes and encoded canonically when it fits the width, and is refused with
  \<open>ErrInvalidBitWidth\<close> when it does not. Whatever else the text is, an accepted value is canonical and fits.\<close>

theorem decodeValue_correct:
  assumes "0 < w" and "w \<le> max_width"
  shows "(\<forall>n. literal raw n \<longrightarrow>
      (n < 2 ^ nat w \<longrightarrow> (\<exists>b. decodeValue raw w = Inr b \<and> canonical b \<and> be_nat b = n)) \<and>
      (2 ^ nat w \<le> n \<longrightarrow> (\<exists>e. decodeValue raw w = Inl e \<and> errors_Is fe e ErrInvalidBitWidth))) \<and>
    (\<forall>b. decodeValue raw w = Inr b \<longrightarrow> canonical b \<and> be_nat b < 2 ^ nat w)"
  using assms by (rule decodeValue_lemma)

theorem decodeValue_correct_witness:
  "decodeValue ''10.0.0.254'' 32 = Inr [10, 0, 0, 254] \<and> (\<exists>e. decodeValue ''0x1ff'' 8 = Inl e) \<and>
   decodeValue ''::ffff:192.0.2.1'' 128 = Inr [0xff, 0xff, 192, 0, 2, 1]"
proof -
  have mapped: "literal ''::ffff:192.0.2.1'' (be_nat [0xff, 0xff, 192, 0, 2, 1])"
  proof -
    have "decimal 192 = ''192''" "decimal 0 = ''0''" "decimal 2 = ''2''" "decimal 1 = ''1''" by code_simp+
    moreover have "embedded_ok [] (Some [''ffff'']) [192, 0, 2, 1]" by (simp add: embedded_ok_def hex_group_def hexVal_def)
    moreover have "embedded_value [] (Some [''ffff'']) [192, 0, 2, 1] = replicate 10 0 @ [0xff, 0xff, 192, 0, 2, 1]"
      by (simp add: embedded_value_def group_bytes_def hexNat_def hexVal_def)
    ultimately show ?thesis using lit_embedded [of "[]" "Some [''ffff'']" "[192, 0, 2, 1]"]
      by (simp add: ipv6_prefix_def)
  qed
  obtain c where c: "decodeValue ''::ffff:192.0.2.1'' 128 = Inr c" "canonical c" "be_nat c = be_nat [0xff, 0xff, 192, 0, 2, 1]"
  proof -
    have "be_nat [0xff, 0xff, 192, 0, 2, 1] < 2 ^ nat 128" by (simp add: be_nat_def)
    with decodeValue_correct [of 128 "''::ffff:192.0.2.1''" "\<lambda>e. (undefined, False)"] mapped that show thesis by auto
  qed
  have "canonical [0xff, 0xff, 192, 0, 2, 1]" by (simp add: canonical_def)
  with c have mapped_value: "decodeValue ''::ffff:192.0.2.1'' 128 = Inr [0xff, 0xff, 192, 0, 2, 1]" by (auto dest: canonical_inj)
  have lit: "literal ''10.0.0.254'' (be_nat [10, 0, 0, 254])"
  proof -
    have "decimal 10 = ''10''" "decimal 0 = ''0''" "decimal 254 = ''254''" by code_simp+
    then show ?thesis using lit_ipv4 [of "[10, 0, 0, 254]"] by simp
  qed
  obtain b where b: "decodeValue ''10.0.0.254'' 32 = Inr b" "canonical b" "be_nat b = be_nat [10, 0, 0, 254]"
  proof -
    have "be_nat [10, 0, 0, 254] < 2 ^ nat 32" by (simp add: be_nat_def)
    with decodeValue_correct [of 32 "''10.0.0.254''" "\<lambda>e. (undefined, False)"] lit that show thesis by auto
  qed
  have "canonical [10, 0, 0, 254]" by (simp add: canonical_def)
  then have "b = [10, 0, 0, 254]" using b by (auto intro: canonical_inj)
  moreover have "literal (''0x'' @ ''1ff'') (hexNat ''1ff'')" by (rule lit_hex) (simp_all add: hexVal_def)
  then have "\<exists>e. decodeValue ''0x1ff'' 8 = Inl e"
    using decodeValue_correct [of 8 "''0x1ff''"] by (fastforce simp: hexNat_def hexVal_def)
  ultimately show ?thesis using b(1) mapped_value by simp
qed

end
