(* ===== verification/Cli_Table.thy ===== *)
theory Cli_Table
  imports Cli_Value Client_RPC
begin

text \<open>
  The table commands of the command line tool (src/cmd/p4ctl/cmd/table.go): the match and parameter
  specifications of the flags, the entry they build, and the write that a command makes.

  What a command uses of its surroundings is the record \<open>cli_env\<close>: reading a file, the protobuf
  parser, dialling and closing a client, and the target's RPCs. \<open>dialClient\<close> itself is in
  \<open>Cli_Config\<close>.
\<close>

subsection \<open>Integers on the command line\<close>

text \<open>\<^verbatim>\<open>strconv.Atoi\<close>: an optional sign and decimal digits, within 64 bits.\<close>

definition Atoi :: "string \<Rightarrow> int option" where
  "Atoi s =
     (let (neg, digits) = (case s of
          c # r \<Rightarrow> if c = CHR ''-'' then (True, r) else if c = CHR ''+'' then (False, r) else (False, s)
        | [] \<Rightarrow> (False, []));
          n = (if neg then - int (decimalVal digits) else int (decimalVal digits))
      in if digits = [] \<or> \<not> list_all isDigit digits \<or> n < - (2 ^ 63) \<or> n \<ge> 2 ^ 63 then None else Some n)"

lemma decimal_head: "\<exists>c r. decimal n = c # r \<and> isDigit c"
  using decimal_not_Nil [of n] decimal_digits [of "hd (decimal n)" n] by (cases "decimal n") auto

lemma Atoi_decimal: "n < 2 ^ 63 \<Longrightarrow> Atoi (decimal n) = Some (int n)"
proof -
  obtain c r where c: "decimal n = c # r" "isDigit c" using decimal_head by blast
  then have "c \<noteq> CHR ''-''" "c \<noteq> CHR ''+''" by (auto simp: isDigit_def)
  moreover have "list_all isDigit (decimal n)" using decimal_digits by (simp add: list_all_iff)
  moreover have "decimalVal (c # r) = n" using decimalVal_decimal [of n] c(1) by simp
  ultimately show "n < 2 ^ 63 \<Longrightarrow> ?thesis" using c(1) by (simp add: Atoi_def)
qed

subsection \<open>The environment and the flags\<close>

record 's cli_env =
  env_readFile :: "string \<Rightarrow> goerr + bytes"
  env_reflect :: "P4Info_msg \<Rightarrow> message_graph \<times> addr"
  env_unmarshalText :: "bytes \<Rightarrow> goerr + P4Info_msg"
  env_dialClient :: "'s \<Rightarrow> 's \<times> (goerr + Client)"
  env_Close :: "'s \<Rightarrow> 's"
  env_write :: "'s rpc_write"
  env_read :: "'s rpc_read"
  env_fromError :: from_error
  env_unmarshalAny :: unmarshal_any

record table_flags =
  tableName :: string
  tableMatches :: "string list"
  tableAction :: string
  tableParams :: "string list"
  tableP4Info :: string
  tablePriority :: int

definition readPipeline :: "'s cli_env \<Rightarrow> string \<Rightarrow> goerr + Pipeline" where
  "readPipeline env path =
     bindE (mapErr (\<lambda>e. Errorf ''read p4info: %w'' [AErr e]) (env_readFile env path)) (\<lambda>raw.
       Pipeline_LoadText (env_reflect env) (env_unmarshalText env) raw [])"

subsection \<open>Specifications\<close>

text \<open>The switch on the form of the value, and \<open>applyMatch\<close> around it.\<close>

definition decodeMatch :: "string \<Rightarrow> int \<Rightarrow> string \<Rightarrow> goerr + bytes" where
  "decodeMatch name bitwidth raw = mapErr (\<lambda>e. Errorf ''match %q: %w'' [AStr name, AErr e]) (decodeValue raw bitwidth)"

definition parseMatch :: "string \<Rightarrow> int \<Rightarrow> string \<Rightarrow> goerr + MatchValue" where
  "parseMatch name bitwidth raw =
     (case splitOnce ''/'' raw of
        Some (a, pl) \<Rightarrow>
          bindE (decodeMatch name bitwidth a) (\<lambda>v.
            case Atoi pl of
              None \<Rightarrow> Inl (Errorf ''prefix %q: %w'' [AStr pl, AErr (NewErr ''strconv.Atoi'')])
            | Some prefix \<Rightarrow>
                if prefix < 0 \<or> prefix > 2147483647 then Inl (Errorf ''prefix %q out of int32 range'' [AStr pl])
                else Inr (LPM v prefix))
      | None \<Rightarrow>
          (case splitOnce ''&'' raw of
             Some (a, m) \<Rightarrow> bindE (decodeMatch name bitwidth a) (\<lambda>v. bindE (decodeMatch name bitwidth m) (\<lambda>mk. Inr (Ternary v mk)))
           | None \<Rightarrow>
               (case splitOnce ''..'' raw of
                  Some (l, h) \<Rightarrow>
                    bindE (decodeMatch name bitwidth l) (\<lambda>low. bindE (decodeMatch name bitwidth h) (\<lambda>high. Inr (Range low high)))
                | None \<Rightarrow>
                    if HasPrefix raw ''?'' then
                      bindE (decodeMatch name bitwidth (TrimPrefix raw ''?'')) (\<lambda>v. Inr (Optional (Some v)))
                    else bindE (decodeMatch name bitwidth raw) (\<lambda>v. Inr (Exact v)))))"

definition applyMatch :: "Pipeline \<Rightarrow> string \<Rightarrow> string \<Rightarrow> Builder \<Rightarrow> goerr + Builder" where
  "applyMatch p table spec b =
     (case splitOnce ''='' spec of
        None \<Rightarrow> Inl (Errorf ''bad match %q: expected field=value'' [AStr spec])
      | Some (name, raw) \<Rightarrow>
          (case Pipeline_Table (Some p) table of
             None \<Rightarrow> Inl (Errorf ''table %q not in pipeline'' [AStr table])
           | Some td \<Rightarrow>
               (case TableDef_MatchField (Some td) name of
                  None \<Rightarrow> Inl (Errorf ''field %q not on table %q'' [AStr name, AStr table])
                | Some mf \<Rightarrow> bindE (parseMatch name (mf_Bitwidth mf) raw) (\<lambda>mv. Inr (Builder_Match name mv b)))))"

definition parseActionParam :: "Pipeline \<Rightarrow> string \<Rightarrow> string \<Rightarrow> goerr + string \<times> bytes" where
  "parseActionParam p action spec =
     (case splitOnce ''='' spec of
        None \<Rightarrow> Inl (Errorf ''bad param %q: expected name=value'' [AStr spec])
      | Some (name, raw) \<Rightarrow>
          (case Pipeline_Action (Some p) action of
             None \<Rightarrow> Inl (Errorf ''action %q not in pipeline'' [AStr action])
           | Some def \<Rightarrow>
               (case ActionDef_Param (Some def) name of
                  None \<Rightarrow> Inl (Errorf ''%w: %q not on action %q'' [AErr (Sentinel ErrInvalidActionParam), AStr name, AStr action])
                | Some parameter \<Rightarrow>
                    bindE (mapErr (\<lambda>e. Errorf ''action %q param %q: %w'' [AStr action, AStr name, AErr e])
                             (decodeValue raw (ap_Bitwidth parameter))) (\<lambda>v. Inr (Param name v)))))"

subsection \<open>The commands\<close>

text \<open>The loop over the match flags, and the entry a write sends.\<close>

fun applyMatches :: "Pipeline \<Rightarrow> string \<Rightarrow> string list \<Rightarrow> Builder \<Rightarrow> goerr + Builder" where
  "applyMatches p table [] b = Inr b"
| "applyMatches p table (m # ms) b = bindE (applyMatch p table m b) (applyMatches p table ms)"

definition tableEntryOf :: "Pipeline \<Rightarrow> int \<Rightarrow> table_flags \<Rightarrow> goerr + TableEntry" where
  "tableEntryOf p kind fl =
     bindE (applyMatches p (tableName fl) (tableMatches fl) (NewBuilder (Some p) (tableName fl))) (\<lambda>b.
     bindE (if kind \<noteq> UpdateDelete then
              bindE (mapE (parseActionParam p (tableAction fl)) (tableParams fl)) (\<lambda>params.
                Inr (Builder_Action (tableAction fl) params b))
            else Inr b) (\<lambda>b.
     let b = Builder_Priority (tablePriority fl) b in
     if kind = UpdateDelete then BuildKey b else Build b))"

definition tableWrite :: "'s cli_env \<Rightarrow> int \<Rightarrow> table_flags \<Rightarrow> 's \<Rightarrow> 's \<times> goerr option" where
  "tableWrite env kind fl s =
     (if tableName fl = '''' \<or> tableP4Info fl = '''' then (s, Some (Errorf ''--table and --p4info required'' []))
      else if kind \<noteq> UpdateDelete \<and> tableAction fl = '''' then (s, Some (Errorf ''--action required for %s'' [AInt kind]))
      else case bindE (readPipeline env (tableP4Info fl)) (\<lambda>p. tableEntryOf p kind fl) of
        Inl e \<Rightarrow> (s, Some e)
      | Inr entry \<Rightarrow>
          (case env_dialClient env s of
             (s1, Inl e) \<Rightarrow> (s1, Some e)
           | (s1, Inr c) \<Rightarrow>
               (case WriteTableEntry (env_write env) (env_fromError env) (env_unmarshalAny env) c kind entry s1 of
                  (s2, r) \<Rightarrow> (env_Close env s2, r))))"

subsection \<open>Literals inside specifications\<close>

text \<open>The characters of a literal; none of them is a mark of a specification.\<close>

definition literal_char :: "char \<Rightarrow> bool" where
  "literal_char c \<longleftrightarrow> hexVal c \<noteq> None \<or> c \<in> {CHR '':'', CHR ''.'', CHR ''x'', CHR ''X''}"

lemma Join_set: "set (Join ws sep) \<subseteq> \<Union> (set ` set ws) \<union> set sep"
  by (induction ws sep rule: Join.induct) auto

lemma digit_hexVal: "isDigit c \<Longrightarrow> hexVal c \<noteq> None"
  by (auto simp: isDigit_def hexVal_def Let_def)

lemma decimal_chars: "c \<in> set (decimal n) \<Longrightarrow> literal_char c"
  using decimal_digits digit_hexVal by (auto simp: literal_char_def)

lemma group_chars: "hex_group t \<Longrightarrow> c \<in> set t \<Longrightarrow> literal_char c"
  by (auto simp: literal_char_def hex_group_def)

lemma Join_chars: "(\<forall>w\<in>set ws. \<forall>c\<in>set w. literal_char c) \<Longrightarrow> \<forall>c\<in>set sep. literal_char c \<Longrightarrow> c \<in> set (Join ws sep) \<Longrightarrow> literal_char c"
  using Join_set [of ws sep] by blast

lemma literal_char_marks [simp]:
  "literal_char CHR '':''" "literal_char CHR ''.''" "literal_char CHR ''x''" "literal_char CHR ''X''" "literal_char CHR ''0''"
  by (simp_all add: literal_char_def hexVal_0)

lemma groups_chars: "\<forall>t\<in>set ts. hex_group t \<Longrightarrow> c \<in> set (Join ts '':'') \<Longrightarrow> literal_char c"
  using Join_chars [of ts "'':''" c] group_chars by auto

lemma literal_chars: "literal t n \<Longrightarrow> c \<in> set t \<Longrightarrow> literal_char c"
proof (induction rule: literal.induct)
  case (lit_decimal t)
  then show ?case using digit_hexVal by (auto simp: literal_char_def list_all_iff)
next
  case (lit_hex p t)
  then have "c \<in> {CHR ''0'', CHR ''x'', CHR ''X''} \<or> c \<in> set t" by auto
  with lit_hex(3) show ?case by (auto simp: literal_char_def hexVal_0)
next
  case (lit_hex_pairs p ps)
  then have "c \<in> {CHR ''0'', CHR ''x'', CHR ''X''} \<or> c \<in> set (Join ps '':'')" by auto
  with groups_chars [OF pairs_groups [OF lit_hex_pairs(2)]] show ?case by auto
next
  case (lit_pairs ps)
  with groups_chars [OF pairs_groups [OF lit_pairs(1)]] show ?case by blast
next
  case (lit_ipv4 a)
  then show ?case using Join_chars [of "map (decimal \<circ> unat) a" "''.''" c] decimal_chars by auto
next
  case (lit_ipv6 ts us)
  then have "c = CHR '':'' \<or> c \<in> set (Join ts '':'') \<or> (\<exists>vs. us = Some vs \<and> c \<in> set (Join vs '':''))"
    by (auto simp: ipv6_text_def split: option.splits)
  with lit_ipv6(1) show ?case using groups_chars by (auto simp: ipv6_groups_ok_def)
next
  case (lit_embedded ts us a)
  then have "c = CHR '':'' \<or> hexVal c \<noteq> None \<or> c = CHR ''.'' \<or> isDigit c"
    using prefix_clean [of ts us a c] dotted_chars [of c a] by auto
  then show ?case using digit_hexVal by (auto simp: literal_char_def)
qed

lemma literal_no_mark: "literal t n \<Longrightarrow> m \<in> {CHR ''='', CHR ''/'', CHR ''&'', CHR ''?''} \<Longrightarrow> m \<notin> set t"
  using literal_chars [of t n m] by (auto simp: literal_char_def hexVal_def)

text \<open>No literal contains or ends with the dots of a range.\<close>

definition dots_ok :: "string \<Rightarrow> bool" where
  "dots_ok t \<longleftrightarrow> splitOnce ''..'' t = None \<and> (t \<noteq> [] \<longrightarrow> last t \<noteq> CHR ''.'')"

lemma dots_ok_no_dot: "CHR ''.'' \<notin> set t \<Longrightarrow> dots_ok t"
proof -
  have "splitOnce ''..'' t = None" if "CHR ''.'' \<notin> set t" using that by (induction t) (auto simp: HasPrefix_def)
  then show "CHR ''.'' \<notin> set t \<Longrightarrow> ?thesis" unfolding dots_ok_def using last_in_set [of t] by metis
qed

lemma dots_ok_dotted:
  assumes "CHR ''.'' \<notin> set w" and "w \<noteq> []" and "dots_ok s" and "s \<noteq> []" and "hd s \<noteq> CHR ''.''"
  shows "dots_ok (w @ ''.'' @ s)"
proof -
  have s: "splitOnce ''..'' (CHR ''.'' # s) = None"
    using assms(3-5) by (cases s) (auto simp: dots_ok_def HasPrefix_def)
  have "splitOnce ''..'' (v @ CHR ''.'' # s) = None" if "CHR ''.'' \<notin> set v" for v
    using that s by (induction v) (auto simp: HasPrefix_def)
  with assms show ?thesis by (auto simp: dots_ok_def)
qed

lemma dots_ok_Join:
  assumes "ns \<noteq> []"
  shows "dots_ok (Join (map decimal ns) ''.'') \<and> Join (map decimal ns) ''.'' \<noteq> [] \<and> hd (Join (map decimal ns) ''.'') \<noteq> CHR ''.''"
  using assms
proof (induction ns)
  case (Cons n ns)
  have d: "CHR ''.'' \<notin> set (decimal n)" "decimal n \<noteq> []" "hd (decimal n) \<noteq> CHR ''.''"
    using decimal_digits [of "CHR ''.''" n] decimal_head [of n] by (auto simp: isDigit_def)
  show ?case
  proof (cases ns)
    case Nil
    with d show ?thesis by (simp add: dots_ok_no_dot)
  next
    case (Cons m ms)
    then have "Join (map decimal (n # ns)) ''.'' = decimal n @ ''.'' @ Join (map decimal ns) ''.''" by simp
    with d Cons Cons.IH dots_ok_dotted [of "decimal n"] show ?thesis by simp
  qed
qed simp

lemma dots_ok_prefix:
  assumes "CHR ''.'' \<notin> set w" and "dots_ok s" and "s \<noteq> []"
  shows "dots_ok (w @ s)"
proof -
  have "splitOnce ''..'' (w @ s) = None" using assms(1,2) by (induction w) (auto simp: dots_ok_def HasPrefix_def)
  with assms show ?thesis by (simp add: dots_ok_def)
qed

lemma literal_dots: "literal t n \<Longrightarrow> dots_ok t"
proof (induction rule: literal.induct)
  case (lit_decimal t)
  then show ?case using digits_no_x [of t] by (simp add: dots_ok_no_dot)
next
  case (lit_hex p t)
  then have "CHR ''.'' \<notin> set (p @ t)" by force
  then show ?case by (rule dots_ok_no_dot)
next
  case (lit_hex_pairs p ps)
  then have "CHR ''.'' \<notin> set (Join ps '':'')" using Join_clean [of "CHR ''.''" "'':''" ps] pairs_groups group_clean by auto
  with lit_hex_pairs(1) show ?case by (intro dots_ok_no_dot) auto
next
  case (lit_pairs ps)
  then show ?case using Join_clean [of "CHR ''.''" "'':''" ps] pairs_groups group_clean by (intro dots_ok_no_dot) auto
next
  case (lit_ipv4 a)
  then have "map unat a \<noteq> []" by auto
  from dots_ok_Join [OF this] show ?case by (simp del: map_map flip: map_map)
next
  case (lit_ipv6 ts us)
  then show ?case
    using Join_clean [of "CHR ''.''" "'':''" ts] Join_clean [of "CHR ''.''" "'':''" "the us"] group_clean
    by (intro dots_ok_no_dot) (auto simp: ipv6_text_def ipv6_groups_ok_def split: option.splits)
next
  case (lit_embedded ts us a)
  have "map unat a \<noteq> []" using lit_embedded by (auto simp: embedded_ok_def)
  from dots_ok_Join [OF this] have "dots_ok (dotted a)" "dotted a \<noteq> []" by (simp_all del: map_map flip: map_map)
  moreover have "CHR ''.'' \<notin> set (ipv6_prefix ts us)" using prefix_clean [OF lit_embedded, of "CHR ''.''"] by auto
  ultimately show ?case by (intro dots_ok_prefix)
qed

lemma splitOnce_dots:
  assumes "dots_ok t"
  shows "splitOnce ''..'' (t @ ''..'' @ u) = Some (t, u)"
  using assms
proof (induction t)
  case (Cons c t)
  have t: "dots_ok t" using Cons.prems by (auto simp: dots_ok_def HasPrefix_def split: if_splits)
  have "\<not> HasPrefix (c # t @ ''..'' @ u) ''..''"
    using Cons.prems by (cases t) (auto simp: dots_ok_def HasPrefix_def split: if_splits)
  with Cons.IH [OF t] show ?case by simp
qed (simp add: HasPrefix_def)

subsection \<open>The meaning of match specifications\<close>

text \<open>A specification with its literals and the numbers they denote.\<close>

datatype match_spec =
    SExact string nat
  | SLPM string nat nat
  | STernary string nat string nat
  | SRange string nat string nat
  | SOptional string nat

fun spec_text :: "match_spec \<Rightarrow> string" where
  "spec_text (SExact t n) = t"
| "spec_text (SLPM t n p) = t @ CHR ''/'' # decimal p"
| "spec_text (STernary t n u m) = t @ CHR ''&'' # u"
| "spec_text (SRange t n u m) = t @ ''..'' @ u"
| "spec_text (SOptional t n) = CHR ''?'' # t"

fun spec_ok :: "match_spec \<Rightarrow> bool" where
  "spec_ok (SExact t n) = literal t n"
| "spec_ok (SLPM t n p) = (literal t n \<and> p < 2 ^ 31)"
| "spec_ok (STernary t n u m) = (literal t n \<and> literal u m)"
| "spec_ok (SRange t n u m) = (literal t n \<and> literal u m)"
| "spec_ok (SOptional t n) = literal t n"

fun spec_accepts :: "int \<Rightarrow> match_spec \<Rightarrow> nat \<Rightarrow> bool" where
  "spec_accepts w (SExact t n) x = (x = n)"
| "spec_accepts w (SLPM t n p) x = (top_bits w (int p) x = top_bits w (int p) n)"
| "spec_accepts w (STernary t n u m) x = (x AND m = n AND m)"
| "spec_accepts w (SRange t n u m) x = (n \<le> x \<and> x \<le> m)"
| "spec_accepts w (SOptional t n) x = (x = n)"

text \<open>How the marks split the text of a specification.\<close>

lemmas mark_free = literal_no_mark [of _ _ "CHR ''/''"] literal_no_mark [of _ _ "CHR ''&''"] literal_no_mark [of _ _ "CHR ''?''"]

lemma literal_unmarked:
  assumes "literal t n"
  shows "splitOnce ''/'' t = None" "splitOnce ''&'' t = None" "splitOnce ''..'' t = None" "\<not> HasPrefix t ''?''"
  using mark_free [OF assms] literal_dots [OF assms] by (auto simp: splitOnce_single_None dots_ok_def HasPrefix_def)
    (metis in_set_takeD list.set_intros(1))

lemma optional_unmarked:
  assumes "literal t n"
  shows "splitOnce ''/'' (CHR ''?'' # t) = None" "splitOnce ''&'' (CHR ''?'' # t) = None" "splitOnce ''..'' (CHR ''?'' # t) = None"
    "HasPrefix (CHR ''?'' # t) ''?''" "TrimPrefix (CHR ''?'' # t) ''?'' = t"
  using literal_unmarked [OF assms] by (simp_all add: HasPrefix_def TrimPrefix_def)

lemma pair_unmarked:
  assumes "literal t n" and "literal u m"
  shows "splitOnce ''/'' (t @ CHR ''&'' # u) = None" "splitOnce ''&'' (t @ CHR ''&'' # u) = Some (t, u)"
    "splitOnce ''/'' (t @ CHR ''.'' # CHR ''.'' # u) = None" "splitOnce ''&'' (t @ CHR ''.'' # CHR ''.'' # u) = None"
    "splitOnce ''..'' (t @ CHR ''.'' # CHR ''.'' # u) = Some (t, u)"
  using mark_free [OF assms(1)] mark_free [OF assms(2)] splitOnce_dots [OF literal_dots [OF assms(1)], of u]
  by (auto simp: splitOnce_single_None intro: splitOnce_append)

lemma lpm_split: "literal t n \<Longrightarrow> splitOnce ''/'' (t @ CHR ''/'' # s) = Some (t, s)"
  by (rule splitOnce_append) (simp add: mark_free(1))

text \<open>An accepted specification adds a match value that means what the specification means.\<close>

lemma decodeMatch_number:
  "decodeMatch name w raw = Inr b \<Longrightarrow> literal raw n \<Longrightarrow> w \<le> max_width \<Longrightarrow> be_nat b = n"
  using decodeValue_number [of raw w b n] by (simp add: decodeMatch_def mapErr_Inr_iff)

lemma parseMatch_spec:
  assumes "parseMatch name w (spec_text sp) = Inr mv" and "spec_ok sp" and w: "w \<le> max_width"
  shows "accepts w mv x \<longleftrightarrow> spec_accepts w sp x"
proof (cases sp)
  case (SExact t n)
  then have t: "literal t n" using assms(2) by simp
  with SExact assms(1) literal_unmarked [OF t] show ?thesis
    by (auto simp: parseMatch_def bindE_Inr_iff Exact_def decodeMatch_number [OF _ t w])
next
  case (SLPM t n k)
  then have t: "literal t n" "k < 2 ^ 31" using assms(2) by simp_all
  have "Atoi (decimal k) = Some (int k)" by (rule Atoi_decimal) (use t(2) in simp)
  with SLPM assms(1) lpm_split [OF t(1)] show ?thesis
    by (auto simp: parseMatch_def bindE_Inr_iff LPM_def decodeMatch_number [OF _ t(1) w] split: if_splits)
next
  case (STernary t n u m)
  then have t: "literal t n" "literal u m" using assms(2) by simp_all
  with STernary assms(1) pair_unmarked [OF t] show ?thesis
    by (auto simp: parseMatch_def bindE_Inr_iff Ternary_def decodeMatch_number [OF _ t(1) w] decodeMatch_number [OF _ t(2) w])
next
  case (SRange t n u m)
  then have t: "literal t n" "literal u m" using assms(2) by simp_all
  with SRange assms(1) pair_unmarked [OF t] show ?thesis
    by (auto simp: parseMatch_def bindE_Inr_iff Range_def decodeMatch_number [OF _ t(1) w] decodeMatch_number [OF _ t(2) w])
next
  case (SOptional t n)
  then have t: "literal t n" using assms(2) by simp
  with SOptional assms(1) optional_unmarked [OF t] show ?thesis
    by (auto simp: parseMatch_def bindE_Inr_iff Optional_def decodeMatch_number [OF _ t w])
qed

abbreviation match_flag :: "string \<times> match_spec \<Rightarrow> string" where
  "match_flag m \<equiv> fst m @ CHR ''='' # spec_text (snd m)"

lemma applyMatch_flag:
  assumes "CHR ''='' \<notin> set (fst m)" and "Pipeline_Table (Some p) table = Some td"
  shows "applyMatch p table (match_flag m) b = Inr b' \<longleftrightarrow>
    (\<exists>mf mv. TableDef_MatchField (Some td) (fst m) = Some mf \<and> parseMatch (fst m) (mf_Bitwidth mf) (spec_text (snd m)) = Inr mv \<and>
       b' = Builder_Match (fst m) mv b)"
proof -
  have "splitOnce ''='' (match_flag m) = Some (fst m, spec_text (snd m))" by (rule splitOnce_append) (fact assms)
  then show ?thesis using assms(2) by (auto simp: applyMatch_def bindE_Inr_iff split: option.splits)
qed

text \<open>The whole list of flags: the match value of each named field means what its specification means.\<close>

definition flags_mean :: "TableDef \<Rightarrow> (string \<times> match_spec) list \<Rightarrow> (string \<times> MatchValue) list \<Rightarrow> bool" where
  "flags_mean td ms mvs \<longleftrightarrow> (\<forall>(name, sp)\<in>set ms. \<exists>mf mv. TableDef_MatchField (Some td) name = Some mf \<and> map_of mvs name = Some mv \<and>
     (\<forall>x. accepts (mf_Bitwidth mf) mv x \<longleftrightarrow> spec_accepts (mf_Bitwidth mf) sp x))"

lemma applyMatches_flags:
  assumes "applyMatches p table (map match_flag ms) b = Inr b'" and "\<forall>m\<in>set ms. CHR ''='' \<notin> set (fst m) \<and> spec_ok (snd m)"
    and "distinct (map fst ms)" and td: "Pipeline_Table (Some p) table = Some td"
    and widths: "\<And>name mf. TableDef_MatchField (Some td) name = Some mf \<Longrightarrow> mf_Bitwidth mf \<le> int32_max"
  shows "(\<exists>mvs. b' = b\<lparr>b_matches := mvs\<rparr>) \<and> flags_mean td ms (b_matches b') \<and>
    (\<forall>n. n \<notin> fst ` set ms \<longrightarrow> map_of (b_matches b') n = map_of (b_matches b) n)"
  using assms(1-3)
proof (induction ms arbitrary: b)
  case Nil
  then show ?case by (auto simp: flags_mean_def intro: exI [of _ "b_matches b"])
next
  case (Cons m ms)
  then obtain b1 where b1: "applyMatch p table (match_flag m) b = Inr b1" "applyMatches p table (map match_flag ms) b1 = Inr b'"
    by (auto simp: bindE_Inr_iff)
  then obtain mf mv where mf: "TableDef_MatchField (Some td) (fst m) = Some mf"
      "parseMatch (fst m) (mf_Bitwidth mf) (spec_text (snd m)) = Inr mv" "b1 = Builder_Match (fst m) mv b"
    using applyMatch_flag [OF _ td] Cons.prems(2) by auto
  have IH: "\<exists>mvs. b' = b1\<lparr>b_matches := mvs\<rparr>" "flags_mean td ms (b_matches b')"
      "\<And>n. n \<notin> fst ` set ms \<Longrightarrow> map_of (b_matches b') n = map_of (b_matches b1) n"
    using Cons.IH [OF b1(2)] Cons.prems by auto
  have "map_of (b_matches b') (fst m) = Some mv"
    using IH(3) [of "fst m"] Cons.prems(3) mf(3) by (simp add: Builder_Match_def update_Some_unfold update_conv)
  moreover have "accepts (mf_Bitwidth mf) mv x \<longleftrightarrow> spec_accepts (mf_Bitwidth mf) (snd m) x" for x
    by (rule parseMatch_spec [OF mf(2)]) (use Cons.prems(2) int32_width widths [OF mf(1)] in auto)
  ultimately have "flags_mean td (m # ms) (b_matches b')"
    using IH(2) mf(1) by (cases m) (auto simp: flags_mean_def)
  moreover have "\<exists>mvs. b' = b\<lparr>b_matches := mvs\<rparr>" using IH(1) mf(3) by (auto simp: Builder_Match_def)
  moreover have "map_of (b_matches b') n = map_of (b_matches b) n" if "n \<notin> fst ` set (m # ms)" for n
    using IH(3) [of n] that mf(3) by (simp add: Builder_Match_def update_conv)
  ultimately show ?case by blast
qed

subsection \<open>The entry of a command\<close>

lemma readPipeline_built: "readPipeline env path = Inr p \<Longrightarrow> \<exists>info cfg. p = built info cfg"
  by (auto simp: readPipeline_def Pipeline_LoadText_def bindE_Inr_iff New_Inr_iff)

lemma matchField_iff:
  assumes "table_wf td" and "distinct (map mf_Name (t_MatchFields td))"
  shows "TableDef_MatchField (Some td) name = Some mf \<longleftrightarrow> mf \<in> set (t_MatchFields td) \<and> mf_Name mf = name"
  using assms by (auto simp: TableDef_MatchField_def table_wf_def index_by_distinct dest: index_by_Some_in)

lemma NewBuilder_fields:
  assumes "Pipeline_Table (Some p) table = Some td"
  shows "NewBuilder (Some p) table = \<lparr>b_pipeline = Some p, b_table = Some td, b_tableErr = None, b_matches = [], b_action = None,
    b_priority = 0, b_timeout = 0, b_isDefault = False, b_metadata = []\<rparr>"
  using assms by (simp add: NewBuilder_def Let_def)

text \<open>The entry is the key of a builder that differs from the one of the match flags in action and priority only.\<close>

lemma tableEntryOf_key:
  assumes "tableEntryOf p kind fl = Inr e" and td: "Pipeline_Table (Some p) (tableName fl) = Some td"
  obtains b b2 where "applyMatches p (tableName fl) (tableMatches fl) (NewBuilder (Some p) (tableName fl)) = Inr b"
    and "b_matches b2 = b_matches b" and "b_isDefault b2 = b_isDefault b" and "b_table b2 = b_table b" and "b_priority b2 = tablePriority fl"
    and "\<And>t. b_table b = Some t \<Longrightarrow> key_ready b2 t \<and> te_TableId e = te_TableId (key_entry b2 t) \<and> te_Match e = te_Match (key_entry b2 t) \<and>
      te_Priority e = te_Priority (key_entry b2 t) \<and> (te_Action e = None \<longleftrightarrow> kind = UpdateDelete)"
proof -
  obtain b b1 where b: "applyMatches p (tableName fl) (tableMatches fl) (NewBuilder (Some p) (tableName fl)) = Inr b"
    and b1: "b1 = b \<or> (\<exists>ps. b1 = Builder_Action (tableAction fl) ps b)"
    and e: "(if kind = UpdateDelete then BuildKey (Builder_Priority (tablePriority fl) b1) else Build (Builder_Priority (tablePriority fl) b1)) = Inr e"
    using assms(1) by (fastforce simp: tableEntryOf_def bindE_Inr_iff Let_def split: if_splits)
  show thesis
  proof (rule that [OF b, of "Builder_Priority (tablePriority fl) b1"])
    fix t assume "b_table b = Some t"
    moreover have "b_table (Builder_Priority (tablePriority fl) b1) = b_table b" using b1 by (auto simp: Builder_Priority_def Builder_Action_def)
    ultimately show "key_ready (Builder_Priority (tablePriority fl) b1) t \<and>
        te_TableId e = te_TableId (key_entry (Builder_Priority (tablePriority fl) b1) t) \<and>
        te_Match e = te_Match (key_entry (Builder_Priority (tablePriority fl) b1) t) \<and>
        te_Priority e = te_Priority (key_entry (Builder_Priority (tablePriority fl) b1) t) \<and> (te_Action e = None \<longleftrightarrow> kind = UpdateDelete)"
      using e by (auto simp: BuildKey_Inr_iff Build_Inr_iff key_ready_def key_entry_def split: if_splits)
  qed (use b1 in \<open>auto simp: Builder_Priority_def Builder_Action_def\<close>)
qed

text \<open>What the flags say of the fields and what the builder's match values say of them.\<close>

lemma flags_mean_iff:
  assumes wf: "table_wf td" "distinct (map mf_Name (t_MatchFields td))" and "flags_mean td ms mvs"
    and "\<And>n. n \<notin> fst ` set ms \<Longrightarrow> map_of mvs n = None" and dist: "distinct (map fst ms)"
  shows "(\<forall>mf\<in>set (t_MatchFields td). \<forall>mv. map_of mvs (mf_Name mf) = Some mv \<longrightarrow> accepts (mf_Bitwidth mf) mv (key mf)) \<longleftrightarrow>
    (\<forall>(name, sp)\<in>set ms. \<forall>mf. TableDef_MatchField (Some td) name = Some mf \<longrightarrow> spec_accepts (mf_Bitwidth mf) sp (key mf))"
proof (intro iffI ballI allI impI; clarify?)
  fix name sp mf
  assume l: "\<forall>mf\<in>set (t_MatchFields td). \<forall>mv. map_of mvs (mf_Name mf) = Some mv \<longrightarrow> accepts (mf_Bitwidth mf) mv (key mf)"
    and m: "(name, sp) \<in> set ms" "TableDef_MatchField (Some td) name = Some mf"
  then obtain mv where mv: "map_of mvs name = Some mv" "accepts (mf_Bitwidth mf) mv (key mf) \<longleftrightarrow> spec_accepts (mf_Bitwidth mf) sp (key mf)"
    using assms(3) by (fastforce simp: flags_mean_def)
  have "mf \<in> set (t_MatchFields td)" "mf_Name mf = name" using m(2) matchField_iff [OF wf] by auto
  with l mv show "spec_accepts (mf_Bitwidth mf) sp (key mf)" by auto
next
  fix mf mv
  assume r: "\<forall>(name, sp)\<in>set ms. \<forall>mf. TableDef_MatchField (Some td) name = Some mf \<longrightarrow> spec_accepts (mf_Bitwidth mf) sp (key mf)"
    and m: "mf \<in> set (t_MatchFields td)" "map_of mvs (mf_Name mf) = Some mv"
  then have "mf_Name mf \<in> fst ` set ms" using assms(4) [of "mf_Name mf"] by force
  then obtain sp where sp: "(mf_Name mf, sp) \<in> set ms" by auto
  have "TableDef_MatchField (Some td) (mf_Name mf) = Some mf" using m(1) matchField_iff [OF wf] by auto
  with assms(3) sp r m(2) show "accepts (mf_Bitwidth mf) mv (key mf)" by (fastforce simp: flags_mean_def)
qed

lemma tableWrite_sent:
  assumes "tableWrite env kind fl s = (s', None)" and "readPipeline env (tableP4Info fl) = Inr p"
  obtains e c s1 s2 where "tableEntryOf p kind fl = Inr e" and "env_dialClient env s = (s1, Inr c)" and "cl_primary c"
    and "env_write env s1 (writeRequest c 0 [TableEntryUpdate kind e]) = (s2, None)" and "s' = env_Close env s2"
proof -
  obtain e c s1 s2 where e: "tableEntryOf p kind fl = Inr e" "env_dialClient env s = (s1, Inr c)"
    "WriteTableEntry (env_write env) (env_fromError env) (env_unmarshalAny env) c kind e s1 = (s2, None)" "s' = env_Close env s2"
    using assms by (auto simp: tableWrite_def split: if_splits sum.splits prod.splits)
  then show thesis
    using that by (auto simp: WriteTableEntry_def Client_Write_def split: if_splits prod.splits option.splits)
qed

subsection \<open>Properties\<close>

text \<open>C4. The table commands from the flags to the wire. When \<open>insert\<close>, \<open>modify\<close> or \<open>delete\<close> succeeds, the client it
  dialled was primary and sent exactly one write request with exactly one update of the command's kind,
  accepted by the target, before the client was closed. The entry is on the named table, carries the priority
  flag, has an action except for a delete, and matches exactly the packets that satisfy every match
  flag, with each flag read as the numbers its literals denote: exact, prefix, mask, range or optional.\<close>

theorem tableWrite_correct:
  assumes "tableWrite env kind fl s = (s', None)"
    and "readPipeline env (tableP4Info fl) = Inr p" and "Pipeline_Table (Some p) (tableName fl) = Some td"
    and "distinct (map mf_Name (t_MatchFields td))" and "distinct (map mf_ID (t_MatchFields td))"
    and "\<forall>mf\<in>set (t_MatchFields td). mf_Bitwidth mf \<le> int32_max"
    and "tableMatches fl = map (\<lambda>m. fst m @ CHR ''='' # spec_text (snd m)) ms"
    and "\<forall>m\<in>set ms. CHR ''='' \<notin> set (fst m) \<and> spec_ok (snd m)" and "distinct (map fst ms)"
  shows "\<exists>e c s1 s2. env_dialClient env s = (s1, Inr c) \<and> cl_primary c \<and>
    env_write env s1 (writeRequest c 0 [TableEntryUpdate kind e]) = (s2, None) \<and> s' = env_Close env s2 \<and>
    te_TableId e = t_ID td \<and> te_Priority e = tablePriority fl \<and> (te_Action e = None \<longleftrightarrow> kind = UpdateDelete) \<and>
    (\<forall>key. (\<forall>mf\<in>set (t_MatchFields td). key mf < 2 ^ nat (mf_Bitwidth mf)) \<longrightarrow>
       ((\<forall>mf\<in>set (t_MatchFields td). \<forall>fm\<in>set (te_Match e). fm_FieldId fm = mf_ID mf \<longrightarrow>
           wire_accepts (mf_Bitwidth mf) (fm_type fm) (key mf)) \<longleftrightarrow>
        (\<forall>(name, sp)\<in>set ms. \<forall>mf. TableDef_MatchField (Some td) name = Some mf \<longrightarrow> spec_accepts (mf_Bitwidth mf) sp (key mf))))"
proof -
  obtain e c s1 s2 where e: "tableEntryOf p kind fl = Inr e" "env_dialClient env s = (s1, Inr c)" "cl_primary c"
    "env_write env s1 (writeRequest c 0 [TableEntryUpdate kind e]) = (s2, None)" "s' = env_Close env s2"
    by (rule tableWrite_sent [OF assms(1,2)])
  have wf: "table_wf td" using readPipeline_built [OF assms(2)] assms(3) Pipeline_Table_wf by blast
  have widths: "mf_Bitwidth mf \<le> int32_max" if "TableDef_MatchField (Some td) name = Some mf" for name mf
    using that assms(6) matchField_iff [OF wf assms(4)] by blast
  obtain b b2 where b: "applyMatches p (tableName fl) (map match_flag ms) (NewBuilder (Some p) (tableName fl)) = Inr b"
      "b_matches b2 = b_matches b" "b_isDefault b2 = b_isDefault b" "b_table b2 = b_table b" "b_priority b2 = tablePriority fl"
    and key: "\<And>t. b_table b = Some t \<Longrightarrow> key_ready b2 t \<and> te_TableId e = te_TableId (key_entry b2 t) \<and> te_Match e = te_Match (key_entry b2 t) \<and>
      te_Priority e = te_Priority (key_entry b2 t) \<and> (te_Action e = None \<longleftrightarrow> kind = UpdateDelete)"
    using tableEntryOf_key [OF e(1) assms(3)] unfolding assms(7) by blast
  have flags: "(\<exists>mvs. b = (NewBuilder (Some p) (tableName fl))\<lparr>b_matches := mvs\<rparr>) \<and> flags_mean td ms (b_matches b) \<and>
      (\<forall>n. n \<notin> fst ` set ms \<longrightarrow> map_of (b_matches b) n = map_of (b_matches (NewBuilder (Some p) (tableName fl))) n)"
    by (rule applyMatches_flags [OF b(1) assms(8,9,3)]) (rule widths)
  have new: "b_table b = Some td" "\<not> b_isDefault b" "\<And>n. n \<notin> fst ` set ms \<Longrightarrow> map_of (b_matches b) n = None"
    using flags NewBuilder_fields [OF assms(3)] by auto
  have ready: "\<forall>mf\<in>set (t_MatchFields td). field_ready (b_matches b2) mf"
    using key [OF new(1)] b(3) new(2) by (auto simp: key_ready_def)
  have "(\<forall>mf\<in>set (t_MatchFields td). \<forall>fm\<in>set (te_Match e). fm_FieldId fm = mf_ID mf \<longrightarrow> wire_accepts (mf_Bitwidth mf) (fm_type fm) (key' mf)) \<longleftrightarrow>
      (\<forall>(name, sp)\<in>set ms. \<forall>mf. TableDef_MatchField (Some td) name = Some mf \<longrightarrow> spec_accepts (mf_Bitwidth mf) sp (key' mf))"
    if fits: "\<forall>mf\<in>set (t_MatchFields td). key' mf < 2 ^ nat (mf_Bitwidth mf)" for key'
  proof -
    have "\<not> b_isDefault b2" using b(3) new(2) by simp
    note key_entry_meaning [OF this assms(5), of key']
    moreover note flags_mean_iff [OF wf assms(4) conjunct1 [OF conjunct2 [OF flags]] new(3) assms(9), of key']
    ultimately show ?thesis using key [OF new(1)] b(2) ready fits assms(6) by simp
  qed
  moreover have "te_TableId e = t_ID td" "te_Priority e = tablePriority fl"
    using key [OF new(1)] b(3,5) new(2) by (simp_all add: key_entry_def)
  ultimately show ?thesis using e(2-5) key [OF new(1)]
    by (intro exI [of _ e] exI [of _ c] exI [of _ s1] exI [of _ s2] conjI allI impI) simp_all
qed

text \<open>A delete on the sample table: the entry that matches the odd ports.\<close>

abbreviation sample_env :: "WriteRequest list cli_env" where
  "sample_env \<equiv> \<lparr>env_readFile = (\<lambda>_. Inr []), env_reflect = sample_reflect, env_unmarshalText = (\<lambda>_. Inr sample_info),
     env_dialClient = (\<lambda>s. (s, Inr sample_client)), env_Close = id, env_write = logging_target,
     env_read = (\<lambda>s _. (s, Inl EOF)), env_fromError = no_status, env_unmarshalAny = code_byte\<rparr>"

abbreviation sample_flags :: table_flags where
  "sample_flags \<equiv> \<lparr>tableName = ''ipv4'', tableMatches = [''port=0xff&1''], tableAction = '''', tableParams = [],
     tableP4Info = ''p4info.txt'', tablePriority = 10\<rparr>"

lemma sample_decode: "decodeValue ''0xff'' 9 = Inr [0xff]" "decodeValue ''1'' 9 = Inr [1]"
  by code_simp+

lemma sample_pipeline: "readPipeline sample_env ''p4info.txt'' = Inr (built sample_info [])"
  by (simp add: readPipeline_def Pipeline_LoadText_def sample_New)

lemma sample_fields:
  "t_MatchFields sample_table =
      [\<lparr>mf_ID = 2, mf_Name = ''port'', mf_Bitwidth = 9, mf_MatchType = MatchField_TERNARY, mf_OtherMatchType = ''''\<rparr>,
       \<lparr>mf_ID = 1, mf_Name = ''dst'', mf_Bitwidth = 32, mf_MatchType = MatchField_LPM, mf_OtherMatchType = ''''\<rparr>]"
  by (simp add: newTableDef_def sample_info_def Let_def)

lemma sample_port: "TableDef_MatchField (Some sample_table) ''port'' =
    Some \<lparr>mf_ID = 2, mf_Name = ''port'', mf_Bitwidth = 9, mf_MatchType = MatchField_TERNARY, mf_OtherMatchType = ''''\<rparr>"
  by (subst matchField_iff) (simp_all add: sample_fields new_wf)

lemma sample_applyMatch:
  "applyMatch (built sample_info []) ''ipv4'' ''port=0xff&1'' b = Inr (Builder_Match ''port'' (Ternary [0xff] [1]) b)"
  by (simp add: applyMatch_def parseMatch_def decodeMatch_def sample_decode sample_lookup sample_port HasPrefix_def)

lemma sample_key: "\<exists>e. BuildKey (Builder_Priority 10 (Builder_Match ''port'' (Ternary [0xff] [1])
    (NewBuilder (Some (built sample_info [])) ''ipv4''))) = Inr e"
proof -
  have "isOk (encodeField \<lparr>mf_ID = 2, mf_Name = ''port'', mf_Bitwidth = 9, mf_MatchType = MatchField_TERNARY, mf_OtherMatchType = ''''\<rparr>
      (TernaryMatch [0xff] [1]))" by code_simp
  then show ?thesis unfolding BuildKey_Inr_iff
    by (auto simp: key_ready_def field_ready_def NewBuilder_fields [OF sample_lookup] Builder_Priority_def Builder_Match_def
        Ternary_def sample_fields sample_port needsPriority_def)
qed

theorem tableWrite_correct_witness:
  "\<exists>e. fst (tableWrite sample_env UpdateDelete sample_flags []) = [writeRequest sample_client 0 [TableEntryUpdate UpdateDelete e]] \<and>
     te_Priority e = 10 \<and> te_Action e = None"
proof -
  let ?s = "fst (tableWrite sample_env UpdateDelete sample_flags [])"
  obtain e where "tableEntryOf (built sample_info []) UpdateDelete sample_flags = Inr e"
    using sample_key by (auto simp: tableEntryOf_def sample_applyMatch)
  then have run: "tableWrite sample_env UpdateDelete sample_flags [] = (?s, None)"
    by (simp add: tableWrite_def sample_pipeline WriteTableEntry_def Client_Write_def)
  have flag: "tableMatches sample_flags = map (\<lambda>m. fst m @ CHR ''='' # spec_text (snd m)) [(''port'', STernary ''0xff'' 255 ''1'' 1)]" by simp
  have "literal (''0x'' @ ''ff'') (hexNat ''ff'')" "literal ''1'' (decimalVal ''1'')"
    by (rule lit_hex lit_decimal; simp add: hexVal_def isDigit_def)+
  then have ok: "spec_ok (STernary ''0xff'' 255 ''1'' 1)" by (simp add: hexNat_def hexVal_def decimalVal_def)
  show ?thesis
    using tableWrite_correct [OF run, of "built sample_info []" sample_table, OF _ _ _ _ _ flag] ok
    by (auto simp: sample_pipeline sample_lookup sample_fields)
qed

end
