(* ===== verification/Packet_IO.thy ===== *)
theory Packet_IO
  imports Client_RPC Stream_Dispatch
begin

text \<open>
  Packets and digests over the stream: the senders of src/client/stream.go, package packetio
  (src/packetio/packetio.go) and package digest (src/digest/digest.go).

  \<open>Supervisor.Send\<close> is a parameter of the senders (its behaviour is the step relation of the theory of
  the supervisor). A Go map of metadata is an association list with distinct keys, in the order in
  which the loop of \<open>Send\<close> iterates it. The closures that packetio and digest register are data: a
  handler together with what the closure captured.
\<close>

subsection \<open>Senders of the client\<close>

record PacketOut_msg =
  pom_Payload :: bytes
  pom_Metadata :: "PacketMetadata_msg list"

record DigestListAck_msg =
  ack_DigestId :: uint32
  ack_ListId :: uint64

datatype stream_request =
    R_Packet PacketOut_msg
  | R_DigestAck DigestListAck_msg
  | R_Other

type_synonym 's stream_send = "'s \<Rightarrow> stream_request option \<Rightarrow> 's \<times> goerr option"

definition SendStreamRequest :: "'s stream_send \<Rightarrow> Client \<Rightarrow> stream_request option \<Rightarrow> 's \<Rightarrow> 's \<times> goerr option" where
  "SendStreamRequest send c req s = (if \<not> cl_primary c then (s, Some (Sentinel ErrNotPrimary)) else send s req)"

definition SendPacketOut :: "'s stream_send \<Rightarrow> Client \<Rightarrow> PacketOut_msg option \<Rightarrow> 's \<Rightarrow> 's \<times> goerr option" where
  "SendPacketOut send c pkt s =
     (case pkt of
        None \<Rightarrow> (s, Some (Errorf ''client.SendPacketOut: nil packet'' []))
      | Some p \<Rightarrow> SendStreamRequest send c (Some (R_Packet p)) s)"

definition SendDigestAck :: "'s stream_send \<Rightarrow> Client \<Rightarrow> DigestListAck_msg option \<Rightarrow> 's \<Rightarrow> 's \<times> goerr option" where
  "SendDigestAck send c ack s =
     (case ack of
        None \<Rightarrow> (s, Some (Errorf ''client.SendDigestAck: nil ack'' []))
      | Some a \<Rightarrow> SendStreamRequest send c (Some (R_DigestAck a)) s)"

subsection \<open>Package packetio\<close>

record Subscriber =
  sub_client :: Client
  sub_inMeta :: "ControllerPacketMetadataDef option"
  sub_outMeta :: "ControllerPacketMetadataDef option"

definition packetio_NewSubscriber :: "Client option \<Rightarrow> Pipeline option \<Rightarrow> goerr + Subscriber" where
  "packetio_NewSubscriber c p =
     (case (c, p) of
        (Some cl, Some pl) \<Rightarrow>
          Inr \<lparr>sub_client = cl, sub_inMeta = Pipeline_PacketMetadata (Some pl) ''packet_in'',
               sub_outMeta = Pipeline_PacketMetadata (Some pl) ''packet_out''\<rparr>
      | _ \<Rightarrow> Inl (Errorf ''packetio.NewSubscriber: nil client or pipeline'' []))"

record PacketIn =
  pin_Payload :: bytes
  pin_Metadata :: "string \<rightharpoonup> bytes"

record PacketOut =
  pout_Payload :: bytes
  pout_Metadata :: "(string \<times> bytes) list"

definition encodeMetadata :: "(string \<times> bytes) list \<Rightarrow> PacketMetadataField \<Rightarrow> goerr + PacketMetadata_msg" where
  "encodeMetadata md f =
     (case map_of md (pf_Name f) of
        None \<Rightarrow> Inl (Errorf ''packetio.Send: missing metadata %q'' [AStr (pf_Name f)])
      | Some v \<Rightarrow>
          bindE (mapErr (\<lambda>e. Errorf ''packetio.Send metadata %q: %w'' [AStr (pf_Name f), AErr e]) (EncodeBytes v (pf_Bitwidth f)))
            (\<lambda>canon. Inr \<lparr>pm_MetadataId = pf_ID f, pm_Value = canon\<rparr>))"

definition packetOutMessage :: "ControllerPacketMetadataDef option \<Rightarrow> PacketOut \<Rightarrow> goerr + PacketOut_msg" where
  "packetOutMessage outMeta out =
     (case outMeta of
        None \<Rightarrow>
          if length (pout_Metadata out) \<noteq> 0 then Inl (Errorf ''packetio.Send: metadata supplied without a packet_out definition'' [])
          else Inr \<lparr>pom_Payload = pout_Payload out, pom_Metadata = []\<rparr>
      | Some def \<Rightarrow>
          (case find (\<lambda>(name, _). ControllerPacketMetadataDef_Field outMeta name = None) (pout_Metadata out) of
             Some (name, _) \<Rightarrow> Inl (Errorf ''packetio.Send: unknown metadata %q'' [AStr name])
           | None \<Rightarrow>
               bindE (mapE (encodeMetadata (pout_Metadata out)) (cp_Metadata def)) (\<lambda>ms.
               Inr \<lparr>pom_Payload = pout_Payload out, pom_Metadata = ms\<rparr>)))"

definition packetio_Send :: "'s stream_send \<Rightarrow> Subscriber \<Rightarrow> PacketOut option \<Rightarrow> 's \<Rightarrow> 's \<times> goerr option" where
  "packetio_Send send sub out s =
     (case out of
        None \<Rightarrow> (s, Some (Errorf ''packetio.Send: nil packet'' []))
      | Some o' \<Rightarrow>
          (case packetOutMessage (sub_outMeta sub) o' of
             Inl e \<Rightarrow> (s, Some e)
           | Inr msg \<Rightarrow> SendPacketOut send (sub_client sub) (Some msg) s))"

text \<open>\<open>decode\<close>; a nil message has no payload and no metadata.\<close>

definition decodeMetadata :: "ControllerPacketMetadataDef option \<Rightarrow> PacketMetadata_msg list \<Rightarrow> (string \<rightharpoonup> bytes)" where
  "decodeMetadata inMeta ms =
     foldl (\<lambda>md m. case ControllerPacketMetadataDef_FieldByID inMeta (pm_MetadataId m) of
        None \<Rightarrow> md | Some f \<Rightarrow> md(pf_Name f \<mapsto> pm_Value m)) Map.empty ms"

definition packetio_decode :: "ControllerPacketMetadataDef option \<Rightarrow> PacketIn_msg option \<Rightarrow> PacketIn" where
  "packetio_decode inMeta msg =
     (let m = (case msg of None \<Rightarrow> \<lparr>pim_Payload = [], pim_Metadata = []\<rparr> | Some x \<Rightarrow> x) in
      if inMeta = None then \<lparr>pin_Payload = pim_Payload m, pin_Metadata = Map.empty\<rparr>
      else \<lparr>pin_Payload = pim_Payload m, pin_Metadata = decodeMetadata inMeta (pim_Metadata m)\<rparr>)"

text \<open>\<open>OnPacket\<close> registers the handler with the metadata it decodes with; \<open>runPacketHandler\<close> is its closure.\<close>

definition OnPacket :: "Subscriber \<Rightarrow> 'h \<Rightarrow> (ControllerPacketMetadataDef option \<times> 'h) dispatchSlots \<Rightarrow>
    (ControllerPacketMetadataDef option \<times> 'h) dispatchSlots \<times> uint64" where
  "OnPacket sub h d = addPacketIn (sub_inMeta sub, h) d"

definition runPacketHandler :: "('h \<Rightarrow> PacketIn \<Rightarrow> 's \<Rightarrow> 's) \<Rightarrow> ControllerPacketMetadataDef option \<times> 'h \<Rightarrow>
    PacketIn_msg option \<Rightarrow> 's \<Rightarrow> 's" where
  "runPacketHandler call dh msg = call (snd dh) (packetio_decode (fst dh) msg)"

subsection \<open>Package digest\<close>

definition digest_NewSubscriber :: "Client option \<Rightarrow> Pipeline option \<Rightarrow> goerr + Client \<times> Pipeline" where
  "digest_NewSubscriber c p =
     (case (c, p) of
        (Some cl, Some pl) \<Rightarrow> Inr (cl, pl)
      | _ \<Rightarrow> Inl (Errorf ''digest.NewSubscriber: nil client or pipeline'' []))"

text \<open>The registered closure is the name, the wanted ID and the handler. A nil handler is \<open>None\<close>.\<close>

definition digest_Subscribe :: "Pipeline \<Rightarrow> string \<Rightarrow> 'h option \<Rightarrow> (string \<times> uint32 \<times> 'h) dispatchSlots \<Rightarrow>
    goerr + (string \<times> uint32 \<times> 'h) dispatchSlots \<times> uint64" where
  "digest_Subscribe p name h d =
     (case h of
        None \<Rightarrow> Inl (Errorf ''digest.Subscribe: nil handler'' [])
      | Some h' \<Rightarrow>
          bindE (if name = '''' then Inr 0
                 else case Pipeline_Digest (Some p) name of
                        None \<Rightarrow> Inl (Errorf ''digest.Subscribe: unknown digest %q'' [AStr name])
                      | Some def \<Rightarrow>
                          if d_ID def = 0 then Inl (Errorf ''digest.Subscribe: digest %q has zero ID'' [AStr name])
                          else Inr (d_ID def)) (\<lambda>wanted.
          Inr (addDigestList (name, wanted, h') d)))"

definition runDigestHandler :: "('h \<Rightarrow> DigestList_msg \<Rightarrow> 's \<Rightarrow> 's) \<Rightarrow> string \<times> uint32 \<times> 'h \<Rightarrow> DigestList_msg option \<Rightarrow> 's \<Rightarrow> 's" where
  "runDigestHandler call closure msg s =
     (case closure of (name, wanted, h) \<Rightarrow>
        (case msg of
           None \<Rightarrow> s
         | Some m \<Rightarrow> if name \<noteq> '''' \<and> dl_DigestId m \<noteq> wanted then s else call h m s))"

text \<open>\<open>OnDigest\<close>: an invalid subscription registers nothing; the closure of a valid one cancels it.\<close>

definition digest_OnDigest :: "Pipeline \<Rightarrow> string \<Rightarrow> 'h option \<Rightarrow> (string \<times> uint32 \<times> 'h) dispatchSlots \<Rightarrow>
    (string \<times> uint32 \<times> 'h) dispatchSlots \<times> uint64 option" where
  "digest_OnDigest p name h d =
     (case digest_Subscribe p name h d of Inl _ \<Rightarrow> (d, None) | Inr (d', off) \<Rightarrow> (d', Some off))"

definition digest_Ack :: "'s stream_send \<Rightarrow> Client \<Rightarrow> Pipeline \<Rightarrow> DigestList_msg option \<Rightarrow> 's \<Rightarrow> 's \<times> goerr option" where
  "digest_Ack send c p msg s =
     (case msg of
        None \<Rightarrow> (s, Some (Errorf ''digest.Ack: nil message'' []))
      | Some m \<Rightarrow>
          if dl_DigestId m = 0 \<or> Pipeline_DigestByID (Some p) (dl_DigestId m) = None then
            (s, Some (Errorf ''digest.Ack: unknown digest ID %#x'' [AInt (uint (dl_DigestId m))]))
          else SendDigestAck send c (Some \<lparr>ack_DigestId = dl_DigestId m, ack_ListId = dl_ListId m\<rparr>) s)"

subsection \<open>The metadata of a packet\<close>

text \<open>The metadata that \<open>Send\<close> accepts: exactly the declared names, each with a value that fits.\<close>

definition metadata_ok :: "PacketMetadataField list \<Rightarrow> (string \<times> bytes) list \<Rightarrow> bool" where
  "metadata_ok fs md \<longleftrightarrow> fst ` set md = pf_Name ` set fs \<and>
     (\<forall>f\<in>set fs. 0 < pf_Bitwidth f \<and> be_nat (the (map_of md (pf_Name f))) < 2 ^ nat (pf_Bitwidth f))"

text \<open>Widths are 32-bit, so they are within the range of the codec.\<close>

abbreviation widths_ok :: "PacketMetadataField list \<Rightarrow> bool" where
  "widths_ok fs \<equiv> (\<forall>f\<in>set fs. pf_Bitwidth f < 2 ^ 31)"

abbreviation encodedMetadata :: "(string \<times> bytes) list \<Rightarrow> PacketMetadataField \<Rightarrow> PacketMetadata_msg" where
  "encodedMetadata md f \<equiv> \<lparr>pm_MetadataId = pf_ID f, pm_Value = projr (EncodeBytes (the (map_of md (pf_Name f))) (pf_Bitwidth f))\<rparr>"

lemma EncodeBytes_isOk: "w < 2 ^ 31 \<Longrightarrow> isOk (EncodeBytes v w) \<longleftrightarrow> 0 < w \<and> be_nat v < 2 ^ nat w"
  using ubytes.encode_ok [of w v] by (cases "0 < w") (auto simp: EncodeBytes_def)

lemma encodeMetadata_iff:
  assumes "pf_Bitwidth f < 2 ^ 31"
  shows "encodeMetadata md f = Inr m \<longleftrightarrow> pf_Name f \<in> fst ` set md \<and> 0 < pf_Bitwidth f \<and>
    be_nat (the (map_of md (pf_Name f))) < 2 ^ nat (pf_Bitwidth f) \<and> m = encodedMetadata md f"
proof (cases "map_of md (pf_Name f)")
  case None
  then have "pf_Name f \<notin> fst ` set md" by (simp add: map_of_eq_None_iff)
  with None show ?thesis by (simp add: encodeMetadata_def)
next
  case (Some v)
  then have "pf_Name f \<in> fst ` set md" by (force dest: map_of_SomeD)
  then show ?thesis using Some EncodeBytes_isOk [OF assms, of v]
    by (cases "EncodeBytes v (pf_Bitwidth f)") (auto simp: encodeMetadata_def)
qed

lemma packetOutMessage_iff:
  assumes "packet_wf def" "widths_ok (cp_Metadata def)"
  shows "packetOutMessage (Some def) out = Inr m \<longleftrightarrow> metadata_ok (cp_Metadata def) (pout_Metadata out) \<and>
    m = \<lparr>pom_Payload = pout_Payload out, pom_Metadata = map (encodedMetadata (pout_Metadata out)) (cp_Metadata def)\<rparr>"
proof -
  let ?md = "pout_Metadata out" and ?fs = "cp_Metadata def"
  have "ControllerPacketMetadataDef_Field (Some def) n = None \<longleftrightarrow> n \<notin> pf_Name ` set ?fs" for n
    using assms(1) by (simp add: ControllerPacketMetadataDef_Field_def packet_wf_def index_by_None_iff)
  then have unknown: "find (\<lambda>(n, _). ControllerPacketMetadataDef_Field (Some def) n = None) ?md = None \<longleftrightarrow>
      fst ` set ?md \<subseteq> pf_Name ` set ?fs"
    by (auto simp: find_None_iff)
  have "mapE (encodeMetadata ?md) ?fs = Inr ms \<longleftrightarrow>
      (\<forall>f\<in>set ?fs. pf_Name f \<in> fst ` set ?md \<and> 0 < pf_Bitwidth f \<and> be_nat (the (map_of ?md (pf_Name f))) < 2 ^ nat (pf_Bitwidth f)) \<and>
      ms = map (encodedMetadata ?md) ?fs" for ms
    using assms(2) by (intro mapE_Inr_map) (auto simp: encodeMetadata_iff)
  then show ?thesis using unknown
    by (cases "find (\<lambda>(n, _). ControllerPacketMetadataDef_Field (Some def) n = None) ?md")
      (auto simp: packetOutMessage_def metadata_ok_def bindE_Inr_iff)
qed

text \<open>Decoding metadata with distinct identifiers and names gives each field its own value.\<close>

lemma decodeMetadata_fields:
  assumes "packet_wf def" "distinct (map pf_ID (cp_Metadata def))" "set fs \<subseteq> set (cp_Metadata def)" "distinct (map pf_Name fs)"
  shows "foldl (\<lambda>md m. case ControllerPacketMetadataDef_FieldByID (Some def) (pm_MetadataId m) of
      None \<Rightarrow> md | Some f \<Rightarrow> md(pf_Name f \<mapsto> pm_Value m)) acc (map (\<lambda>f. \<lparr>pm_MetadataId = pf_ID f, pm_Value = g f\<rparr>) fs) =
    acc ++ map_of (map (\<lambda>f. (pf_Name f, g f)) fs)"
  using assms(3,4)
proof (induction fs arbitrary: acc)
  case (Cons f fs)
  let ?F = "\<lambda>acc fs. foldl (\<lambda>md m. case ControllerPacketMetadataDef_FieldByID (Some def) (pm_MetadataId m) of
      None \<Rightarrow> md | Some f \<Rightarrow> md(pf_Name f \<mapsto> pm_Value m)) acc (map (\<lambda>f. \<lparr>pm_MetadataId = pf_ID f, pm_Value = g f\<rparr>) fs)"
  have "ControllerPacketMetadataDef_FieldByID (Some def) (pf_ID f) = Some f"
    using assms(1,2) Cons.prems(1)
    by (simp add: ControllerPacketMetadataDef_FieldByID_def packet_wf_def index_by_distinct)
  then have "?F acc (f # fs) = ?F (acc(pf_Name f \<mapsto> g f)) fs" by simp
  also have "\<dots> = acc(pf_Name f \<mapsto> g f) ++ map_of (map (\<lambda>f. (pf_Name f, g f)) fs)"
    using Cons.prems by (intro Cons.IH) simp_all
  also have "acc(pf_Name f \<mapsto> g f) ++ map_of (map (\<lambda>f. (pf_Name f, g f)) fs) =
      acc ++ map_of (map (\<lambda>f. (pf_Name f, g f)) (f # fs))"
  proof -
    have "pf_Name f \<notin> dom (map_of (map (\<lambda>f. (pf_Name f, g f)) fs))"
      using Cons.prems(2) by (auto simp: dom_map_of_conv_image_fst)
    from map_add_upd_left [OF this] show ?thesis by (simp only: list.map map_of.simps fst_conv snd_conv map_add_upd)
  qed
  finally show ?case .
qed simp

subsection \<open>Properties\<close>

text \<open>C18. Sending a packet with metadata: \<open>packetio.Send\<close> accepts exactly the packets whose metadata names
  are the declared ones and whose values fit the declared widths, and then sends one message with the
  payload and one shortest value for every declared field, in the declared order; any other packet,
  and any packet of a client that is not primary, sends nothing and is an error. When identifiers
  and names are distinct, \<open>decode\<close> with the same declaration returns the payload and, for every declared
  name and no other, the value that was sent.\<close>

theorem packetio_roundtrip:
  assumes "packet_wf def" "widths_ok (cp_Metadata def)" "sub_outMeta sub = Some def"
  shows "(metadata_ok (cp_Metadata def) (pout_Metadata out) \<and> cl_primary (sub_client sub) \<longrightarrow>
      (\<exists>msg. packetio_Send send sub (Some out) s = send s (Some (R_Packet msg)) \<and> pom_Payload msg = pout_Payload out \<and>
        map pm_MetadataId (pom_Metadata msg) = map pf_ID (cp_Metadata def) \<and>
        (distinct (map pf_ID (cp_Metadata def)) \<and> distinct (map pf_Name (cp_Metadata def)) \<longrightarrow>
          (let decoded = packetio_decode (Some def) (Some \<lparr>pim_Payload = pom_Payload msg, pim_Metadata = pom_Metadata msg\<rparr>) in
           pin_Payload decoded = pout_Payload out \<and> dom (pin_Metadata decoded) = pf_Name ` set (cp_Metadata def) \<and>
           (\<forall>f\<in>set (cp_Metadata def). \<exists>v c. map_of (pout_Metadata out) (pf_Name f) = Some v \<and>
              pin_Metadata decoded (pf_Name f) = Some c \<and> canonical c \<and> be_nat c = be_nat v))))) \<and>
    (\<not> (metadata_ok (cp_Metadata def) (pout_Metadata out) \<and> cl_primary (sub_client sub)) \<longrightarrow>
      fst (packetio_Send send sub (Some out) s) = s \<and> snd (packetio_Send send sub (Some out) s) \<noteq> None)"
proof (intro conjI impI)
  let ?md = "pout_Metadata out" and ?fs = "cp_Metadata def"
  assume ok: "metadata_ok ?fs ?md \<and> cl_primary (sub_client sub)"
  define msg where "msg = \<lparr>pom_Payload = pout_Payload out, pom_Metadata = map (encodedMetadata ?md) ?fs\<rparr>"
  have payload: "pom_Payload msg = pout_Payload out" "map pm_MetadataId (pom_Metadata msg) = map pf_ID ?fs"
      "\<And>x y. pin_Payload (packetio_decode (Some def) (Some \<lparr>pim_Payload = x, pim_Metadata = y\<rparr>)) = x"
    by (simp_all add: msg_def packetio_decode_def Let_def)
  have "packetOutMessage (Some def) out = Inr msg" using packetOutMessage_iff [OF assms(1,2)] ok by (simp add: msg_def)
  then have "packetio_Send send sub (Some out) s = send s (Some (R_Packet msg))"
    using ok assms(3) by (simp add: packetio_Send_def SendPacketOut_def SendStreamRequest_def)
  moreover have "pin_Metadata (packetio_decode (Some def) (Some \<lparr>pim_Payload = pom_Payload msg, pim_Metadata = pom_Metadata msg\<rparr>)) =
      map_of (map (\<lambda>f. (pf_Name f, pm_Value (encodedMetadata ?md f))) ?fs)"
    if "distinct (map pf_ID ?fs)" "distinct (map pf_Name ?fs)"
    using decodeMetadata_fields [OF assms(1) that(1) subset_refl that(2)] by (simp add: packetio_decode_def decodeMetadata_def msg_def)
  moreover have "\<exists>v c. map_of ?md (pf_Name f) = Some v \<and>
      map_of (map (\<lambda>f. (pf_Name f, pm_Value (encodedMetadata ?md f))) ?fs) (pf_Name f) = Some c \<and> canonical c \<and> be_nat c = be_nat v"
    if dist: "distinct (map pf_Name ?fs)" and f: "f \<in> set ?fs" for f
  proof -
    obtain v where v: "map_of ?md (pf_Name f) = Some v"
      using ok f by (metis metadata_ok_def imageI map_of_eq_None_iff not_None_eq)
    have "isOk (EncodeBytes v (pf_Bitwidth f))"
      using EncodeBytes_isOk [of "pf_Bitwidth f" v] assms(2) ok f v by (auto simp: metadata_ok_def)
    then obtain c where c: "EncodeBytes v (pf_Bitwidth f) = Inr c" by (auto simp: isOk_iff)
    have "map_of (map (\<lambda>f. (pf_Name f, pm_Value (encodedMetadata ?md f))) ?fs) (pf_Name f) = Some c"
      using dist f c v by (intro map_of_is_SomeI) (auto simp: comp_def intro!: image_eqI [of _ _ f])
    then show ?thesis using v c ubytes.encode_val ubytes.encode_canon by blast
  qed
  ultimately show "\<exists>msg. packetio_Send send sub (Some out) s = send s (Some (R_Packet msg)) \<and> pom_Payload msg = pout_Payload out \<and>
        map pm_MetadataId (pom_Metadata msg) = map pf_ID ?fs \<and>
        (distinct (map pf_ID ?fs) \<and> distinct (map pf_Name ?fs) \<longrightarrow>
          (let decoded = packetio_decode (Some def) (Some \<lparr>pim_Payload = pom_Payload msg, pim_Metadata = pom_Metadata msg\<rparr>) in
           pin_Payload decoded = pout_Payload out \<and> dom (pin_Metadata decoded) = pf_Name ` set ?fs \<and>
           (\<forall>f\<in>set ?fs. \<exists>v c. map_of ?md (pf_Name f) = Some v \<and>
              pin_Metadata decoded (pf_Name f) = Some c \<and> canonical c \<and> be_nat c = be_nat v)))"
    by (intro exI [of _ msg]) (simp add: Let_def payload image_image dom_map_of_conv_image_fst)
next
  let ?md = "pout_Metadata out" and ?fs = "cp_Metadata def"
  assume no: "\<not> (metadata_ok ?fs ?md \<and> cl_primary (sub_client sub))"
  have "\<exists>e. packetio_Send send sub (Some out) s = (s, Some e)"
    using packetOutMessage_iff [OF assms(1,2), of out] no assms(3)
    by (cases "packetOutMessage (Some def) out") (auto simp: packetio_Send_def SendPacketOut_def SendStreamRequest_def)
  then show "fst (packetio_Send send sub (Some out) s) = s" "snd (packetio_Send send sub (Some out) s) \<noteq> None" by auto
qed

text \<open>C34. Digest subscriptions and acknowledgements: a subscription by the name or alias of a declared
  digest with a non-zero ID, or with the empty name, registers one handler, which is called for exactly
  the non-nil lists of that digest (of every digest for the empty name); any other subscription
  registers nothing. An acknowledgement is sent, with the identifiers of the list, exactly for a list
  of a declared digest with a non-zero ID by a primary client.\<close>

theorem digest_correct:
  "(case digest_Subscribe p name (Some h) d of
      Inr (d', off) \<Rightarrow>
        (name = '''' \<or> (\<exists>def. Pipeline_Digest (Some p) name = Some def \<and> d_ID def \<noteq> 0)) \<and>
        (ds_nextID d \<notin> fst ` set (ds_digestList d) \<longrightarrow>
           (\<exists>wanted. ds_digestList d' = ds_digestList d @ [(off, name, wanted, h)] \<and> ds_digestList (cancelDigestList off d') = ds_digestList d \<and>
              (\<forall>call msg s. runDigestHandler call (name, wanted, h) msg s =
                 (case msg of None \<Rightarrow> s | Some m \<Rightarrow>
                    if name = '''' \<or> (\<exists>def. Pipeline_Digest (Some p) name = Some def \<and> d_ID def = dl_DigestId m) then call h m s else s))))
    | Inl e \<Rightarrow> name \<noteq> '''' \<and> (\<nexists>def. Pipeline_Digest (Some p) name = Some def \<and> d_ID def \<noteq> 0) \<and> digest_OnDigest p name (Some h) d = (d, None)) \<and>
   (if dl_DigestId m \<noteq> 0 \<and> Pipeline_DigestByID (Some p) (dl_DigestId m) \<noteq> None \<and> cl_primary c
    then digest_Ack send c p (Some m) s = send s (Some (R_DigestAck \<lparr>ack_DigestId = dl_DigestId m, ack_ListId = dl_ListId m\<rparr>))
    else fst (digest_Ack send c p (Some m) s) = s \<and> snd (digest_Ack send c p (Some m) s) \<noteq> None)"
  (is "?sub \<and> ?ack")
proof
  show ?ack by (auto simp: digest_Ack_def SendDigestAck_def SendStreamRequest_def)
  show ?sub
  proof (cases "digest_Subscribe p name (Some h) d")
    case (Inl e)
    then show ?thesis
      by (auto simp: digest_Subscribe_def digest_OnDigest_def bindE_Inl_iff split: if_splits option.splits)
  next
    case (Inr r)
    obtain d' off where r: "r = (d', off)" by (cases r)
    obtain wanted where w: "addDigestList (name, wanted, h) d = (d', off)"
        "name = [] \<or> (\<exists>def. Pipeline_Digest (Some p) name = Some def \<and> d_ID def \<noteq> 0 \<and> wanted = d_ID def)"
      using Inr r by (auto simp: digest_Subscribe_def bindE_Inr_iff split: if_splits option.splits)
    note add = digestList.add_id [of "(name, wanted, h)" d] digestList.add_fresh [of d "(name, wanted, h)"]
      digestList.cancel_add [of d "(name, wanted, h)"]
    show ?thesis using Inr r w add
      by (auto simp: runDigestHandler_def fun_eq_iff intro!: exI [of _ wanted] split: option.splits)
  qed
qed

abbreviation sample_packet_def :: ControllerPacketMetadataDef where
  "sample_packet_def \<equiv> newPacketMetadataDef \<lparr>cpm_preamble = Some \<lparr>pre_id = 5, pre_name = ''packet_out'', pre_alias = ''''\<rparr>,
     cpm_metadata = [\<lparr>prm_id = 1, prm_name = ''egress_port'', prm_bitwidth = 9\<rparr>, \<lparr>prm_id = 2, prm_name = ''pad'', prm_bitwidth = 7\<rparr>]\<rparr>"

theorem packetio_roundtrip_witness:
  "\<exists>msg. packetio_Send (\<lambda>log req. (log @ [req], None)) \<lparr>sub_client = sample_client, sub_inMeta = None, sub_outMeta = Some sample_packet_def\<rparr>
       (Some \<lparr>pout_Payload = [1, 2, 3], pout_Metadata = [(''pad'', []), (''egress_port'', [0, 1, 4])]\<rparr>) [] = ([Some (R_Packet msg)], None) \<and>
     map pm_MetadataId (pom_Metadata msg) = [1, 2]"
proof -
  let ?out = "\<lparr>pout_Payload = [1, 2, 3], pout_Metadata = [(''pad'', []), (''egress_port'', [0, 1, 4])]\<rparr>"
  have wf: "packet_wf sample_packet_def" by (rule new_wf)
  have fs: "cp_Metadata sample_packet_def = [\<lparr>pf_ID = 1, pf_Name = ''egress_port'', pf_Bitwidth = 9\<rparr>, \<lparr>pf_ID = 2, pf_Name = ''pad'', pf_Bitwidth = 7\<rparr>]"
    by (simp add: newPacketMetadataDef_def Let_def)
  have "metadata_ok (cp_Metadata sample_packet_def) (pout_Metadata ?out)"
    unfolding fs by (auto simp: metadata_ok_def be_nat_def)
  moreover have "widths_ok (cp_Metadata sample_packet_def)" unfolding fs by simp
  ultimately show ?thesis
    using packetio_roundtrip [OF wf, of "\<lparr>sub_client = sample_client, sub_inMeta = None, sub_outMeta = Some sample_packet_def\<rparr>"
        ?out "\<lambda>log req. (log @ [req], None)" "[]"] fs by auto
qed

theorem digest_correct_witness:
  "digest_Ack (\<lambda>log req. (log @ [req], None)) sample_client (built sample_info []) (Some \<lparr>dl_DigestId = 0, dl_ListId = 3\<rparr>) [] \<noteq> ([], None)"
proof -
  have "snd (digest_Ack (\<lambda>log req. (log @ [req], None)) sample_client (built sample_info []) (Some \<lparr>dl_DigestId = 0, dl_ListId = 3\<rparr>) []) \<noteq> None"
    using digest_correct [where p = "built sample_info []" and name = "''x''" and h = "()" and d = newDispatch and
        m = "\<lparr>dl_DigestId = 0, dl_ListId = 3\<rparr>" and c = sample_client and send = "\<lambda>log req. (log @ [req], None)" and s = "[]", THEN conjunct2]
    by simp
  then show ?thesis by auto
qed

end
