(* ===== verification/Session.thy ===== *)
theory Session
  imports Supervisor "HOL-Library.Sublist"
begin

text \<open>
  The client session (src/client/client.go and src/client/options.go): the options and how they
  become dial options and a supervisor configuration, \<open>Dial\<close> with its wait, the forwarding of events,
  \<open>Close\<close>, and \<open>BecomePrimary\<close>, which waits on the state of the supervisor while its main loop and the
  other callers run: \<open>session_step\<close> interleaves it with \<open>sup_step\<close>.

  What gRPC and TLS provide (credentials, interceptors, raw dial options) is opaque data of type
  \<open>'x\<close>. The periodic poll of \<open>Dial\<close> is a sequence of observations: the state of the supervisor and what
  the \<^verbatim>\<open>select\<close> chose.
\<close>

subsection \<open>Options\<close>

text \<open>A TLS configuration: its minimal version and the rest. \<open>credentials.NewTLS\<close> and
  \<open>insecure.NewCredentials\<close> are constructors.\<close>

record 'x tls_Config =
  tls_MinVersion :: int
  tls_rest :: 'x

abbreviation (input) VersionTLS12 :: int where "VersionTLS12 \<equiv> 0x0303"

datatype 'x credentials = InsecureCreds | TLSCreds "'x tls_Config" | CustomCreds 'x

datatype 'x DialOption =
    WithTransportCredentials "'x credentials"
  | WithKeepaliveParams int int bool
  | WithDefaultCallOptions int int
  | WithChainUnaryInterceptor "'x list"
  | WithChainStreamInterceptor "'x list"
  | RawDialOption 'x

record 'x options =
  o_deviceID :: uint64
  o_electionID :: ElectionID
  o_role :: string
  o_tlsConfig :: "'x tls_Config option"
  o_credentials :: "'x credentials option"
  o_keepaliveTime :: int
  o_keepaliveTimeout :: int
  o_backoffInitial :: int
  o_backoffMax :: int
  o_arbitrationTO :: int
  o_maxRecvSize :: int
  o_maxSendSize :: int
  o_dialOpts :: "'x list"
  o_unaryInts :: "'x list"
  o_streamInts :: "'x list"

definition defaultOptions :: "'x options" where
  "defaultOptions = \<lparr>o_deviceID = 0, o_electionID = ElectionID 0 0, o_role = '''', o_tlsConfig = None, o_credentials = None,
     o_keepaliveTime = 30000000000, o_keepaliveTimeout = 10000000000,
     o_backoffInitial = 500000000, o_backoffMax = 30000000000, o_arbitrationTO = 10000000000,
     o_maxRecvSize = 32 * 1024 * 1024, o_maxSendSize = 32 * 1024 * 1024,
     o_dialOpts = [], o_unaryInts = [], o_streamInts = []\<rparr>"

definition WithDeviceID :: "uint64 \<Rightarrow> 'x options \<Rightarrow> 'x options" where
  "WithDeviceID i o' = o'\<lparr>o_deviceID := i\<rparr>"
definition WithElectionID :: "ElectionID \<Rightarrow> 'x options \<Rightarrow> 'x options" where
  "WithElectionID i o' = o'\<lparr>o_electionID := i\<rparr>"
definition WithRole :: "string \<Rightarrow> 'x options \<Rightarrow> 'x options" where
  "WithRole name o' = o'\<lparr>o_role := name\<rparr>"
definition WithTLS :: "'x tls_Config option \<Rightarrow> 'x options \<Rightarrow> 'x options" where
  "WithTLS cfg o' =
     (case cfg of
        None \<Rightarrow> o'
      | Some c \<Rightarrow>
          let clone = (if tls_MinVersion c = 0 then c\<lparr>tls_MinVersion := VersionTLS12\<rparr> else c) in
          o'\<lparr>o_tlsConfig := Some clone, o_credentials := Some (TLSCreds clone)\<rparr>)"
definition WithInsecure :: "'x options \<Rightarrow> 'x options" where
  "WithInsecure o' = o'\<lparr>o_tlsConfig := None, o_credentials := Some InsecureCreds\<rparr>"
definition WithCredentials :: "'x credentials option \<Rightarrow> 'x options \<Rightarrow> 'x options" where
  "WithCredentials c o' = o'\<lparr>o_credentials := c\<rparr>"
definition WithKeepalive :: "int \<Rightarrow> int \<Rightarrow> 'x options \<Rightarrow> 'x options" where
  "WithKeepalive pingEvery timeout o' = o'\<lparr>o_keepaliveTime := pingEvery, o_keepaliveTimeout := timeout\<rparr>"
definition WithReconnectBackoff :: "int \<Rightarrow> int \<Rightarrow> 'x options \<Rightarrow> 'x options" where
  "WithReconnectBackoff initial mx o' = o'\<lparr>o_backoffInitial := initial, o_backoffMax := mx\<rparr>"
definition WithArbitrationTimeout :: "int \<Rightarrow> 'x options \<Rightarrow> 'x options" where
  "WithArbitrationTimeout d o' = o'\<lparr>o_arbitrationTO := d\<rparr>"
definition WithMaxMessageSize :: "int \<Rightarrow> 'x options \<Rightarrow> 'x options" where
  "WithMaxMessageSize n o' = o'\<lparr>o_maxRecvSize := n, o_maxSendSize := n\<rparr>"
definition WithDialOptions :: "'x list \<Rightarrow> 'x options \<Rightarrow> 'x options" where
  "WithDialOptions opts o' = o'\<lparr>o_dialOpts := o_dialOpts o' @ opts\<rparr>"
definition WithUnaryInterceptor :: "'x \<Rightarrow> 'x options \<Rightarrow> 'x options" where
  "WithUnaryInterceptor ic o' = o'\<lparr>o_unaryInts := o_unaryInts o' @ [ic]\<rparr>"
definition WithStreamInterceptor :: "'x \<Rightarrow> 'x options \<Rightarrow> 'x options" where
  "WithStreamInterceptor ic o' = o'\<lparr>o_streamInts := o_streamInts o' @ [ic]\<rparr>"

definition buildGRPCDialOptions :: "'x options \<Rightarrow> 'x DialOption list" where
  "buildGRPCDialOptions o' =
     (let creds = (case o_credentials o' of None \<Rightarrow> InsecureCreds | Some c \<Rightarrow> c);
          out = [WithTransportCredentials creds, WithKeepaliveParams (o_keepaliveTime o') (o_keepaliveTimeout o') True,
                 WithDefaultCallOptions (o_maxRecvSize o') (o_maxSendSize o')];
          out = (if length (o_unaryInts o') > 0 then out @ [WithChainUnaryInterceptor (o_unaryInts o')] else out);
          out = (if length (o_streamInts o') > 0 then out @ [WithChainStreamInterceptor (o_streamInts o')] else out)
      in out @ map RawDialOption (o_dialOpts o'))"

subsection \<open>The wait of Dial\<close>

definition supervisorConfig :: "'x options \<Rightarrow> Config" where
  "supervisorConfig o' =
     \<lparr>cfg_DeviceID = o_deviceID o', cfg_ElectionHigh = High (o_electionID o'), cfg_ElectionLow = Low (o_electionID o'),
      cfg_Role = o_role o', cfg_ArbitrationTimeout = o_arbitrationTO o', cfg_BackoffInitial = o_backoffInitial o',
      cfg_BackoffMax = o_backoffMax o'\<rparr>"

text \<open>What ends one round of the poll: the caller's context, the deadline, or the 25 ms timer.\<close>

datatype dial_event = DialCtx goerr | DialDeadline | DialTick

datatype dial_outcome = DialReady | DialFailed goerr

text \<open>The poll over the observations, round by round; \<open>None\<close> if every round only ticks. A failure closes
  the client.\<close>

partial_function (option) dialWait :: "(nat \<Rightarrow> State \<times> dial_event) \<Rightarrow> nat \<Rightarrow> dial_outcome option" where
  "dialWait obs i =
     (case obs i of (st, ev) \<Rightarrow>
        if st = StatePrimary \<or> st = StateBackup then Some DialReady
        else (case ev of
            DialCtx e \<Rightarrow> Some (DialFailed e)
          | DialDeadline \<Rightarrow> Some (DialFailed (Errorf ''client.Dial: %w'' [AErr (Sentinel ErrArbitrationFailed)]))
          | DialTick \<Rightarrow> dialWait obs (Suc i)))"

text \<open>The duration of the deadline timer; \<open>time.Duration\<close> is 64-bit and wraps.\<close>

definition dialDeadline :: "'x options \<Rightarrow> int" where
  "dialDeadline o' = wrap64 (o_arbitrationTO o' + 2000000000)"

subsection \<open>Events and Close\<close>

text \<open>One round of \<open>forwardEvents\<close>: the next event of the supervisor goes to the buffer of the client, or is
  dropped when that is full.\<close>

definition forwardEvent :: "Event \<Rightarrow> Event list \<Rightarrow> Event list" where
  "forwardEvent ev buf = (if length buf < chan_cap then buf @ [ev] else buf)"

text \<open>\<open>Close\<close>: the first call cancels the context, stops the supervisor, closes the connection (with the
  error \<open>connErr\<close>) and closes \<open>closed\<close>; further calls do nothing.\<close>

record close_state =
  cs_once :: bool
  cs_cancelled :: bool
  cs_supStopped :: bool
  cs_connCloses :: nat
  cs_closed :: bool

definition Client_Close :: "goerr option \<Rightarrow> close_state \<Rightarrow> close_state \<times> goerr option" where
  "Client_Close connErr c =
     (if cs_once c then (c, None)
      else (c\<lparr>cs_once := True, cs_cancelled := True, cs_supStopped := True, cs_connCloses := cs_connCloses c + 1, cs_closed := True\<rparr>, connErr))"

text \<open>\<open>errors.Join\<close> as the list of the errors it wraps; nil is the empty list.\<close>

definition Client_CloseGracefully :: "goerr option \<Rightarrow> goerr option \<Rightarrow> close_state \<Rightarrow> close_state \<times> goerr list" where
  "Client_CloseGracefully supErr connErr c =
     (case Client_Close connErr c of (c', closeErr) \<Rightarrow> (c', List.map_filter id [supErr, closeErr]))"

subsection \<open>Dial with its wait\<close>

text \<open>\<open>grpc.NewClient\<close> is the parameter \<open>newClient\<close>: for an address and dial options an error, or a connection, whose \<open>Close\<close> answers
  \<open>connErr\<close>. The result is \<open>None\<close> while \<open>Dial\<close> waits; otherwise what became of the client it made, if any, and
  an error, or the connection and the supervisor's configuration.\<close>

definition newClient_state :: close_state where
  "newClient_state = \<lparr>cs_once = False, cs_cancelled = False, cs_supStopped = False, cs_connCloses = 0, cs_closed = False\<rparr>"

definition Dial :: "(string \<Rightarrow> 'x DialOption list \<Rightarrow> goerr + 'conn) \<Rightarrow> goerr option \<Rightarrow> string \<Rightarrow> ('x options \<Rightarrow> 'x options) list \<Rightarrow>
    (nat \<Rightarrow> State \<times> dial_event) \<Rightarrow> (close_state option \<times> (goerr + 'conn \<times> Config)) option" where
  "Dial newClient connErr addr opts obs =
     (let o' = foldl (\<lambda>o' f. f o') defaultOptions opts in
      if o_deviceID o' = 0 then
        Some (None, Inl (Errorf ''client.Dial: %w'' [AErr (NewErr ''device ID required (use WithDeviceID)'')]))
      else if IsZero (o_electionID o') then
        Some (None, Inl (Errorf ''client.Dial: %w'' [AErr (Sentinel ErrElectionIDZero)]))
      else case newClient addr (buildGRPCDialOptions o') of
        Inl err \<Rightarrow> Some (None, Inl (Errorf ''grpc.NewClient: %w'' [AErr err]))
      | Inr conn \<Rightarrow>
          (case dialWait obs 0 of
             None \<Rightarrow> None
           | Some DialReady \<Rightarrow> Some (Some newClient_state, Inr (conn, supervisorConfig o'))
           | Some (DialFailed e) \<Rightarrow> Some (Some (fst (Client_Close connErr newClient_state)), Inl e)))"

subsection \<open>BecomePrimary\<close>

datatype bp_phase = BPTop | BPWatch | BPWait nat | BPDone "goerr option"

record Session =
  ss_sup :: Supervisor
  ss_bp :: bp_phase
  ss_ctxErr :: "goerr option"
  ss_clientCtx :: bool
  ss_closed :: bool

definition session_init :: "Session" where
  "session_init = \<lparr>ss_sup = sup_New, ss_bp = BPTop, ss_ctxErr = None, ss_clientCtx = False, ss_closed = False\<rparr>"

inductive session_step :: "Config \<Rightarrow> Session \<Rightarrow> Session \<Rightarrow> bool" for cfg where
  \<comment> \<open>the supervisor and its callers; contexts end; \<open>Close\<close> cancels, and closes \<open>closed\<close> later\<close>
  session_sup: "sup_step cfg (ss_sup s) t \<Longrightarrow> session_step cfg s (s\<lparr>ss_sup := t\<rparr>)"
| session_ctx: "e \<in> {CtxCanceled, CtxDeadlineExceeded} \<Longrightarrow> ss_ctxErr s = None \<Longrightarrow> session_step cfg s (s\<lparr>ss_ctxErr := Some e\<rparr>)"
| session_cancel: "session_step cfg s (s\<lparr>ss_clientCtx := True\<rparr>)"
| session_closed: "ss_clientCtx s \<Longrightarrow> session_step cfg s (s\<lparr>ss_closed := True\<rparr>)"
  \<comment> \<open>the loop of \<open>BecomePrimary\<close>\<close>
| bp_top_closed: "ss_bp s = BPTop \<Longrightarrow> ss_clientCtx s \<Longrightarrow> session_step cfg s (s\<lparr>ss_bp := BPDone (Some (Sentinel ErrStreamClosed))\<rparr>)"
| bp_top: "ss_bp s = BPTop \<Longrightarrow> \<not> ss_clientCtx s \<Longrightarrow> session_step cfg s (s\<lparr>ss_bp := BPWatch\<rparr>)"
| bp_primary: "ss_bp s = BPWatch \<Longrightarrow> WatchState (ss_sup s) = (StatePrimary, g) \<Longrightarrow> session_step cfg s (s\<lparr>ss_bp := BPDone None\<rparr>)"
| bp_watch: "ss_bp s = BPWatch \<Longrightarrow> WatchState (ss_sup s) = (st, g) \<Longrightarrow> st \<noteq> StatePrimary \<Longrightarrow> session_step cfg s (s\<lparr>ss_bp := BPWait g\<rparr>)"
| bp_ctx: "ss_bp s = BPWait g \<Longrightarrow> ss_ctxErr s = Some e \<Longrightarrow> session_step cfg s (s\<lparr>ss_bp := BPDone (Some e)\<rparr>)"
| bp_changed: "ss_bp s = BPWait g \<Longrightarrow> changed (ss_sup s) \<noteq> g \<Longrightarrow> session_step cfg s (s\<lparr>ss_bp := BPTop\<rparr>)"
| bp_closed: "ss_bp s = BPWait g \<Longrightarrow> ss_clientCtx s \<or> ss_closed s \<Longrightarrow>
    session_step cfg s (s\<lparr>ss_bp := BPDone (Some (Sentinel ErrStreamClosed))\<rparr>)"

abbreviation session_reach :: "Config \<Rightarrow> Session \<Rightarrow> bool" where
  "session_reach cfg \<equiv> reach (\<lambda>s. s = session_init) (session_step cfg)"

subsection \<open>Waking up\<close>

text \<open>A state that changes gets a new generation: the same generation shows the same state.\<close>

lemma setState_generation: "changed s \<le> changed (setState st e s) \<and> (changed (setState st e s) = changed s \<longrightarrow> state (setState st e s) = state s)"
  by auto

lemma sup_step_generation:
  assumes "sup_step cfg s t"
  shows "changed s \<le> changed t \<and> (changed t = changed s \<longrightarrow> state t = state s)"
  using assms by cases (auto simp: applyArbitration_def disconnect_def)

definition bp_inv :: "Session \<Rightarrow> bool" where
  "bp_inv s \<longleftrightarrow> (ss_closed s \<longrightarrow> ss_clientCtx s) \<and>
     (case ss_bp s of
        BPWait g \<Rightarrow> g \<le> changed (ss_sup s) \<and> (changed (ss_sup s) = g \<longrightarrow> \<not> IsPrimary (ss_sup s))
      | BPDone (Some e) \<Rightarrow> (e = Sentinel ErrStreamClosed \<and> ss_clientCtx s) \<or> ss_ctxErr s = Some e
      | _ \<Rightarrow> True)"

lemma bp_inv_sup:
  assumes "sup_step cfg (ss_sup s) t" and "bp_inv s"
  shows "bp_inv (s\<lparr>ss_sup := t\<rparr>)"
  using assms(2) sup_step_generation [OF assms(1)]
  by (auto simp: bp_inv_def IsPrimary_def split: bp_phase.splits option.splits)

interpretation bp: invariant_system "\<lambda>s. s = session_init" "session_step cfg" bp_inv for cfg
proof
  show "bp_inv s" if "s = session_init" for s
    using that by (simp add: bp_inv_def session_init_def)
  show "bp_inv t" if "session_step cfg s t" and "bp_inv s" for s t
    using that
    by cases (auto simp: bp_inv_sup, auto simp: bp_inv_def WatchState_def IsPrimary_def split: bp_phase.splits option.splits)
qed

inductive_cases session_stepE: "session_step cfg s t"

lemma bp_returns_nil:
  assumes "session_step cfg s t" and "ss_bp s \<noteq> BPDone None" and "ss_bp t = BPDone None"
  shows "IsPrimary (ss_sup s) \<and> ss_sup t = ss_sup s"
  using assms by (cases rule: session_step.cases) (auto simp: WatchState_def IsPrimary_def)

text \<open>From the top of its loop \<open>BecomePrimary\<close> needs two steps to see a primary.\<close>

lemma bp_from_top:
  assumes "ss_bp s = BPTop" and "IsPrimary (ss_sup s)" and "\<not> ss_clientCtx s"
  shows "(session_step cfg)\<^sup>*\<^sup>* s (s\<lparr>ss_bp := BPDone None\<rparr>)"
proof -
  have "session_step cfg s (s\<lparr>ss_bp := BPWatch\<rparr>)" by (rule bp_top) (fact assms)+
  moreover have "session_step cfg (s\<lparr>ss_bp := BPWatch\<rparr>) (s\<lparr>ss_bp := BPWatch\<rparr>\<lparr>ss_bp := BPDone None\<rparr>)"
    by (rule bp_primary) (use assms in \<open>simp_all add: WatchState_def IsPrimary_def\<close>)
  ultimately show ?thesis by (auto intro: converse_rtranclp_into_rtranclp)
qed

lemma bp_no_lost_wakeup:
  assumes inv: "bp_inv s" and "\<forall>r. ss_bp s \<noteq> BPDone r" and prim: "IsPrimary (ss_sup s)" and "\<not> ss_clientCtx s"
  shows "(session_step cfg)\<^sup>*\<^sup>* s (s\<lparr>ss_bp := BPDone None\<rparr>)"
proof (cases "ss_bp s")
  case BPTop
  then show ?thesis using assms by (simp add: bp_from_top)
next
  case BPWatch
  then have "session_step cfg s (s\<lparr>ss_bp := BPDone None\<rparr>)"
    by (rule bp_primary) (use prim in \<open>simp add: WatchState_def IsPrimary_def\<close>)
  then show ?thesis by blast
next
  case (BPWait g)
  then have "changed (ss_sup s) \<noteq> g" using inv prim by (auto simp: bp_inv_def)
  then have "session_step cfg s (s\<lparr>ss_bp := BPTop\<rparr>)" by (rule bp_changed [OF BPWait])
  moreover have "(session_step cfg)\<^sup>*\<^sup>* (s\<lparr>ss_bp := BPTop\<rparr>) (s\<lparr>ss_bp := BPTop\<rparr>\<lparr>ss_bp := BPDone None\<rparr>)"
    by (rule bp_from_top) (use assms in simp_all)
  ultimately show ?thesis by (auto intro: converse_rtranclp_into_rtranclp)
qed (use assms in blast)

text \<open>A closed client lets it return from every phase, without any change of the supervisor or of a context, and it cannot go round its
  loop again.\<close>

lemma bp_closed_returns:
  assumes "\<forall>r. ss_bp s \<noteq> BPDone r" and "ss_clientCtx s"
  shows "\<exists>r. (session_step cfg)\<^sup>*\<^sup>* s (s\<lparr>ss_bp := BPDone r\<rparr>) \<and> (r = Some (Sentinel ErrStreamClosed) \<or> r = None \<and> IsPrimary (ss_sup s))"
proof (cases "ss_bp s")
  case BPTop
  from bp_top_closed [OF this assms(2), of cfg] show ?thesis by blast
next
  case BPWatch
  show ?thesis
  proof (cases "state (ss_sup s) = StatePrimary")
    case True
    have "session_step cfg s (s\<lparr>ss_bp := BPDone None\<rparr>)"
      by (rule bp_primary [OF BPWatch]) (simp add: WatchState_def True)
    with True show ?thesis by (intro exI [of _ None]) (auto simp: IsPrimary_def)
  next
    case False
    let ?u = "s\<lparr>ss_bp := BPWait (changed (ss_sup s))\<rparr>"
    have "session_step cfg s ?u"
      by (rule bp_watch [OF BPWatch, of "state (ss_sup s)"]) (simp_all add: WatchState_def False)
    moreover have "session_step cfg ?u (?u\<lparr>ss_bp := BPDone (Some (Sentinel ErrStreamClosed))\<rparr>)"
      by (rule bp_closed) (use assms in simp_all)
    ultimately have "(session_step cfg)\<^sup>*\<^sup>* s (s\<lparr>ss_bp := BPDone (Some (Sentinel ErrStreamClosed))\<rparr>)"
      by (auto intro: converse_rtranclp_into_rtranclp)
    then show ?thesis by blast
  qed
next
  case (BPWait g)
  have "session_step cfg s (s\<lparr>ss_bp := BPDone (Some (Sentinel ErrStreamClosed))\<rparr>)"
    by (rule bp_closed [OF BPWait]) (simp add: assms)
  then show ?thesis by blast
qed (use assms in blast)

fun bp_rank :: "bp_phase \<Rightarrow> nat" where
  "bp_rank (BPDone r) = 0" | "bp_rank BPTop = 1" | "bp_rank (BPWait g) = 2" | "bp_rank BPWatch = 3"

lemma bp_closed_advances:
  assumes "session_step cfg s t" and "ss_clientCtx s"
  shows "ss_clientCtx t \<and> (ss_bp t \<noteq> ss_bp s \<longrightarrow> bp_rank (ss_bp t) < bp_rank (ss_bp s))"
  using assms by (cases rule: session_step.cases) auto

text \<open>A caller can wait from the start through every run of the supervisor.\<close>

lemma session_waiting_reach:
  assumes "sup_reach cfg u"
  shows "session_reach cfg (session_init\<lparr>ss_sup := u, ss_bp := BPWait 0\<rparr>)"
  using assms
proof (induction rule: reach.induct)
  case (reach_init u)
  have "session_reach cfg session_init" by (rule reach.intros) simp
  moreover have "session_step cfg session_init (session_init\<lparr>ss_bp := BPWatch\<rparr>)"
    by (rule bp_top) (simp_all add: session_init_def)
  ultimately have "session_reach cfg (session_init\<lparr>ss_bp := BPWatch\<rparr>)" by (rule reach.intros)
  moreover have "session_step cfg (session_init\<lparr>ss_bp := BPWatch\<rparr>) (session_init\<lparr>ss_bp := BPWatch\<rparr>\<lparr>ss_bp := BPWait 0\<rparr>)"
    by (rule bp_watch [where st = StateDisconnected]) (simp_all add: session_init_def WatchState_def sup_New_def)
  ultimately have "session_reach cfg (session_init\<lparr>ss_bp := BPWatch\<rparr>\<lparr>ss_bp := BPWait 0\<rparr>)" by (rule reach.intros)
  with reach_init show ?case by (simp add: session_init_def)
next
  case (reach_step u t)
  have "session_step cfg (session_init\<lparr>ss_sup := u, ss_bp := BPWait 0\<rparr>) (session_init\<lparr>ss_sup := u, ss_bp := BPWait 0\<rparr>\<lparr>ss_sup := t\<rparr>)"
    by (rule session_sup) (simp add: reach_step)
  with reach_step have "session_reach cfg (session_init\<lparr>ss_sup := u, ss_bp := BPWait 0\<rparr>\<lparr>ss_sup := t\<rparr>)" by (blast intro: reach.intros)
  then show ?case by (simp add: session_init_def)
qed

text \<open>C8. \<open>BecomePrimary\<close> never loses a wake-up, whatever the supervisor, the callers and \<open>Close\<close> do
  meanwhile. In every reachable state: it returns nil only in a step that observes the supervisor as
  primary; an error is \<open>ErrStreamClosed\<close> of a closed client or the error of the caller's context; while
  it waits, the channel it waits on is closed already whenever the client is primary, so it can always
  run on to return nil while the client is open. Once the client is closed it can return from every
  point of its loop by its own steps alone, with nothing else changing: the error is \<open>ErrStreamClosed\<close>, or nil only if the client is primary; and
  whatever happens meanwhile it does not go round its loop again, as every move of it lowers a rank of at most 3.\<close>

theorem BecomePrimary_correct:
  assumes "session_reach cfg s"
  shows "(\<forall>t. session_step cfg s t \<and> ss_bp s \<noteq> BPDone None \<and> ss_bp t = BPDone None \<longrightarrow> IsPrimary (ss_sup s)) \<and>
    (\<forall>e. ss_bp s = BPDone (Some e) \<longrightarrow> (e = Sentinel ErrStreamClosed \<and> ss_clientCtx s) \<or> ss_ctxErr s = Some e) \<and>
    (\<forall>g. ss_bp s = BPWait g \<and> IsPrimary (ss_sup s) \<longrightarrow> changed (ss_sup s) \<noteq> g) \<and>
    ((\<forall>r. ss_bp s \<noteq> BPDone r) \<and> IsPrimary (ss_sup s) \<and> \<not> ss_clientCtx s \<longrightarrow>
       (session_step cfg)\<^sup>*\<^sup>* s (s\<lparr>ss_bp := BPDone None\<rparr>)) \<and>
    ((\<forall>r. ss_bp s \<noteq> BPDone r) \<and> ss_clientCtx s \<longrightarrow>
       (\<exists>r. (session_step cfg)\<^sup>*\<^sup>* s (s\<lparr>ss_bp := BPDone r\<rparr>) \<and> (r = Some (Sentinel ErrStreamClosed) \<or> r = None \<and> IsPrimary (ss_sup s)))) \<and>
    (ss_clientCtx s \<longrightarrow> (\<forall>t. session_step cfg s t \<longrightarrow>
       ss_clientCtx t \<and> (ss_bp t \<noteq> ss_bp s \<longrightarrow> bp_rank (ss_bp t) < bp_rank (ss_bp s))))"
proof -
  have inv: "bp_inv s" by (rule bp.reach_inv [OF assms])
  then have "\<forall>e. ss_bp s = BPDone (Some e) \<longrightarrow> (e = Sentinel ErrStreamClosed \<and> ss_clientCtx s) \<or> ss_ctxErr s = Some e"
    and "\<forall>g. ss_bp s = BPWait g \<and> IsPrimary (ss_sup s) \<longrightarrow> changed (ss_sup s) \<noteq> g"
    by (auto simp: bp_inv_def)
  with bp_returns_nil [of cfg s] bp_no_lost_wakeup [OF inv] bp_closed_returns [of s cfg] bp_closed_advances [of cfg s]
  show ?thesis by (intro conjI) blast+
qed

text \<open>A caller that waits on a client that never becomes primary returns once \<open>Close\<close> has cancelled the client, and one that waits on a
  client that became primary returns nil.\<close>

theorem BecomePrimary_correct_witness:
  "(\<exists>s. session_reach sample_config s \<and> ss_bp s = BPWait 0 \<and> IsPrimary (ss_sup s) \<and>
     (session_step sample_config)\<^sup>*\<^sup>* s (s\<lparr>ss_bp := BPDone None\<rparr>)) \<and>
   (\<exists>s. session_reach sample_config s \<and> ss_bp s = BPWait 0 \<and> changed (ss_sup s) = 0 \<and> ss_clientCtx s \<and> ss_ctxErr s = None \<and>
     (session_step sample_config)\<^sup>*\<^sup>* s (s\<lparr>ss_bp := BPDone (Some (Sentinel ErrStreamClosed))\<rparr>))"
proof
  obtain u where u: "sup_reach sample_config u" "IsPrimary u" using run_primary [of sample_config] by blast
  let ?s = "session_init\<lparr>ss_sup := u, ss_bp := BPWait 0\<rparr>"
  have r: "session_reach sample_config ?s" by (rule session_waiting_reach [OF u(1)])
  have "(session_step sample_config)\<^sup>*\<^sup>* ?s (?s\<lparr>ss_bp := BPDone None\<rparr>)"
    using BecomePrimary_correct [OF r] u(2) by (simp add: session_init_def)
  with r u(2) show "\<exists>s. session_reach sample_config s \<and> ss_bp s = BPWait 0 \<and> IsPrimary (ss_sup s) \<and>
     (session_step sample_config)\<^sup>*\<^sup>* s (s\<lparr>ss_bp := BPDone None\<rparr>)" by (intro exI [of _ ?s]) simp
next
  let ?w = "session_init\<lparr>ss_sup := sup_New, ss_bp := BPWait 0\<rparr>"
  let ?s = "?w\<lparr>ss_clientCtx := True\<rparr>"
  have "sup_reach sample_config sup_New" by (simp add: reach.reach_init)
  then have "session_reach sample_config ?w" by (rule session_waiting_reach)
  then have r: "session_reach sample_config ?s" by (rule reach.reach_step) (rule session_cancel)
  have "(session_step sample_config)\<^sup>*\<^sup>* ?s (?s\<lparr>ss_bp := BPDone (Some (Sentinel ErrStreamClosed))\<rparr>)"
    using BecomePrimary_correct [OF r] by (auto simp: session_init_def IsPrimary_def sup_New_def)
  with r show "\<exists>s. session_reach sample_config s \<and> ss_bp s = BPWait 0 \<and> changed (ss_sup s) = 0 \<and> ss_clientCtx s \<and> ss_ctxErr s = None \<and>
     (session_step sample_config)\<^sup>*\<^sup>* s (s\<lparr>ss_bp := BPDone (Some (Sentinel ErrStreamClosed))\<rparr>)"
    by (intro exI [of _ ?s]) (simp add: session_init_def sup_New_def)
qed

subsection \<open>Dial\<close>

text \<open>A round after which the poll goes on.\<close>

definition dial_pending :: "State \<times> dial_event \<Rightarrow> bool" where
  "dial_pending r \<longleftrightarrow> fst r \<noteq> StatePrimary \<and> fst r \<noteq> StateBackup \<and> snd r = DialTick"

definition dial_round :: "State \<times> dial_event \<Rightarrow> dial_outcome" where
  "dial_round r =
     (if fst r = StatePrimary \<or> fst r = StateBackup then DialReady
      else case snd r of DialCtx e \<Rightarrow> DialFailed e
        | _ \<Rightarrow> DialFailed (Errorf ''client.Dial: %w'' [AErr (Sentinel ErrArbitrationFailed)]))"

lemma dialWait_step: "dialWait obs i = (if dial_pending (obs i) then dialWait obs (Suc i) else Some (dial_round (obs i)))"
  by (subst dialWait.simps) (auto simp: dial_pending_def dial_round_def split: prod.splits dial_event.splits)

lemma dialWait_stops: "\<not> dial_pending (obs (i + n)) \<Longrightarrow> \<forall>j<n. dial_pending (obs (i + j)) \<Longrightarrow> dialWait obs i = Some (dial_round (obs (i + n)))"
proof (induction n arbitrary: i)
  case 0
  then show ?case by (subst dialWait_step) simp
next
  case (Suc n)
  have "dial_pending (obs i)" using Suc.prems(2) by (metis add_0_right zero_less_Suc)
  moreover have "dialWait obs (Suc i) = Some (dial_round (obs (Suc i + n)))"
    by (rule Suc.IH) (use Suc.prems in \<open>auto simp: add_Suc [symmetric] simp del: add_Suc\<close>)
  ultimately show ?case by (subst dialWait_step) simp
qed

text \<open>If no round ends the poll, it does not return.\<close>

lemma dialWait_result: "dialWait obs i = Some r \<Longrightarrow> \<exists>n. \<not> dial_pending (obs (i + n))"
proof (rule dialWait.raw_induct [of "\<lambda>obs i r. \<exists>n. \<not> dial_pending (obs (i + n))"])
  fix wait obs i r
  assume IH: "\<And>obs i r. wait obs i = Some r \<Longrightarrow> \<exists>n. \<not> dial_pending (obs (i + n))"
    and st: "(case obs i of (st, ev) \<Rightarrow>
        if st = StatePrimary \<or> st = StateBackup then Some DialReady
        else (case ev of
            DialCtx e \<Rightarrow> Some (DialFailed e)
          | DialDeadline \<Rightarrow> Some (DialFailed (Errorf ''client.Dial: %w'' [AErr (Sentinel ErrArbitrationFailed)]))
          | DialTick \<Rightarrow> wait obs (Suc i))) = Some r"
  show "\<exists>n. \<not> dial_pending (obs (i + n))"
  proof (cases "dial_pending (obs i)")
    case True
    then have "wait obs (Suc i) = Some r"
      using st by (auto simp: dial_pending_def split: prod.splits)
    then obtain n where "\<not> dial_pending (obs (Suc i + n))" using IH by blast
    then show ?thesis by (intro exI [of _ "Suc n"]) simp
  next
    case False
    then show ?thesis by (intro exI [of _ 0]) simp
  qed
qed assumption

lemma dialWait_first:
  assumes "\<not> dial_pending (obs n)"
  shows "\<exists>m\<le>n. (\<forall>j<m. dial_pending (obs j)) \<and> \<not> dial_pending (obs m) \<and> dialWait obs 0 = Some (dial_round (obs m))"
proof -
  obtain m where m: "\<not> dial_pending (obs m)" "\<forall>j<m. dial_pending (obs j)" "m \<le> n"
    using assms exists_least_iff [of "\<lambda>n. \<not> dial_pending (obs n)"] by (metis not_less)
  then show ?thesis using dialWait_stops [of obs 0 m] by auto
qed

lemma dialWait_iff: "dialWait obs 0 = Some r \<longleftrightarrow> (\<exists>n. (\<forall>j<n. dial_pending (obs j)) \<and> \<not> dial_pending (obs n) \<and> r = dial_round (obs n))"
proof
  assume r: "dialWait obs 0 = Some r"
  then obtain n where "\<not> dial_pending (obs n)" using dialWait_result by fastforce
  from dialWait_first [of obs n, OF this] r show "\<exists>n. (\<forall>j<n. dial_pending (obs j)) \<and> \<not> dial_pending (obs n) \<and> r = dial_round (obs n)" by auto
next
  assume "\<exists>n. (\<forall>j<n. dial_pending (obs j)) \<and> \<not> dial_pending (obs n) \<and> r = dial_round (obs n)"
  then show "dialWait obs 0 = Some r" using dialWait_stops [of obs 0] by auto
qed

text \<open>\<open>Dial\<close> once the options are accepted and there is a connection.\<close>

abbreviation "dial_options opts \<equiv> foldl (\<lambda>o' f. f o') defaultOptions opts"

lemma Dial_invalid:
  assumes "o_deviceID (dial_options opts) = 0 \<or> IsZero (o_electionID (dial_options opts))"
  shows "\<exists>e. Dial newClient connErr addr opts obs = Some (None, Inl e) \<and> (\<forall>nc. Dial nc connErr addr opts obs = Some (None, Inl e))"
  using assms by (auto simp: Dial_def Let_def)

lemma Dial_connected:
  assumes "o_deviceID (dial_options opts) \<noteq> 0" and "\<not> IsZero (o_electionID (dial_options opts))"
    and "newClient addr (buildGRPCDialOptions (dial_options opts)) = Inr conn"
  shows "Dial newClient connErr addr opts obs =
    map_option (\<lambda>r. case r of
       DialReady \<Rightarrow> (Some newClient_state, Inr (conn, supervisorConfig (dial_options opts)))
     | DialFailed e \<Rightarrow> (Some (fst (Client_Close connErr newClient_state)), Inl e)) (dialWait obs 0)"
  using assms by (simp add: Dial_def Let_def split: option.splits dial_outcome.splits)

lemma dial_round_ready: "\<not> dial_pending r \<Longrightarrow> dial_round r = DialReady \<longleftrightarrow> fst r \<in> {StatePrimary, StateBackup}"
  by (auto simp: dial_round_def split: dial_event.splits)

lemma dialWait_ready:
  "dialWait obs 0 = Some DialReady \<longleftrightarrow>
     (\<exists>n. fst (obs n) \<in> {StatePrimary, StateBackup} \<and> (\<forall>j<n. fst (obs j) \<notin> {StatePrimary, StateBackup} \<and> snd (obs j) = DialTick))"
proof -
  have "\<not> dial_pending (obs n) \<and> DialReady = dial_round (obs n) \<longleftrightarrow> fst (obs n) \<in> {StatePrimary, StateBackup}" for n
    using dial_round_ready [of "obs n"] by (auto simp: dial_pending_def)
  then show ?thesis unfolding dialWait_iff by (simp add: dial_pending_def conj_ac)
qed

lemma supervisorConfig_arbitration:
  "am_ElectionId (arbitrationRequest (sup_defaults (supervisorConfig o'))) = o_electionID o' \<and>
   am_DeviceId (arbitrationRequest (sup_defaults (supervisorConfig o'))) = o_deviceID o'"
  by (cases "o_electionID o'") (simp add: arbitrationRequest_def sup_defaults_def supervisorConfig_def Let_def)

text \<open>C20. \<open>Dial\<close>: without a device ID, or with a zero election ID, it fails before it connects; an error
  of \<open>grpc.NewClient\<close> is returned with no client made. Otherwise, on a connection to the address, it returns a client exactly when the poll sees the supervisor as primary or backup
  before the caller's context or the deadline ends it; a failure closes the client it had made, its
  connection once; and it returns as soon as some round of the poll is not a mere tick. The supervisor
  of the client arbitrates with the device and election ID of the options.\<close>

theorem Dial_correct:
  fixes opts :: "('x options \<Rightarrow> 'x options) list"
  defines "o' \<equiv> foldl (\<lambda>o' f. f o') defaultOptions opts"
  shows "(o_deviceID o' = 0 \<or> IsZero (o_electionID o') \<longrightarrow>
       (\<exists>e. \<forall>nc. Dial nc connErr addr opts obs = Some (None, Inl e))) \<and>
    (o_deviceID o' \<noteq> 0 \<and> \<not> IsZero (o_electionID o') \<and> newClient addr (buildGRPCDialOptions o') = Inl err \<longrightarrow>
       Dial newClient connErr addr opts obs = Some (None, Inl (Errorf ''grpc.NewClient: %w'' [AErr err]))) \<and>
    (o_deviceID o' \<noteq> 0 \<and> \<not> IsZero (o_electionID o') \<and> newClient addr (buildGRPCDialOptions o') = Inr conn \<longrightarrow>
       (\<forall>c r. Dial newClient connErr addr opts obs = Some (c, Inr r) \<longleftrightarrow>
          c = Some newClient_state \<and> r = (conn, supervisorConfig o') \<and>
          (\<exists>n. fst (obs n) \<in> {StatePrimary, StateBackup} \<and> (\<forall>j<n. fst (obs j) \<notin> {StatePrimary, StateBackup} \<and> snd (obs j) = DialTick))) \<and>
       (\<forall>c e. Dial newClient connErr addr opts obs = Some (c, Inl e) \<longrightarrow>
          (\<exists>cs. c = Some cs \<and> cs_cancelled cs \<and> cs_supStopped cs \<and> cs_closed cs \<and> cs_connCloses cs = 1)) \<and>
       ((\<exists>n. snd (obs n) \<noteq> DialTick) \<longrightarrow> Dial newClient connErr addr opts obs \<noteq> None)) \<and>
    am_ElectionId (arbitrationRequest (sup_defaults (supervisorConfig o'))) = o_electionID o' \<and>
    am_DeviceId (arbitrationRequest (sup_defaults (supervisorConfig o'))) = o_deviceID o'"
proof (intro conjI impI)
  show "\<exists>e. \<forall>nc. Dial nc connErr addr opts obs = Some (None, Inl e)" if "o_deviceID o' = 0 \<or> IsZero (o_electionID o')"
    using Dial_invalid [of opts _ connErr addr obs] that unfolding o'_def by blast
next
  assume "o_deviceID o' \<noteq> 0 \<and> \<not> IsZero (o_electionID o') \<and> newClient addr (buildGRPCDialOptions o') = Inl err"
  then show "Dial newClient connErr addr opts obs = Some (None, Inl (Errorf ''grpc.NewClient: %w'' [AErr err]))"
    by (simp add: Dial_def o'_def Let_def)
next
  assume a: "o_deviceID o' \<noteq> 0 \<and> \<not> IsZero (o_electionID o') \<and> newClient addr (buildGRPCDialOptions o') = Inr conn"
  have d: "Dial newClient connErr addr opts obs = map_option (\<lambda>r. case r of
       DialReady \<Rightarrow> (Some newClient_state, Inr (conn, supervisorConfig o'))
     | DialFailed e \<Rightarrow> (Some (fst (Client_Close connErr newClient_state)), Inl e)) (dialWait obs 0)"
    using Dial_connected [of opts newClient addr conn connErr obs] a unfolding o'_def by blast
  have ready: "dialWait obs 0 = Some DialReady \<longleftrightarrow>
      (\<exists>n. fst (obs n) \<in> {StatePrimary, StateBackup} \<and> (\<forall>j<n. fst (obs j) \<notin> {StatePrimary, StateBackup} \<and> snd (obs j) = DialTick))"
    by (rule dialWait_ready)
  show "\<forall>c r. Dial newClient connErr addr opts obs = Some (c, Inr r) \<longleftrightarrow>
      c = Some newClient_state \<and> r = (conn, supervisorConfig o') \<and>
      (\<exists>n. fst (obs n) \<in> {StatePrimary, StateBackup} \<and> (\<forall>j<n. fst (obs j) \<notin> {StatePrimary, StateBackup} \<and> snd (obs j) = DialTick))"
    unfolding ready [symmetric] d by (cases "dialWait obs 0") (auto split: dial_outcome.splits)
  show "\<forall>c e. Dial newClient connErr addr opts obs = Some (c, Inl e) \<longrightarrow>
      (\<exists>cs. c = Some cs \<and> cs_cancelled cs \<and> cs_supStopped cs \<and> cs_closed cs \<and> cs_connCloses cs = 1)"
    unfolding d by (cases "dialWait obs 0") (auto simp: Client_Close_def newClient_state_def split: dial_outcome.splits)
  show "Dial newClient connErr addr opts obs \<noteq> None" if "\<exists>n. snd (obs n) \<noteq> DialTick"
    unfolding d using that dialWait_first [of obs] by (fastforce simp: dial_pending_def)
qed (use supervisorConfig_arbitration [of o'] in blast)+

definition sample_opts :: "(unit options \<Rightarrow> unit options) list" where
  "sample_opts = [WithDeviceID 1, WithElectionID (ElectionID 0 7)]"

theorem Dial_correct_witness:
  "Dial (\<lambda>_ _. Inr ()) None ''127.0.0.1:9559'' sample_opts (\<lambda>i. (if i < 2 then StateConnecting else StateBackup, DialTick)) =
     Some (Some newClient_state, Inr ((), supervisorConfig (foldl (\<lambda>o' f. f o') defaultOptions sample_opts)))"
proof -
  let ?o = "foldl (\<lambda>o' f. f o') defaultOptions sample_opts"
  let ?obs = "\<lambda>i::nat. (if i < 2 then StateConnecting else StateBackup, DialTick)"
  have "o_deviceID ?o \<noteq> 0 \<and> \<not> IsZero (o_electionID ?o)"
    by (simp add: sample_opts_def WithDeviceID_def WithElectionID_def defaultOptions_def IsZero_def)
  moreover have "\<exists>n. fst (?obs n) \<in> {StatePrimary, StateBackup} \<and> (\<forall>j<n. fst (?obs j) \<notin> {StatePrimary, StateBackup} \<and> snd (?obs j) = DialTick)"
    by (intro exI [of _ 2]) simp
  ultimately show ?thesis
    using Dial_correct [of sample_opts None "''127.0.0.1:9559''" ?obs "\<lambda>_ _. Inr ()" _ "()"] by blast
qed

text \<open>C38. The deadline of \<open>Dial\<close> follows the arbitration timeout by two seconds only while the sum fits
  64 bits: above that the timer gets a negative duration and \<open>Dial\<close> fails at once. And a timeout that is
  not positive makes the supervisor wait ten seconds for the first arbitration while \<open>Dial\<close> gives up after
  at most two.\<close>

theorem dialDeadline_bounds:
  assumes "- (2 ^ 63) \<le> o_arbitrationTO o'" and "o_arbitrationTO o' < 2 ^ 63"
  shows "(dialDeadline o' = o_arbitrationTO o' + 2000000000 \<longleftrightarrow> o_arbitrationTO o' < 2 ^ 63 - 2000000000) \<and>
    (o_arbitrationTO o' \<ge> 2 ^ 63 - 2000000000 \<longrightarrow> dialDeadline o' < 0) \<and>
    (o_arbitrationTO o' \<le> 0 \<longrightarrow> cfg_ArbitrationTimeout (sup_defaults (supervisorConfig o')) = 10000000000 \<and> dialDeadline o' \<le> 2000000000) \<and>
    (o_arbitrationTO o' > 0 \<longrightarrow> cfg_ArbitrationTimeout (sup_defaults (supervisorConfig o')) = o_arbitrationTO o')"
proof -
  have mod_eq_diff: "(y :: int) mod m = y - m" if "m \<le> y" "y < 2 * m" for y m
    using that mod_pos_pos_trivial [of "y - m" m] by (simp add: minus_mod_self2)
  have hi: "wrap64 (x + 2000000000) = x + 2000000000 - 2 ^ 64" if "2 ^ 63 - 2000000000 \<le> x" "x < 2 ^ 63" for x :: int
  proof -
    have "(x + 2000000000 + 2 ^ 63) mod 2 ^ 64 = x + 2000000000 + 2 ^ 63 - 2 ^ 64"
      using that by (simp add: mod_eq_diff)
    then show ?thesis by (simp add: wrap64_def)
  qed
  have lo: "wrap64 (x + 2000000000) = x + 2000000000" if "- (2 ^ 63) \<le> x" "x < 2 ^ 63 - 2000000000" for x :: int
    by (rule wrap64_id) (use that in simp_all)
  have cfg: "cfg_ArbitrationTimeout (sup_defaults (supervisorConfig o')) = (if o_arbitrationTO o' \<le> 0 then 10000000000 else o_arbitrationTO o')"
    by (simp add: sup_defaults_def supervisorConfig_def Let_def)
  show ?thesis
  proof (cases "o_arbitrationTO o' < 2 ^ 63 - 2000000000")
    case True
    with lo [OF assms(1) True] cfg show ?thesis by (simp add: dialDeadline_def)
  next
    case False
    then have "2 ^ 63 - 2000000000 \<le> o_arbitrationTO o'" by simp
    with hi [OF this assms(2)] cfg assms show ?thesis by (simp add: dialDeadline_def)
  qed
qed

theorem dialDeadline_bounds_witness:
  "dialDeadline (WithArbitrationTimeout (2 ^ 63 - 1) defaultOptions) < 0"
  using dialDeadline_bounds [of "WithArbitrationTimeout (2 ^ 63 - 1) defaultOptions"]
  by (auto simp: WithArbitrationTimeout_def)

end
