(* ===== verification/Cli_Config.thy ===== *)
theory Cli_Config
  imports Cli_Table Packet_IO Session Resources
begin

text \<open>
  The settings of the command line tool and how it dials (src/cmd/p4ctl/cmd/config.go, root.go, dial.go, and
  the format check of output.go).

  The configuration library, the file system and the certificate parser are parameters: what a
  setting holds after flags, environment and file are merged is a function from its name to a
  \<open>setting\<close>; \<^verbatim>\<open>fmt.Sprint\<close> of a setting of another type is its text.
\<close>

subsection \<open>Unsigned integers with a base prefix\<close>

text \<open>\<^verbatim>\<open>strconv.ParseUint(s, 0, 64)\<close>: the prefix selects the base, underscores may separate digits.\<close>

definition digitVal :: "char \<Rightarrow> nat option" where
  "digitVal c =
     (let n = ord_of c; l = ord_of (lowerChar c) in
      if 48 \<le> n \<and> n \<le> 57 then Some (n - 48) else if 97 \<le> l \<and> l \<le> 122 then Some (l - 87) else None)"

fun parseDigits :: "nat \<Rightarrow> string \<Rightarrow> nat \<Rightarrow> nat option" where
  "parseDigits base [] n = Some n"
| "parseDigits base (c # s) n =
     (if c = CHR ''_'' then parseDigits base s n
      else case digitVal c of
        None \<Rightarrow> None
      | Some d \<Rightarrow> if d \<ge> base \<or> n * base + d \<ge> 2 ^ 64 then None else parseDigits base s (n * base + d))"

definition basePrefix :: "string \<Rightarrow> nat \<times> string" where
  "basePrefix s =
     (if s \<noteq> [] \<and> hd s = CHR ''0'' then
        if length s \<ge> 3 \<and> lowerChar (s ! 1) = CHR ''b'' then (2, drop 2 s)
        else if length s \<ge> 3 \<and> lowerChar (s ! 1) = CHR ''o'' then (8, drop 2 s)
        else if length s \<ge> 3 \<and> lowerChar (s ! 1) = CHR ''x'' then (16, drop 2 s)
        else (8, drop 1 s)
      else (10, s))"

text \<open>\<open>underscoreOK\<close>: what was seen last is a digit or base prefix, an underscore, nothing or something else.\<close>

datatype seen = SeenStart | SeenDigit | SeenUnderscore | SeenOther

fun underscoreScan :: "bool \<Rightarrow> seen \<Rightarrow> string \<Rightarrow> bool" where
  "underscoreScan hex i [] = (i \<noteq> SeenUnderscore)"
| "underscoreScan hex i (c # s) =
     (if isDigit c \<or> (hex \<and> 97 \<le> ord_of (lowerChar c) \<and> ord_of (lowerChar c) \<le> 102) then underscoreScan hex SeenDigit s
      else if c = CHR ''_'' then (if i \<noteq> SeenDigit then False else underscoreScan hex SeenUnderscore s)
      else if i = SeenUnderscore then False
      else underscoreScan hex SeenOther s)"

definition underscoreOK :: "string \<Rightarrow> bool" where
  "underscoreOK s =
     (let s = (if s \<noteq> [] \<and> (hd s = CHR ''-'' \<or> hd s = CHR ''+'') then tl s else s) in
      if length s \<ge> 2 \<and> hd s = CHR ''0'' \<and> lowerChar (s ! 1) \<in> {CHR ''b'', CHR ''o'', CHR ''x''}
      then underscoreScan (lowerChar (s ! 1) = CHR ''x'') SeenDigit (drop 2 s)
      else underscoreScan False SeenStart s)"

definition ParseUint :: "string \<Rightarrow> uint64 option" where
  "ParseUint s =
     (if s = [] then None
      else case basePrefix s of (base, t) \<Rightarrow>
        (case parseDigits base t 0 of
           None \<Rightarrow> None
         | Some n \<Rightarrow> if CHR ''_'' \<in> set t \<and> \<not> underscoreOK s then None else Some (of_nat n)))"

text \<open>\<^verbatim>\<open>strconv.ParseBool\<close>\<close>

definition ParseBool :: "string \<Rightarrow> bool option" where
  "ParseBool s =
     (if s \<in> {''1'', ''t'', ''T'', ''true'', ''TRUE'', ''True''} then Some True
      else if s \<in> {''0'', ''f'', ''F'', ''false'', ''FALSE'', ''False''} then Some False
      else None)"

subsection \<open>Global flags\<close>

record globalFlags =
  g_Addr :: string
  g_DeviceID :: uint64
  g_Election :: uint64
  g_Role :: string
  g_Insecure :: bool
  g_TLSCA :: string
  g_TLSServerName :: string
  g_TLSCert :: string
  g_TLSKey :: string
  g_ConfigPath :: string
  g_ConfigFile :: string
  g_Output :: string

definition validateOutput :: "string \<Rightarrow> goerr option" where
  "validateOutput format =
     (if format \<in> {''table'', ''json'', ''yaml''} then None
      else Some (Errorf ''unknown output format %q: expected table, json or yaml'' [AStr format]))"

definition structuredOutput :: "globalFlags \<Rightarrow> bool" where
  "structuredOutput g \<longleftrightarrow> g_Output g \<noteq> '''' \<and> g_Output g \<noteq> ''table''"

datatype setting = SetString string | SetBool bool | SetFloat string | SetOther string

fun sprint :: "setting \<Rightarrow> string" where
  "sprint (SetString s) = s"
| "sprint (SetBool b) = (if b then ''true'' else ''false'')"
| "sprint (SetFloat s) = s"
| "sprint (SetOther s) = s"

text \<open>The file to read: the two flags, the environment variable, or the file in the home directory. The result
  is the path of \<open>--config\<close>, the file and whether it was asked for.\<close>

definition configFile :: "(string \<Rightarrow> string option) \<Rightarrow> string \<Rightarrow> (string \<Rightarrow> string \<Rightarrow> string) \<Rightarrow> string \<Rightarrow> goerr + string \<times> string \<times> bool" where
  "configFile flagSet envFile join home =
     (if flagSet ''config-file'' \<noteq> None \<and> flagSet ''config'' \<noteq> None then
        Inl (Errorf ''use only one of --config-file and --config for CLI settings'' [])
      else
        let (path, file, explicit) =
          (case flagSet ''config-file'' of
             Some f \<Rightarrow> ('''', f, True)
           | None \<Rightarrow>
               (case flagSet ''config'' of
                  Some f \<Rightarrow> (f, f, True)
                | None \<Rightarrow>
                    if envFile \<noteq> '''' then ('''', envFile, True)
                    else ('''', if home \<noteq> '''' then join home ''.p4ctl.yaml'' else '''', False)))
        in if explicit \<and> file = '''' then Inl (Errorf ''CLI config file path must not be empty'' [])
           else Inr (path, file, explicit))"

definition stringSetting :: "(string \<Rightarrow> setting) \<Rightarrow> string \<Rightarrow> goerr + string" where
  "stringSetting get name =
     (case get name of
        SetString s \<Rightarrow> Inr s
      | _ \<Rightarrow> Inl (Errorf ''CLI setting %q must be a string'' [AStr name]))"

definition uintSetting :: "(string \<Rightarrow> setting) \<Rightarrow> string \<Rightarrow> goerr + uint64" where
  "uintSetting get name =
     (case get name of
        SetFloat _ \<Rightarrow> Inl (Errorf ''CLI setting %q must be an unsigned integer'' [AStr name])
      | raw \<Rightarrow>
          (case ParseUint (sprint raw) of
             None \<Rightarrow> Inl (Errorf ''CLI setting %q: %w'' [AStr name, AErr (NewErr ''strconv.ParseUint'')])
           | Some n \<Rightarrow> Inr n))"

definition boolSetting :: "(string \<Rightarrow> setting) \<Rightarrow> string \<Rightarrow> goerr + bool" where
  "boolSetting get name =
     (case get name of
        SetBool b \<Rightarrow> Inr b
      | SetString s \<Rightarrow>
          (case ParseBool s of
             None \<Rightarrow> Inl (Errorf ''CLI setting %q: %w'' [AStr name, AErr (NewErr ''strconv.ParseBool'')])
           | Some b \<Rightarrow> Inr b)
      | _ \<Rightarrow> Inl (Errorf ''CLI setting %q must be a boolean'' [AStr name]))"

text \<open>\<open>readInConfig\<close> is the library's reading of the file (\<open>None\<close> is success), \<open>notExist\<close> is \<^verbatim>\<open>errors.Is(err, os.ErrNotExist)\<close>,
  and \<open>get\<close> the merged settings once a file has been read.\<close>

definition loadGlobalFlags :: "(string \<Rightarrow> string option) \<Rightarrow> string \<Rightarrow> (string \<Rightarrow> string \<Rightarrow> string) \<Rightarrow> string \<Rightarrow> goerr option \<Rightarrow>
    (string \<Rightarrow> goerr option) \<Rightarrow> (goerr \<Rightarrow> bool) \<Rightarrow> (string \<Rightarrow> string \<Rightarrow> setting) \<Rightarrow> goerr + globalFlags" where
  "loadGlobalFlags flagSet envFile join home bindErr readInConfig notExist get =
     bindE (configFile flagSet envFile join home) (\<lambda>(path, file, explicit).
     bindE (case bindErr of Some err \<Rightarrow> Inl (Errorf ''bind CLI settings: %w'' [AErr err]) | None \<Rightarrow> Inr ()) (\<lambda>_.
     bindE (if file = '''' then Inr ()
            else case readInConfig file of
              Some err \<Rightarrow>
                if explicit \<or> \<not> notExist err then Inl (Errorf ''read CLI config %q: %w'' [AStr file, AErr err]) else Inr ()
            | None \<Rightarrow> Inr ()) (\<lambda>_.
     let v = get file in
     bindE (mapE (stringSetting v) [''addr'', ''role'', ''output'', ''tls-ca'', ''tls-server-name'', ''tls-cert'', ''tls-key'']) (\<lambda>strs.
     bindE (mapE (uintSetting v) [''device-id'', ''election-id'']) (\<lambda>nums.
     bindE (boolSetting v ''insecure'') (\<lambda>insecure.
     case validateOutput (strs ! 2) of
       Some e \<Rightarrow> Inl e
     | None \<Rightarrow> Inr \<lparr>g_Addr = strs ! 0, g_DeviceID = nums ! 0, g_Election = nums ! 1, g_Role = strs ! 1, g_Insecure = insecure,
         g_TLSCA = strs ! 3, g_TLSServerName = strs ! 4, g_TLSCert = strs ! 5, g_TLSKey = strs ! 6,
         g_ConfigPath = path, g_ConfigFile = file, g_Output = strs ! 2\<rparr>))))))"

subsection \<open>Dialling\<close>

text \<open>The rest of a TLS configuration that \<open>clientTLSConfig\<close> fills in.\<close>

record ('pool, 'cert) cli_tls =
  tls_ServerName :: string
  tls_RootCAs :: "'pool option"
  tls_Certificates :: "'cert list"

definition clientTLSConfig :: "(string \<Rightarrow> goerr + bytes) \<Rightarrow> (bytes \<Rightarrow> 'pool option) \<Rightarrow> (string \<Rightarrow> string \<Rightarrow> goerr + 'cert) \<Rightarrow> globalFlags \<Rightarrow>
    goerr + ('pool, 'cert) cli_tls tls_Config option" where
  "clientTLSConfig readFile appendCertsFromPEM loadX509KeyPair flags =
     (if g_Insecure flags then
        if g_TLSCA flags \<noteq> '''' \<or> g_TLSServerName flags \<noteq> '''' \<or> g_TLSCert flags \<noteq> '''' \<or> g_TLSKey flags \<noteq> ''''
        then Inl (Errorf ''TLS options require --insecure=false'' [])
        else Inr None
      else if (g_TLSCert flags = '''') \<noteq> (g_TLSKey flags = '''') then
        Inl (Errorf ''--tls-cert and --tls-key must be provided together'' [])
      else
        bindE (if g_TLSCA flags \<noteq> '''' then
                 bindE (mapErr (\<lambda>e. Errorf ''read TLS CA bundle: %w'' [AErr e]) (readFile (g_TLSCA flags))) (\<lambda>pem.
                   case appendCertsFromPEM pem of
                     None \<Rightarrow> Inl (Errorf ''TLS CA bundle contains no valid certificates'' [])
                   | Some pool \<Rightarrow> Inr (Some pool))
               else Inr None) (\<lambda>pool.
        bindE (if g_TLSCert flags \<noteq> '''' then
                 bindE (mapErr (\<lambda>e. Errorf ''load TLS client certificate: %w'' [AErr e]) (loadX509KeyPair (g_TLSCert flags) (g_TLSKey flags)))
                   (\<lambda>cert. Inr [cert])
               else Inr []) (\<lambda>certs.
        Inr (Some \<lparr>tls_MinVersion = VersionTLS12,
          tls_rest = \<lparr>tls_ServerName = g_TLSServerName flags, tls_RootCAs = pool, tls_Certificates = certs\<rparr>\<rparr>))))"

definition dialOptions :: "globalFlags \<Rightarrow> 'x tls_Config option \<Rightarrow> ('x options \<Rightarrow> 'x options) list" where
  "dialOptions g cfg =
     [WithDeviceID (g_DeviceID g), WithElectionID (ElectionID 0 (g_Election g))] @
     (if g_Role g \<noteq> '''' then [WithRole (g_Role g)] else []) @
     (if g_Insecure g then [WithInsecure] else [WithTLS cfg])"

text \<open>\<open>dialClient\<close> over \<open>Dial\<close>, \<open>BecomePrimary\<close> and \<open>Close\<close> as operations on the state of the process.\<close>

definition dialClient :: "(globalFlags \<Rightarrow> goerr + 'x tls_Config option) \<Rightarrow> (string \<Rightarrow> ('x options \<Rightarrow> 'x options) list \<Rightarrow> 's \<Rightarrow> 's \<times> (goerr + Client)) \<Rightarrow>
    (Client \<Rightarrow> 's \<Rightarrow> 's \<times> goerr option) \<Rightarrow> (Client \<Rightarrow> 's \<Rightarrow> 's) \<Rightarrow> globalFlags \<Rightarrow> 's \<Rightarrow> 's \<times> (goerr + Client)" where
  "dialClient tlsConfig dial becomePrimary close g s =
     (case tlsConfig g of
        Inl err \<Rightarrow> (s, Inl err)
      | Inr cfg \<Rightarrow>
          (case dial (g_Addr g) (dialOptions g cfg) s of
             (s1, Inl err) \<Rightarrow> (s1, Inl (Errorf ''dial %s: %w'' [AStr (g_Addr g), AErr err]))
           | (s1, Inr c) \<Rightarrow>
               (case becomePrimary c s1 of
                  (s2, Some err) \<Rightarrow> (close c s2, Inl (Errorf ''arbitration: %w'' [AErr err]))
                | (s2, None) \<Rightarrow> (s2, Inr c))))"

subsection \<open>Numbers in settings\<close>

lemma digitVal_digit: "isDigit c \<Longrightarrow> digitVal c = Some (ord_of c - 48) \<and> ord_of c - 48 < 10 \<and> c \<noteq> CHR ''_''"
  by (auto simp: digitVal_def isDigit_def Let_def)

lemma foldl_digits_mono: "n \<le> foldl (\<lambda>v c. v * 10 + (ord_of c - 48)) n ds"
proof (induction ds arbitrary: n)
  case (Cons d ds)
  have "n \<le> n * 10 + (ord_of d - 48)" by simp
  also have "\<dots> \<le> foldl (\<lambda>v c. v * 10 + (ord_of c - 48)) (n * 10 + (ord_of d - 48)) ds" by (rule Cons.IH)
  finally show ?case by simp
qed simp

text \<open>Decimal digits are read exactly, or refused when the number does not fit.\<close>

lemma parseDigits_decimal:
  "list_all isDigit ds \<Longrightarrow> n < 2 ^ 64 \<Longrightarrow> parseDigits 10 ds n =
     (let v = foldl (\<lambda>v c. v * 10 + (ord_of c - 48)) n ds in if v < 2 ^ 64 then Some v else None)"
proof (induction ds arbitrary: n)
  case (Cons d ds)
  have d: "digitVal d = Some (ord_of d - 48)" "ord_of d - 48 < 10" "d \<noteq> CHR ''_''" using Cons.prems(1) digitVal_digit by auto
  show ?case
  proof (cases "n * 10 + (ord_of d - 48) < 2 ^ 64")
    case True
    with Cons.IH [OF _ True] Cons.prems(1) d show ?thesis by (simp add: not_le)
  next
    case False
    with foldl_digits_mono [of "n * 10 + (ord_of d - 48)" ds] d show ?thesis by (simp add: Let_def)
  qed
qed simp

lemma decimal_no_leading_zero: "n > 0 \<Longrightarrow> hd (decimal n) \<noteq> CHR ''0''"
proof (induction n rule: decimal.induct)
  case (1 n)
  show ?case
  proof (cases "n < 10")
    case True
    have "ord_of (char_of (48 + n)) = 48 + n" using True by simp
    with True 1(2) show ?thesis by (subst decimal.simps) (auto simp del: of_char_of dest: arg_cong [of _ _ ord_of])
  next
    case False
    then show ?thesis using 1(1) by (subst decimal.simps) (simp add: hd_append)
  qed
qed

lemma ParseUint_decimal: "ParseUint (decimal n) = (if n < 2 ^ 64 then Some (of_nat n) else None)"
proof (cases "n = 0")
  case True
  moreover have "decimal 0 = ''0''" by code_simp
  ultimately show ?thesis by (simp add: ParseUint_def basePrefix_def)
next
  case False
  have all: "list_all isDigit (decimal n)" using decimal_digits by (simp add: list_all_iff)
  have "CHR ''_'' \<notin> set (decimal n)" using decimal_digits digitVal_digit by blast
  moreover have "foldl (\<lambda>v c. v * 10 + (ord_of c - 48)) 0 (decimal n) = n"
    using decimalVal_decimal [of n] by (simp add: decimalVal_def)
  ultimately show ?thesis
    using False decimal_no_leading_zero [of n] parseDigits_decimal [OF all, of 0] by (simp add: ParseUint_def basePrefix_def)
qed

lemma uintSetting_decimal:
  assumes "get name \<in> {SetString (decimal n), SetOther (decimal n)}"
  shows "uintSetting get name = Inr v \<longleftrightarrow> n < 2 ^ 64 \<and> unat v = n"
proof -
  have "uintSetting get name = Inr v \<longleftrightarrow> n < 2 ^ 64 \<and> of_nat n = v"
    using assms by (auto simp: uintSetting_def ParseUint_decimal split: if_splits)
  moreover have "unat (of_nat n :: uint64) = n" if "n < 2 ^ 64" using that by (simp add: unat_of_nat)
  ultimately show ?thesis by auto
qed

lemma uintSetting_float: "uintSetting get name = Inr v \<Longrightarrow> get name \<noteq> SetFloat t"
  by (auto simp: uintSetting_def)

lemma boolSetting_bool:
  "get name \<in> {SetBool b, SetString (if b then ''true'' else ''false'')} \<Longrightarrow> boolSetting get name = Inr v \<longleftrightarrow> v = b"
  by (cases b) (auto simp: boolSetting_def ParseBool_def)

subsection \<open>Properties\<close>

text \<open>The file the settings come from.\<close>

definition config_source :: "(string \<Rightarrow> string option) \<Rightarrow> string \<Rightarrow> (string \<Rightarrow> string \<Rightarrow> string) \<Rightarrow> string \<Rightarrow> string" where
  "config_source flagSet envFile join home =
     (if flagSet ''config-file'' \<noteq> None then the (flagSet ''config-file'')
      else if flagSet ''config'' \<noteq> None then the (flagSet ''config'')
      else if envFile \<noteq> '''' then envFile
      else if home \<noteq> '''' then join home ''.p4ctl.yaml'' else '''')"

abbreviation config_explicit :: "(string \<Rightarrow> string option) \<Rightarrow> string \<Rightarrow> bool" where
  "config_explicit flagSet envFile \<equiv> flagSet ''config-file'' \<noteq> None \<or> flagSet ''config'' \<noteq> None \<or> envFile \<noteq> ''''"

lemma configFile_Inr:
  assumes "configFile flagSet envFile join home = Inr (path, fname, explicit)"
  shows "fname = config_source flagSet envFile join home" "explicit = config_explicit flagSet envFile" "explicit \<Longrightarrow> fname \<noteq> ''''"
  using assms by (auto simp: configFile_def config_source_def Let_def split: if_splits option.splits)

lemma stringSetting_Inr: "stringSetting get name = Inr s \<longleftrightarrow> get name = SetString s"
  by (cases "get name") (auto simp: stringSetting_def)

lemma validateOutput_None: "validateOutput f = None \<longleftrightarrow> f \<in> {''table'', ''json'', ''yaml''}"
  by (auto simp: validateOutput_def)

lemma loadGlobalFlags_Inr:
  assumes "loadGlobalFlags flagSet envFile join home bindErr readInConfig notExist get = Inr g"
  obtains path explicit where "configFile flagSet envFile join home = Inr (path, g_ConfigFile g, explicit)"
    and "\<And>e. g_ConfigFile g \<noteq> '''' \<Longrightarrow> readInConfig (g_ConfigFile g) = Some e \<Longrightarrow> \<not> explicit \<and> notExist e"
    and "stringSetting (get (g_ConfigFile g)) ''addr'' = Inr (g_Addr g)" and "stringSetting (get (g_ConfigFile g)) ''role'' = Inr (g_Role g)"
    and "uintSetting (get (g_ConfigFile g)) ''device-id'' = Inr (g_DeviceID g)"
    and "uintSetting (get (g_ConfigFile g)) ''election-id'' = Inr (g_Election g)"
    and "boolSetting (get (g_ConfigFile g)) ''insecure'' = Inr (g_Insecure g)"
    and "validateOutput (g_Output g) = None"
proof -
  obtain path fname explicit where c: "configFile flagSet envFile join home = Inr (path, fname, explicit)"
    using assms by (cases "configFile flagSet envFile join home") (auto simp: loadGlobalFlags_def)
  show thesis
    by (rule that [of path explicit]) (use assms in \<open>auto simp: loadGlobalFlags_def c bindE_Inr_iff Let_def split: if_splits option.splits\<close>)
qed

text \<open>The settings of a command. When \<open>loadGlobalFlags\<close> succeeds, the file is the one of \<open>--config-file\<close>,
  \<open>--config\<close>, the environment or the home directory, in this order, and the two flags were not both given; a
  file that was asked for has been read, and the one in the home directory may only be absent. The output
  format is one of the three. A device or election ID given as the text of a number, or as a
  number of the file, is loaded exactly, and never as a float: numbers beyond 64 bits are refused, not truncated.\<close>

theorem loadGlobalFlags_correct:
  assumes "loadGlobalFlags flagSet envFile join home bindErr readInConfig notExist get = Inr g"
  shows "g_ConfigFile g = config_source flagSet envFile join home \<and>
    (flagSet ''config-file'' = None \<or> flagSet ''config'' = None) \<and>
    (flagSet ''config-file'' \<noteq> None \<or> flagSet ''config'' \<noteq> None \<or> envFile \<noteq> '''' \<longrightarrow>
       g_ConfigFile g \<noteq> '''' \<and> readInConfig (g_ConfigFile g) = None) \<and>
    (\<forall>e. g_ConfigFile g \<noteq> '''' \<and> readInConfig (g_ConfigFile g) = Some e \<longrightarrow> notExist e) \<and>
    g_Output g \<in> {''table'', ''json'', ''yaml''} \<and>
    (\<forall>(name, v)\<in>{(''device-id'', g_DeviceID g), (''election-id'', g_Election g)}.
       (\<forall>t. get (g_ConfigFile g) name \<noteq> SetFloat t) \<and>
       (\<forall>n. get (g_ConfigFile g) name \<in> {SetString (decimal n), SetOther (decimal n)} \<longrightarrow> n < 2 ^ 64 \<and> unat v = n)) \<and>
    (\<forall>b. get (g_ConfigFile g) ''insecure'' \<in> {SetBool b, SetString (if b then ''true'' else ''false'')} \<longrightarrow> g_Insecure g = b)"
proof -
  obtain path explicit where c: "configFile flagSet envFile join home = Inr (path, g_ConfigFile g, explicit)"
    and r: "\<And>e. g_ConfigFile g \<noteq> '''' \<Longrightarrow> readInConfig (g_ConfigFile g) = Some e \<Longrightarrow> \<not> explicit \<and> notExist e"
    and u: "uintSetting (get (g_ConfigFile g)) ''device-id'' = Inr (g_DeviceID g)"
      "uintSetting (get (g_ConfigFile g)) ''election-id'' = Inr (g_Election g)"
    and b: "boolSetting (get (g_ConfigFile g)) ''insecure'' = Inr (g_Insecure g)"
    and out: "validateOutput (g_Output g) = None"
    by (rule loadGlobalFlags_Inr [OF assms]) blast
  have one: "flagSet ''config-file'' = None \<or> flagSet ''config'' = None"
    using c by (auto simp: configFile_def split: if_splits)
  have num: "(\<forall>t. get (g_ConfigFile g) name \<noteq> SetFloat t) \<and>
      (\<forall>n. get (g_ConfigFile g) name \<in> {SetString (decimal n), SetOther (decimal n)} \<longrightarrow> n < 2 ^ 64 \<and> unat v = n)"
    if "uintSetting (get (g_ConfigFile g)) name = Inr v" for name v
    using uintSetting_float [OF that] uintSetting_decimal that by blast
  have expl: "config_explicit flagSet envFile \<Longrightarrow> g_ConfigFile g \<noteq> '''' \<and> readInConfig (g_ConfigFile g) = None"
    using configFile_Inr [OF c] r by (metis option.exhaust)
  show ?thesis
    using configFile_Inr(1) [OF c] one expl r out [unfolded validateOutput_None] num [OF u(1)] num [OF u(2)] boolSetting_bool b
    by (intro conjI) blast+
qed

abbreviation sample_get :: "string \<Rightarrow> string \<Rightarrow> setting" where
  "sample_get f name \<equiv> (if name = ''device-id'' then SetOther (decimal 18446744073709551615) else if name = ''election-id'' then SetString (decimal 7)
     else if name = ''insecure'' then SetString ''true'' else if name = ''output'' then SetString ''json'' else SetString '''')"

lemma sample_settings:
  "uintSetting (sample_get f) ''device-id'' = Inr (- 1)" "uintSetting (sample_get f) ''election-id'' = Inr 7"
  by (simp_all add: uintSetting_def ParseUint_decimal)

abbreviation sample_globals :: globalFlags where
  "sample_globals \<equiv> \<lparr>g_Addr = '''', g_DeviceID = - 1, g_Election = 7, g_Role = '''', g_Insecure = True, g_TLSCA = '''', g_TLSServerName = '''',
     g_TLSCert = '''', g_TLSKey = '''', g_ConfigPath = '''', g_ConfigFile = ''home/.p4ctl.yaml'', g_Output = ''json''\<rparr>"

theorem loadGlobalFlags_correct_witness:
  "\<exists>g. loadGlobalFlags (\<lambda>_. None) '''' (\<lambda>a b. a @ ''/'' @ b) ''home'' None (\<lambda>_. Some EOF) (\<lambda>_. True) sample_get = Inr g \<and>
     g_ConfigFile g = ''home/.p4ctl.yaml'' \<and> unat (g_DeviceID g) = 18446744073709551615"
proof -
  have run: "loadGlobalFlags (\<lambda>_. None) '''' (\<lambda>a b. a @ ''/'' @ b) ''home'' None (\<lambda>_. Some EOF) (\<lambda>_. True) sample_get = Inr sample_globals"
    by (simp add: loadGlobalFlags_def configFile_def sample_settings boolSetting_def ParseBool_def stringSetting_def validateOutput_def
        del: fun_upd_apply cong: if_cong)
  have "sample_get ''home/.p4ctl.yaml'' ''device-id'' \<in> {SetString (decimal 18446744073709551615), SetOther (decimal 18446744073709551615)}"
    by simp
  with run loadGlobalFlags_correct [OF run] show ?thesis by (auto simp: config_source_def)
qed

lemma clientTLSConfig_Inr:
  assumes "clientTLSConfig readFile appendCerts loadPair g = Inr cfg"
  shows "g_Insecure g \<Longrightarrow> cfg = None \<and> g_TLSCA g = '''' \<and> g_TLSServerName g = '''' \<and> g_TLSCert g = '''' \<and> g_TLSKey g = ''''"
    and "\<not> g_Insecure g \<Longrightarrow> (g_TLSCert g = '''' \<longleftrightarrow> g_TLSKey g = '''') \<and> (\<exists>c. cfg = Some c \<and> tls_MinVersion c = VersionTLS12 \<and>
      tls_ServerName (tls_rest c) = g_TLSServerName g \<and>
      (if g_TLSCA g = '''' then tls_RootCAs (tls_rest c) = None
       else \<exists>pem pool. readFile (g_TLSCA g) = Inr pem \<and> appendCerts pem = Some pool \<and> tls_RootCAs (tls_rest c) = Some pool) \<and>
      (if g_TLSCert g = '''' then tls_Certificates (tls_rest c) = []
       else \<exists>cert. loadPair (g_TLSCert g) (g_TLSKey g) = Inr cert \<and> tls_Certificates (tls_rest c) = [cert]))"
  using assms by (auto simp: clientTLSConfig_def bindE_Inr_iff split: if_splits option.splits)

lemma dialOptions_fields:
  fixes g :: globalFlags and cfg :: "'x tls_Config option"
  shows "o_deviceID (dial_options (dialOptions g cfg)) = g_DeviceID g"
    and "o_electionID (dial_options (dialOptions g cfg)) = ElectionID 0 (g_Election g)"
    and "o_role (dial_options (dialOptions g cfg)) = g_Role g"
    and "g_Insecure g \<Longrightarrow> o_credentials (dial_options (dialOptions g cfg)) = Some InsecureCreds"
    and "\<not> g_Insecure g \<Longrightarrow> cfg = Some c \<Longrightarrow> tls_MinVersion c = VersionTLS12 \<Longrightarrow> o_credentials (dial_options (dialOptions g cfg)) = Some (TLSCreds c)"
  by (cases "g_Role g = []"; cases cfg;
      simp add: dialOptions_def WithDeviceID_def WithElectionID_def WithRole_def WithInsecure_def WithTLS_def defaultOptions_def Let_def)+

lemma buildGRPCDialOptions_creds:
  "o_credentials o' = Some c \<Longrightarrow> hd (buildGRPCDialOptions o') = WithTransportCredentials c"
  by (simp add: buildGRPCDialOptions_def Let_def)

text \<open>C39. Dialling from the command line. TLS flags together with \<open>--insecure\<close>, or a certificate without its key,
  fail before anything is dialled. A command gets a client only from a dial of the address of the flags and a won arbitration with exactly
  the device, election ID and role of the flags; the transport is in clear only if \<open>--insecure\<close> says so, and is otherwise
  TLS of version 1.2 or later that verifies the server name of the flags, against the pool of the certificates in the file of
  \<open>--tls-ca\<close> (the default roots without that flag) and presents the key pair of the files of \<open>--tls-cert\<close> and \<open>--tls-key\<close> (none
  without them). When the arbitration fails the client is closed. A zero device or election ID never connects.\<close>

theorem dialClient_correct:
  fixes g :: globalFlags and s :: 's
  shows "((if g_Insecure g then g_TLSCA g \<noteq> '''' \<or> g_TLSServerName g \<noteq> '''' \<or> g_TLSCert g \<noteq> '''' \<or> g_TLSKey g \<noteq> ''''
        else (g_TLSCert g = '''') \<noteq> (g_TLSKey g = '''')) \<longrightarrow>
       (\<exists>e. dialClient (clientTLSConfig readFile appendCerts loadPair) dial becomePrimary close g s = (s, Inl e))) \<and>
    (dialClient (clientTLSConfig readFile appendCerts loadPair) dial becomePrimary close g s = (s', Inr c) \<longrightarrow>
       (\<exists>cfg s1. dial (g_Addr g) (dialOptions g cfg) s = (s1, Inr c) \<and> becomePrimary c s1 = (s', None) \<and>
          (let o' = dial_options (dialOptions g cfg) in
           o_deviceID o' = g_DeviceID g \<and> o_electionID o' = ElectionID 0 (g_Election g) \<and> o_role o' = g_Role g \<and>
           (if g_Insecure g then hd (buildGRPCDialOptions o') = WithTransportCredentials InsecureCreds
            else \<exists>t. hd (buildGRPCDialOptions o') = WithTransportCredentials (TLSCreds t) \<and> tls_MinVersion t = VersionTLS12 \<and>
              tls_ServerName (tls_rest t) = g_TLSServerName g \<and>
              (if g_TLSCA g = '''' then tls_RootCAs (tls_rest t) = None
               else \<exists>pem pool. readFile (g_TLSCA g) = Inr pem \<and> appendCerts pem = Some pool \<and> tls_RootCAs (tls_rest t) = Some pool) \<and>
              (if g_TLSCert g = '''' then tls_Certificates (tls_rest t) = []
               else \<exists>cert. loadPair (g_TLSCert g) (g_TLSKey g) = Inr cert \<and> tls_Certificates (tls_rest t) = [cert]))))) \<and>
    (\<forall>cfg s1 s2 err. clientTLSConfig readFile appendCerts loadPair g = Inr cfg \<and> dial (g_Addr g) (dialOptions g cfg) s = (s1, Inr c) \<and>
       becomePrimary c s1 = (s2, Some err) \<longrightarrow>
       dialClient (clientTLSConfig readFile appendCerts loadPair) dial becomePrimary close g s =
         (close c s2, Inl (Errorf ''arbitration: %w'' [AErr err]))) \<and>
    (g_DeviceID g = 0 \<or> g_Election g = 0 \<longrightarrow>
       (\<exists>e. \<forall>newClient. Dial newClient connErr (g_Addr g) (dialOptions g (cfg :: ('pool, 'cert) cli_tls tls_Config option)) obs = Some (None, Inl e)))"
proof (intro conjI impI allI)
  assume "if g_Insecure g then g_TLSCA g \<noteq> '''' \<or> g_TLSServerName g \<noteq> '''' \<or> g_TLSCert g \<noteq> '''' \<or> g_TLSKey g \<noteq> ''''
        else (g_TLSCert g = '''') \<noteq> (g_TLSKey g = '''')"
  then have "\<exists>e. clientTLSConfig readFile appendCerts loadPair g = Inl e"
    by (auto simp: clientTLSConfig_def split: if_splits)
  then show "\<exists>e. dialClient (clientTLSConfig readFile appendCerts loadPair) dial becomePrimary close g s = (s, Inl e)"
    by (auto simp: dialClient_def)
next
  assume "dialClient (clientTLSConfig readFile appendCerts loadPair) dial becomePrimary close g s = (s', Inr c)"
  then obtain cfg s1 where run: "clientTLSConfig readFile appendCerts loadPair g = Inr cfg" "dial (g_Addr g) (dialOptions g cfg) s = (s1, Inr c)"
      "becomePrimary c s1 = (s', None)"
    by (auto simp: dialClient_def split: sum.splits prod.splits option.splits)
  let ?o = "dial_options (dialOptions g cfg)"
  let ?t = "the cfg"
  have "if g_Insecure g then hd (buildGRPCDialOptions ?o) = WithTransportCredentials InsecureCreds
        else hd (buildGRPCDialOptions ?o) = WithTransportCredentials (TLSCreds ?t) \<and> tls_MinVersion ?t = VersionTLS12 \<and>
          tls_ServerName (tls_rest ?t) = g_TLSServerName g \<and>
          (if g_TLSCA g = '''' then tls_RootCAs (tls_rest ?t) = None
           else \<exists>pem pool. readFile (g_TLSCA g) = Inr pem \<and> appendCerts pem = Some pool \<and> tls_RootCAs (tls_rest ?t) = Some pool) \<and>
          (if g_TLSCert g = '''' then tls_Certificates (tls_rest ?t) = []
           else \<exists>cert. loadPair (g_TLSCert g) (g_TLSKey g) = Inr cert \<and> tls_Certificates (tls_rest ?t) = [cert])"
    using clientTLSConfig_Inr [OF run(1)] dialOptions_fields(4,5) [of g cfg] buildGRPCDialOptions_creds [of ?o]
    by (cases "g_Insecure g") auto
  then show "\<exists>cfg s1. dial (g_Addr g) (dialOptions g cfg) s = (s1, Inr c) \<and> becomePrimary c s1 = (s', None) \<and>
      (let o' = dial_options (dialOptions g cfg) in
       o_deviceID o' = g_DeviceID g \<and> o_electionID o' = ElectionID 0 (g_Election g) \<and> o_role o' = g_Role g \<and>
       (if g_Insecure g then hd (buildGRPCDialOptions o') = WithTransportCredentials InsecureCreds
        else \<exists>t. hd (buildGRPCDialOptions o') = WithTransportCredentials (TLSCreds t) \<and> tls_MinVersion t = VersionTLS12 \<and>
          tls_ServerName (tls_rest t) = g_TLSServerName g \<and>
          (if g_TLSCA g = '''' then tls_RootCAs (tls_rest t) = None
           else \<exists>pem pool. readFile (g_TLSCA g) = Inr pem \<and> appendCerts pem = Some pool \<and> tls_RootCAs (tls_rest t) = Some pool) \<and>
          (if g_TLSCert g = '''' then tls_Certificates (tls_rest t) = []
           else \<exists>cert. loadPair (g_TLSCert g) (g_TLSKey g) = Inr cert \<and> tls_Certificates (tls_rest t) = [cert])))"
    using run(2,3) dialOptions_fields(1-3) [of g cfg] by (intro exI [of _ cfg] exI [of _ s1]) (auto simp: Let_def split: if_splits)
next
  fix cfg s1 s2 err
  assume "clientTLSConfig readFile appendCerts loadPair g = Inr cfg \<and> dial (g_Addr g) (dialOptions g cfg) s = (s1, Inr c) \<and> becomePrimary c s1 = (s2, Some err)"
  then show "dialClient (clientTLSConfig readFile appendCerts loadPair) dial becomePrimary close g s = (close c s2, Inl (Errorf ''arbitration: %w'' [AErr err]))"
    by (simp add: dialClient_def)
next
  assume "g_DeviceID g = 0 \<or> g_Election g = 0"
  then show "\<exists>e. \<forall>newClient. Dial newClient connErr (g_Addr g) (dialOptions g (cfg :: ('pool, 'cert) cli_tls tls_Config option)) obs = Some (None, Inl e)"
    using Dial_invalid [of "dialOptions g cfg" _ connErr "g_Addr g" obs] by (auto simp: dialOptions_fields IsZero_def)
qed

abbreviation sample_tls_globals :: globalFlags where
  "sample_tls_globals \<equiv> sample_globals\<lparr>g_Addr := ''switch:9559'', g_Insecure := False, g_TLSCA := ''ca.pem'', g_TLSCert := ''cert.pem'', g_TLSKey := ''key.pem''\<rparr>"

text \<open>Mutual TLS: the roots are those of the CA file and the key pair that of the other two; the dialled address is kept as the state.\<close>

theorem dialClient_correct_witness:
  "\<exists>cfg t. hd (buildGRPCDialOptions (dial_options (dialOptions sample_tls_globals (cfg :: (bytes, string \<times> string) cli_tls tls_Config option)))) =
       WithTransportCredentials (TLSCreds t) \<and> tls_RootCAs (tls_rest t) = Some [1] \<and> tls_Certificates (tls_rest t) = [(''cert.pem'', ''key.pem'')]"
proof -
  let ?read = "\<lambda>f. if f = ''ca.pem'' then Inr [1] else Inr [2 :: byte]"
  let ?tls = "clientTLSConfig ?read Some (\<lambda>c k. Inr (c, k)) :: globalFlags \<Rightarrow> goerr + (bytes, string \<times> string) cli_tls tls_Config option"
  have "dialClient ?tls (\<lambda>addr _ _. (addr, Inr sample_client)) (\<lambda>_ n. (n, None)) (\<lambda>_ n. n) sample_tls_globals '''' = (''switch:9559'', Inr sample_client)"
    by (simp add: dialClient_def clientTLSConfig_def bindE_def mapErr_def)
  with dialClient_correct [of sample_tls_globals ?read Some "\<lambda>c k. Inr (c, k)" "\<lambda>addr _ _. (addr, Inr sample_client)" "\<lambda>_ n. (n, None)"
      "\<lambda>_ n. n" "''''" "''switch:9559''" sample_client None "None :: (bytes, string \<times> string) cli_tls tls_Config option"]
  show ?thesis by (auto simp: Let_def)
qed

end
