(* ===== verification/Cli_Commands.thy ===== *)
theory Cli_Commands
  imports Cli_Config
begin

text \<open>
  The parts of the command line tool that its commands share (src/cmd/p4ctl/cmd/output.go and the frame of each command), the command that sends
  a packet (packet.go), and the text that the others print (connect.go, packet.go, counter.go, pipeline.go).

  The environment of a command extends \<open>cli_env\<close> by the stream and the pipeline RPCs. A command is a
  function on the state of the process that returns an error or its result. The deadlines of the contexts are part of
  the environment.
\<close>

record 's cli_session = "'s cli_env" +
  env_send :: "'s stream_send"
  env_set :: "'s rpc_set"
  env_get :: "'s rpc_get"
  env_CloseGracefully :: "'s \<Rightarrow> 's \<times> goerr option"

text \<open>The common frame: dial, run the body with the client, and close the client on every path.\<close>

definition withClient :: "('s, 'z) cli_env_scheme \<Rightarrow> (Client \<Rightarrow> 's \<Rightarrow> 's \<times> (goerr + 'a)) \<Rightarrow> 's \<Rightarrow> 's \<times> (goerr + 'a)" where
  "withClient env body s =
     (case env_dialClient env s of
        (s1, Inl e) \<Rightarrow> (s1, Inl e)
      | (s1, Inr c) \<Rightarrow> (case body c s1 of (s2, r) \<Rightarrow> (env_Close env s2, r)))"

text \<open>Reading and parsing a P4Info file, with the error of the file returned as it is.\<close>

definition loadP4Info :: "('s, 'z) cli_env_scheme \<Rightarrow> string \<Rightarrow> goerr + Pipeline" where
  "loadP4Info env path =
     bindE (env_readFile env path) (\<lambda>raw. Pipeline_LoadText (env_reflect env) (env_unmarshalText env) raw [])"

subsection \<open>Structured output\<close>

text \<open>What a command prints: a protobuf message, a list of them, or another value. The JSON, protobuf-JSON and
  YAML libraries are parameters; a YAML document is a tree of nodes with a style.\<close>

datatype ('m, 'v) output_value = OutMessage 'm | OutMessages "'m list" | OutOther 'v

datatype 'd yaml_node = YamlNode (node_Style: int) (node_data: 'd) (node_Content: "'d yaml_node list")

primrec blockStyle :: "'d yaml_node \<Rightarrow> 'd yaml_node" where
  "blockStyle (YamlNode style d content) = YamlNode 0 d (map blockStyle content)"

record ('m, 'v, 'd) output_libs =
  protojson_Marshal :: "'m \<Rightarrow> goerr + bytes"
  json_MarshalRaw :: "bytes list \<Rightarrow> goerr + bytes"
  json_Marshal :: "'v \<Rightarrow> goerr + bytes"
  json_Indent :: "bytes \<Rightarrow> goerr + bytes"
  yaml_Unmarshal :: "bytes \<Rightarrow> goerr + 'd yaml_node"
  yaml_Encode :: "'d yaml_node \<Rightarrow> goerr + bytes"
  yaml_Close :: "bytes \<Rightarrow> goerr + bytes"

fun marshalItems :: "('m, 'v, 'd) output_libs \<Rightarrow> nat \<Rightarrow> 'm list \<Rightarrow> goerr + bytes list" where
  "marshalItems libs i [] = Inr []"
| "marshalItems libs i (m # ms) =
     bindE (mapErr (\<lambda>e. Errorf ''encode output item %d: %w'' [AInt (int i), AErr e]) (protojson_Marshal libs m)) (\<lambda>d.
     bindE (marshalItems libs (Suc i) ms) (\<lambda>ds. Inr (d # ds)))"

definition encodeOutput :: "('m, 'v, 'd) output_libs \<Rightarrow> ('m, 'v) output_value \<Rightarrow> goerr + bytes" where
  "encodeOutput libs x =
     (let wrap = mapErr (\<lambda>e. Errorf ''encode output: %w'' [AErr e]) in
      case x of
        OutMessage m \<Rightarrow> wrap (protojson_Marshal libs m)
      | OutMessages ms \<Rightarrow> bindE (marshalItems libs 0 ms) (\<lambda>items. wrap (json_MarshalRaw libs items))
      | OutOther v \<Rightarrow> wrap (json_Marshal libs v))"

definition formatOutput :: "('m, 'v, 'd) output_libs \<Rightarrow> string \<Rightarrow> bytes \<Rightarrow> goerr + bytes" where
  "formatOutput libs format data =
     (if format = ''json'' then
        bindE (mapErr (\<lambda>e. Errorf ''format JSON output: %w'' [AErr e]) (json_Indent libs data)) (\<lambda>out. Inr (out @ [10]))
      else
        bindE (mapErr (\<lambda>e. Errorf ''format YAML output: %w'' [AErr e]) (yaml_Unmarshal libs data)) (\<lambda>document.
        bindE (mapErr (\<lambda>e. Errorf ''encode YAML output: %w'' [AErr e]) (yaml_Encode libs (blockStyle document))) (\<lambda>out.
        mapErr (\<lambda>e. Errorf ''finish YAML output: %w'' [AErr e]) (yaml_Close libs out))))"

text \<open>\<open>write\<close> is the writer of the standard output; other formats than the two are left to \<open>validateOutput\<close>, whose
  result is returned.\<close>

definition writeStructuredOutput :: "('m, 'v, 'd) output_libs \<Rightarrow> (bytes \<Rightarrow> 's \<Rightarrow> 's \<times> goerr option) \<Rightarrow> globalFlags \<Rightarrow>
    ('m, 'v) output_value \<Rightarrow> 's \<Rightarrow> 's \<times> goerr option" where
  "writeStructuredOutput libs write g x s =
     (case encodeOutput libs x of
        Inl e \<Rightarrow> (s, Some e)
      | Inr data \<Rightarrow>
          if g_Output g \<noteq> ''json'' \<and> g_Output g \<noteq> ''yaml'' then (s, validateOutput (g_Output g))
          else case formatOutput libs (g_Output g) data of
            Inl e \<Rightarrow> (s, Some e)
          | Inr out \<Rightarrow> write out s)"

subsection \<open>connect\<close>

text \<open>\<^verbatim>\<open>%d\<close> of a signed integer, and \<^verbatim>\<open>%t\<close>.\<close>

definition signedDecimal :: "int \<Rightarrow> string" where
  "signedDecimal i = (if i < 0 then ''-'' @ decimal (nat (- i)) else decimal (nat i))"

definition ElectionID_String :: "ElectionID \<Rightarrow> string" where
  "ElectionID_String e = decimal (unat (High e)) @ '':'' @ decimal (unat (Low e))"

definition connectText :: "uint64 \<Rightarrow> ElectionID \<Rightarrow> State \<Rightarrow> bool \<Rightarrow> string" where
  "connectText dev e st primary =
     ''connected: device_id='' @ decimal (unat dev) @ '' election_id='' @ ElectionID_String e @
     '' state='' @ State_String st @ '' primary='' @ (if primary then ''true'' else ''false'') @ [CHR 10]"

subsection \<open>packet send and sniff\<close>

record packet_flags =
  packetP4Info :: string
  packetPort :: uint64
  packetHex :: string

text \<open>The packet a send command builds before it dials.\<close>

definition packetOutOf :: "Pipeline \<Rightarrow> uint64 \<Rightarrow> bytes \<Rightarrow> goerr + PacketOut" where
  "packetOutOf p port raw =
     (case Pipeline_PacketMetadata (Some p) ''packet_out'' of
        None \<Rightarrow> Inl (Errorf ''--p4info must declare packet_out metadata'' [])
      | Some metadata \<Rightarrow>
          (case ControllerPacketMetadataDef_Field (Some metadata) ''egress_port'' of
             None \<Rightarrow> Inl (Errorf ''packet_out must declare egress_port metadata'' [])
           | Some portField \<Rightarrow>
               bindE (mapErr (\<lambda>e. Errorf ''--port: %w'' [AErr e]) (EncodeUint port (pf_Bitwidth portField))) (\<lambda>v.
               Inr \<lparr>pout_Payload = raw, pout_Metadata = (''egress_port'', v) #
                 (if ControllerPacketMetadataDef_Field (Some metadata) ''_pad'' \<noteq> None then [(''_pad'', [0])] else [])\<rparr>)))"

definition packetSend :: "'s cli_session \<Rightarrow> packet_flags \<Rightarrow> 's \<Rightarrow> 's \<times> (goerr + unit)" where
  "packetSend env fl s =
     (if packetP4Info fl = '''' \<or> packetHex fl = '''' then (s, Inl (Errorf ''--p4info and --hex required'' []))
      else case hexDecode (packetHex fl) of
        None \<Rightarrow> (s, Inl (Errorf ''parse hex: %w'' [AErr (NewErr ''encoding/hex'')]))
      | Some raw \<Rightarrow>
          (case bindE (loadP4Info env (packetP4Info fl)) (\<lambda>p. bindE (packetOutOf p (packetPort fl) raw) (\<lambda>out. Inr (p, out))) of
             Inl e \<Rightarrow> (s, Inl e)
           | Inr (p, out) \<Rightarrow>
               withClient env (\<lambda>c s1.
                 case packetio_NewSubscriber (Some c) (Some p) of
                   Inl e \<Rightarrow> (s1, Inl e)
                 | Inr sub \<Rightarrow>
                     (case packetio_Send (env_send env) sub (Some out) s1 of
                        (s2, Some e) \<Rightarrow> (s2, Inl e)
                      | (s2, None) \<Rightarrow>
                          (case env_CloseGracefully env s2 of
                             (s3, Some e) \<Rightarrow> (s3, Inl e)
                           | (s3, None) \<Rightarrow> (s3, Inr ())))) s))"

text \<open>The line a sniff prints for a packet: the port bytes as \<^verbatim>\<open>%v\<close> of a byte slice, and the first 16 bytes in hexadecimal.\<close>

definition bytesText :: "bytes \<Rightarrow> string" where
  "bytesText b = ''['' @ Join (map (decimal \<circ> unat) b) '' '' @ '']''"

definition packetInText :: "PacketIn \<Rightarrow> string" where
  "packetInText pkt =
     ''packet-in: port='' @ bytesText (case pin_Metadata pkt ''ingress_port'' of None \<Rightarrow> [] | Some b \<Rightarrow> b) @
     '' bytes='' @ decimal (length (pin_Payload pkt)) @
     '' payload='' @ concat (map formatHexByte (take (min 16 (length (pin_Payload pkt))) (pin_Payload pkt))) @ [CHR 10]"

subsection \<open>counter read\<close>

record counter_flags =
  counterP4Info :: string
  counterName :: string
  counterIndex :: int

definition counterText :: "counter_Data list \<Rightarrow> string" where
  "counterText es = concat (map (\<lambda>e. cd_Name e @ ''['' @ signedDecimal (cd_Index e) @ '']: packets='' @ signedDecimal (cd_Packets e) @
     '' bytes='' @ signedDecimal (cd_Bytes e) @ [CHR 10]) es)"

subsection \<open>pipeline set and get\<close>

record pipeline_flags =
  pipelineP4Info :: string
  pipelineConfig :: string

definition pipelineText :: "P4Info_msg \<Rightarrow> string" where
  "pipelineText info =
     ''tables='' @ decimal (length (info_tables info)) @ '' actions='' @ decimal (length (info_actions info)) @
     '' counters='' @ decimal (length (info_counters info)) @ '' meters='' @ decimal (length (info_meters info)) @
     '' registers='' @ decimal (length (info_registers info)) @ '' digests='' @ decimal (length (info_digests info)) @ [CHR 10]"

subsection \<open>What structured output writes\<close>

text \<open>Every node of the document gets the block style; the nodes and their data stay.\<close>

primrec node_styles :: "'d yaml_node \<Rightarrow> int list" where
  "node_styles (YamlNode style d content) = style # concat (map node_styles content)"

primrec node_list :: "'d yaml_node \<Rightarrow> 'd list" where
  "node_list (YamlNode style d content) = d # concat (map node_list content)"

lemma blockStyle_nodes: "set (node_styles (blockStyle t)) = {0}" "node_list (blockStyle t) = node_list t"
proof (induction t)
  case (YamlNode style d content)
  { case 1 then show ?case using YamlNode(1) by auto }
  { case 2 then show ?case using YamlNode(2) by (simp cong: map_cong) }
qed

lemma marshalItems_Inr: "marshalItems libs i ms = Inr ds \<longleftrightarrow> list_all2 (\<lambda>m d. protojson_Marshal libs m = Inr d) ms ds"
  by (induction ms arbitrary: i ds) (auto simp: bindE_Inr_iff list_all2_Cons1)

text \<open>The output is written once and as a whole, or not at all.\<close>

lemma writeStructuredOutput_whole:
  assumes "writeStructuredOutput libs write g x s = (s', r)"
  shows "s' = s \<and> (r = None \<longrightarrow> \<not> structuredOutput g) \<or>
    (\<exists>data out. encodeOutput libs x = Inr data \<and> formatOutput libs (g_Output g) data = Inr out \<and> write out s = (s', r))"
  using assms by (auto simp: writeStructuredOutput_def structuredOutput_def validateOutput_def split: sum.splits if_splits)

subsection \<open>The frame of a command\<close>

lemma withClient_Inr:
  "withClient env body s = (s', Inr x) \<longleftrightarrow>
     (\<exists>s1 c s2. env_dialClient env s = (s1, Inr c) \<and> body c s1 = (s2, Inr x) \<and> s' = env_Close env s2)"
  by (auto simp: withClient_def split: prod.splits sum.splits)

lemma returned_Inr:
  "(case r of (s2, Some e) \<Rightarrow> (s2, Inl e) | (s2, None) \<Rightarrow> k s2) = (s', Inr x) \<longleftrightarrow> (\<exists>s2. r = (s2, None) \<and> k s2 = (s', Inr x))"
  by (cases r; cases "snd r") auto

lemma loadP4Info_built: "loadP4Info env path = Inr p \<Longrightarrow> \<exists>info. p = built info []"
  by (auto simp: loadP4Info_def Pipeline_LoadText_def bindE_Inr_iff New_Inr_iff)

lemma Pipeline_PacketMetadata_wf: "Pipeline_PacketMetadata (Some (built info cfg)) n = Some d \<Longrightarrow> packet_wf d"
  by (drule packet.lookup_declared) (auto intro: new_wf)

subsection \<open>The packet of a send command\<close>

lemma packetOutOf_Inr:
  assumes "packetOutOf p port raw = Inr out"
  obtains def f v where "Pipeline_PacketMetadata (Some p) ''packet_out'' = Some def"
    and "ControllerPacketMetadataDef_Field (Some def) ''egress_port'' = Some f" and "EncodeUint port (pf_Bitwidth f) = Inr v"
    and "pout_Payload out = raw" and "map_of (pout_Metadata out) ''egress_port'' = Some v"
    and "\<forall>n w. map_of (pout_Metadata out) n = Some w \<longrightarrow> n = ''egress_port'' \<and> w = v \<or> n = ''_pad'' \<and> w = [0]"
proof -
  obtain def f v where d: "Pipeline_PacketMetadata (Some p) ''packet_out'' = Some def"
      "ControllerPacketMetadataDef_Field (Some def) ''egress_port'' = Some f" "EncodeUint port (pf_Bitwidth f) = Inr v"
      "out = \<lparr>pout_Payload = raw, pout_Metadata = (''egress_port'', v) #
         (if ControllerPacketMetadataDef_Field (Some def) ''_pad'' \<noteq> None then [(''_pad'', [0])] else [])\<rparr>"
    using assms by (auto simp: packetOutOf_def bindE_Inr_iff mapErr_Inr_iff split: option.splits)
  show thesis by (rule that [OF d(1-3)]) (auto simp: d(4) split: if_splits)
qed

lemma packetSend_Inr:
  assumes "packetSend env fl s = (s', Inr x)"
  obtains raw p out c s1 s2 s3 where "hexDecode (packetHex fl) = Some raw" and "loadP4Info env (packetP4Info fl) = Inr p"
    and "packetOutOf p (packetPort fl) raw = Inr out" and "env_dialClient env s = (s1, Inr c)"
    and "packetio_Send (env_send env) \<lparr>sub_client = c, sub_inMeta = Pipeline_PacketMetadata (Some p) ''packet_in'',
        sub_outMeta = Pipeline_PacketMetadata (Some p) ''packet_out''\<rparr> (Some out) s1 = (s2, None)"
    and "env_CloseGracefully env s2 = (s3, None)" and "s' = env_Close env s3"
proof -
  obtain raw where raw: "hexDecode (packetHex fl) = Some raw"
    using assms by (auto simp: packetSend_def split: if_splits option.splits)
  obtain p out where p: "loadP4Info env (packetP4Info fl) = Inr p" "packetOutOf p (packetPort fl) raw = Inr out"
    using assms by (cases "loadP4Info env (packetP4Info fl)"; cases "packetOutOf (projr (loadP4Info env (packetP4Info fl))) (packetPort fl) raw")
      (auto simp: packetSend_def raw split: if_splits)
  have "withClient env (\<lambda>c s1. case packetio_Send (env_send env) \<lparr>sub_client = c, sub_inMeta = Pipeline_PacketMetadata (Some p) ''packet_in'',
        sub_outMeta = Pipeline_PacketMetadata (Some p) ''packet_out''\<rparr> (Some out) s1 of
        (s2, Some e) \<Rightarrow> (s2, Inl e)
      | (s2, None) \<Rightarrow> (case env_CloseGracefully env s2 of (s3, Some e) \<Rightarrow> (s3, Inl e) | (s3, None) \<Rightarrow> (s3, Inr ()))) s = (s', Inr x)"
    using assms by (simp add: packetSend_def raw p packetio_NewSubscriber_def split: if_splits)
  then show thesis using that [OF raw p] by (auto simp: withClient_Inr returned_Inr)
qed

lemma EncodeUint_value: "EncodeUint v w = Inr b \<Longrightarrow> canonical b \<and> be_nat b = unat v"
  using EncodeUint_Inr [of v w b] by (simp add: canonical_strip be_nat_strip be_nat_putUint64)

lemma packetio_Send_None:
  assumes "packetio_Send send sub (Some out) s = (s', None)"
  obtains msg where "packetOutMessage (sub_outMeta sub) out = Inr msg" and "cl_primary (sub_client sub)"
    and "send s (Some (R_Packet msg)) = (s', None)"
  using assms by (auto simp: packetio_Send_def SendPacketOut_def SendStreamRequest_def split: sum.splits if_splits)

text \<open>Conversely, a packet that can be built is sent by a client that is primary.\<close>

lemma packetSend_run:
  assumes "loadP4Info env (packetP4Info fl) = Inr p" and "packetP4Info fl \<noteq> ''''" and "packetHex fl \<noteq> ''''"
    and "hexDecode (packetHex fl) = Some raw" and "packetOutOf p (packetPort fl) raw = Inr out"
    and "packetOutMessage (Pipeline_PacketMetadata (Some p) ''packet_out'') out = Inr msg"
    and "env_dialClient env s = (s1, Inr c)" and "cl_primary c"
    and "env_send env s1 (Some (R_Packet msg)) = (s2, None)" and "env_CloseGracefully env s2 = (s3, None)"
  shows "packetSend env fl s = (env_Close env s3, Inr ())"
  using assms
  by (simp add: packetSend_def withClient_def packetio_NewSubscriber_def packetio_Send_def SendPacketOut_def SendStreamRequest_def)
text \<open>The metadata on the wire: one value per declared field.\<close>

lemma sent_metadata:
  assumes build: "packetOutOf p port raw = Inr out" and msg: "packetOutMessage (Some def) out = Inr msg" and wf: "packet_wf def"
    and widths: "\<forall>f\<in>set (cp_Metadata def). pf_Bitwidth f < 2 ^ 31"
  shows "pom_Payload msg = raw \<and>
    list_all2 (\<lambda>f m. pm_MetadataId m = pf_ID f \<and> canonical (pm_Value m) \<and>
        (pf_Name f = ''egress_port'' \<and> be_nat (pm_Value m) = unat port \<or> pf_Name f = ''_pad'' \<and> be_nat (pm_Value m) = 0))
      (cp_Metadata def) (pom_Metadata msg)"
proof -
  obtain f :: PacketMetadataField and v where v: "EncodeUint port (pf_Bitwidth f) = Inr v" "pout_Payload out = raw"
      "\<forall>n w. map_of (pout_Metadata out) n = Some w \<longrightarrow> n = ''egress_port'' \<and> w = v \<or> n = ''_pad'' \<and> w = [0]"
    by (rule packetOutOf_Inr [OF build]) blast
  have ok: "metadata_ok (cp_Metadata def) (pout_Metadata out)"
    and m: "msg = \<lparr>pom_Payload = raw, pom_Metadata = map (encodedMetadata (pout_Metadata out)) (cp_Metadata def)\<rparr>"
    using packetOutMessage_iff [OF wf widths] msg v(2) by auto
  have enc: "canonical (pm_Value (encodedMetadata (pout_Metadata out) g)) \<and>
      (pf_Name g = ''egress_port'' \<and> be_nat (pm_Value (encodedMetadata (pout_Metadata out) g)) = unat port \<or>
       pf_Name g = ''_pad'' \<and> be_nat (pm_Value (encodedMetadata (pout_Metadata out) g)) = 0)" if g: "g \<in> set (cp_Metadata def)" for g
  proof -
    obtain w where w: "map_of (pout_Metadata out) (pf_Name g) = Some w"
      using ok g by (metis metadata_ok_def imageI map_of_eq_None_iff not_None_eq)
    have "isOk (EncodeBytes w (pf_Bitwidth g))"
      using EncodeBytes_isOk [of "pf_Bitwidth g" w] widths ok g w by (auto simp: metadata_ok_def)
    then obtain b where b: "EncodeBytes w (pf_Bitwidth g) = Inr b" by (auto simp: isOk_iff)
    then have "canonical b" "be_nat b = be_nat w" using ubytes.encode_val ubytes.encode_canon by blast+
    then show ?thesis using v(3) [rule_format, OF w] EncodeUint_value [OF v(1)] w b by (auto simp: be_nat_def)
  qed
  then show ?thesis unfolding m by (simp add: list_all2_map2 list_all2_same)
qed

text \<open>Flags that cannot be sent are refused before anything is dialled.\<close>

lemma packetSend_refused:
  assumes load: "loadP4Info env (packetP4Info fl) = Inr p" and meta: "Pipeline_PacketMetadata (Some p) ''packet_out'' = Some def"
    and bad: "hexDecode (packetHex fl) = None \<or>
      (\<forall>f. ControllerPacketMetadataDef_Field (Some def) ''egress_port'' = Some f \<longrightarrow> unat (packetPort fl) \<ge> 2 ^ nat (pf_Bitwidth f))"
  shows "\<exists>e. packetSend env fl s = (s, Inl e)"
proof (cases "hexDecode (packetHex fl)")
  case None
  then show ?thesis by (simp add: packetSend_def)
next
  case (Some raw)
  have "\<exists>e. packetOutOf p (packetPort fl) raw = Inl e"
  proof (cases "packetOutOf p (packetPort fl) raw")
    case (Inr out)
    then obtain def' f v where d: "Pipeline_PacketMetadata (Some p) ''packet_out'' = Some def'"
        "ControllerPacketMetadataDef_Field (Some def') ''egress_port'' = Some f" "EncodeUint (packetPort fl) (pf_Bitwidth f) = Inr v"
      by (rule packetOutOf_Inr)
    have "unat (packetPort fl) < 2 ^ nat (pf_Bitwidth f)" using EncodeUint_ok_iff [of "packetPort fl" "pf_Bitwidth f"] d(3) by simp
    with d(1,2) meta bad Some show ?thesis by force
  qed blast
  with load Some show ?thesis by (auto simp: packetSend_def)
qed

subsection \<open>Properties\<close>

text \<open>C40. The packet command from the flags to the wire. When \<open>packet send\<close> succeeds, the client it dialled was primary
  and the stream accepted exactly one packet-out, after which the stream was closed gracefully and the
  client closed. The payload is what the hexadecimal flag denotes; there is one metadata value per declared
  field, in declared order and in shortest form: the egress port is the number of the flag, the
  padding is zero, and no other field is declared. Text that is not hexadecimal, a P4Info that does not
  declare the port and a port number that does not fit its field are errors before anything is dialled.\<close>

theorem packetSend_correct:
  assumes "loadP4Info env (packetP4Info fl) = Inr p" and "Pipeline_PacketMetadata (Some p) ''packet_out'' = Some def"
    and "\<forall>f\<in>set (cp_Metadata def). pf_Bitwidth f < 2 ^ 31"
  shows "(packetSend env fl s = (s', Inr ()) \<longrightarrow>
      (\<exists>c s1 msg s2 s3. env_dialClient env s = (s1, Inr c) \<and> cl_primary c \<and> env_send env s1 (Some (R_Packet msg)) = (s2, None) \<and>
         env_CloseGracefully env s2 = (s3, None) \<and> s' = env_Close env s3 \<and>
         hexDecode (packetHex fl) = Some (pom_Payload msg) \<and>
         list_all2 (\<lambda>f m. pm_MetadataId m = pf_ID f \<and> canonical (pm_Value m) \<and>
             (pf_Name f = ''egress_port'' \<and> be_nat (pm_Value m) = unat (packetPort fl) \<or> pf_Name f = ''_pad'' \<and> be_nat (pm_Value m) = 0))
           (cp_Metadata def) (pom_Metadata msg))) \<and>
    (hexDecode (packetHex fl) = None \<or>
     (\<forall>f. ControllerPacketMetadataDef_Field (Some def) ''egress_port'' = Some f \<longrightarrow> unat (packetPort fl) \<ge> 2 ^ nat (pf_Bitwidth f)) \<longrightarrow>
      (\<exists>e. packetSend env fl s = (s, Inl e)))"
proof (intro conjI impI)
  assume run: "packetSend env fl s = (s', Inr ())"
  obtain raw p' out c s1 s2 s3 where r': "hexDecode (packetHex fl) = Some raw" "loadP4Info env (packetP4Info fl) = Inr p'"
      "packetOutOf p' (packetPort fl) raw = Inr out" "env_dialClient env s = (s1, Inr c)"
      "packetio_Send (env_send env) \<lparr>sub_client = c, sub_inMeta = Pipeline_PacketMetadata (Some p') ''packet_in'',
        sub_outMeta = Pipeline_PacketMetadata (Some p') ''packet_out''\<rparr> (Some out) s1 = (s2, None)"
      "env_CloseGracefully env s2 = (s3, None)" "s' = env_Close env s3"
    by (rule packetSend_Inr [OF run])
  have "p' = p" using r'(2) assms(1) by simp
  note r = r'(1,3-) [unfolded this]
  obtain msg where msg: "packetOutMessage (Some def) out = Inr msg" "cl_primary c" "env_send env s1 (Some (R_Packet msg)) = (s2, None)"
    using packetio_Send_None [OF r(4)] assms(2) by auto
  have wf: "packet_wf def" using loadP4Info_built [OF assms(1)] assms(2) Pipeline_PacketMetadata_wf by blast
  from r msg sent_metadata [OF r(2) msg(1) wf assms(3)]
  show "\<exists>c s1 msg s2 s3. env_dialClient env s = (s1, Inr c) \<and> cl_primary c \<and> env_send env s1 (Some (R_Packet msg)) = (s2, None) \<and>
      env_CloseGracefully env s2 = (s3, None) \<and> s' = env_Close env s3 \<and> hexDecode (packetHex fl) = Some (pom_Payload msg) \<and>
      list_all2 (\<lambda>f m. pm_MetadataId m = pf_ID f \<and> canonical (pm_Value m) \<and>
        (pf_Name f = ''egress_port'' \<and> be_nat (pm_Value m) = unat (packetPort fl) \<or> pf_Name f = ''_pad'' \<and> be_nat (pm_Value m) = 0))
        (cp_Metadata def) (pom_Metadata msg)"
    by (intro exI [of _ c] exI [of _ s1] exI [of _ msg] exI [of _ s2] exI [of _ s3]) simp
qed (rule packetSend_refused [OF assms(1,2)])

text \<open>A target that logs the requests of the stream, with the packet metadata of the sample program.\<close>

abbreviation packet_info :: P4Info_msg where
  "packet_info \<equiv> sample_info\<lparr>info_controller_packet_metadata :=
     [\<lparr>cpm_preamble = Some \<lparr>pre_id = 5, pre_name = ''packet_out'', pre_alias = ''''\<rparr>,
       cpm_metadata = [\<lparr>prm_id = 1, prm_name = ''egress_port'', prm_bitwidth = 9\<rparr>, \<lparr>prm_id = 2, prm_name = ''_pad'', prm_bitwidth = 7\<rparr>]\<rparr>]\<rparr>"

abbreviation sample_session :: "stream_request option list cli_session" where
  "sample_session \<equiv> \<lparr>env_readFile = (\<lambda>_. Inr []), env_reflect = sample_reflect, env_unmarshalText = (\<lambda>_. Inr packet_info),
     env_dialClient = (\<lambda>s. (s, Inr sample_client)), env_Close = id, env_write = (\<lambda>s _. (s, None)),
     env_read = (\<lambda>s _. (s, Inl EOF)), env_fromError = no_status, env_unmarshalAny = code_byte,
     env_send = (\<lambda>s req. (s @ [req], None)), env_set = (\<lambda>s _. (s, None)), env_get = (\<lambda>s _. (s, Inr None)), env_CloseGracefully = (\<lambda>s. (s, None))\<rparr>"

abbreviation sample_packet_flags :: packet_flags where
  "sample_packet_flags \<equiv> \<lparr>packetP4Info = ''p4info.txt'', packetPort = 300, packetHex = ''c0ffee''\<rparr>"

lemma packet_New: "Pipeline_New sample_reflect (Some packet_info) cfg = Inr (built packet_info cfg)"
  using sample_New [of cfg] by (simp add: New_Inr_iff)

lemma packet_lookup: "Pipeline_PacketMetadata (Some (built packet_info [])) ''packet_out'' =
    Some (newPacketMetadataDef (hd (info_controller_packet_metadata packet_info)))"
  unfolding packet.lookup_built by (simp add: has_key_def newPacketMetadataDef_def Let_def)

theorem packetSend_correct_witness:
  "\<exists>msg. fst (packetSend sample_session sample_packet_flags []) = [Some (R_Packet msg)] \<and> pom_Payload msg = [0xc0, 0xff, 0xee]"
proof -
  let ?def = "newPacketMetadataDef (hd (info_controller_packet_metadata packet_info))"
  have hex: "hexDecode ''c0ffee'' = Some [0xc0, 0xff, 0xee]" by code_simp
  have load: "loadP4Info sample_session (packetP4Info sample_packet_flags) = Inr (built packet_info [])"
    by (simp add: loadP4Info_def Pipeline_LoadText_def packet_New)
  have fs: "cp_Metadata ?def = [\<lparr>pf_ID = 1, pf_Name = ''egress_port'', pf_Bitwidth = 9\<rparr>, \<lparr>pf_ID = 2, pf_Name = ''_pad'', pf_Bitwidth = 7\<rparr>]"
    by (simp add: newPacketMetadataDef_def Let_def)
  have run: "packetSend sample_session sample_packet_flags [] = (fst (packetSend sample_session sample_packet_flags []), Inr ())"
  proof -
    have out: "packetOutOf (built packet_info []) 300 [0xc0, 0xff, 0xee] =
        Inr \<lparr>pout_Payload = [0xc0, 0xff, 0xee], pout_Metadata = [(''egress_port'', [1, 44]), (''_pad'', [0])]\<rparr>"
    proof -
      have "EncodeUint 300 9 = Inr [1, 44]" by code_simp
      then show ?thesis unfolding packetOutOf_def packet_lookup
        by (simp add: ControllerPacketMetadataDef_Field_def newPacketMetadataDef_def Let_def index_by_def)
    qed
    have "isOk (packetOutMessage (Some ?def) \<lparr>pout_Payload = [0xc0, 0xff, 0xee], pout_Metadata = [(''egress_port'', [1, 44]), (''_pad'', [0])]\<rparr>)"
      by code_simp
    then obtain msg where "packetOutMessage (Some ?def) \<lparr>pout_Payload = [0xc0, 0xff, 0xee], pout_Metadata = [(''egress_port'', [1, 44]), (''_pad'', [0])]\<rparr> = Inr msg"
      by (auto simp: isOk_iff)
    with packet_lookup have "packetOutMessage (Pipeline_PacketMetadata (Some (built packet_info [])) ''packet_out'')
        \<lparr>pout_Payload = [0xc0, 0xff, 0xee], pout_Metadata = [(''egress_port'', [1, 44]), (''_pad'', [0])]\<rparr> = Inr msg" by simp
    from packetSend_run [OF load _ _ _ _ this, of "[0xc0, 0xff, 0xee]" "[]" "[]" sample_client] out hex
    show ?thesis by simp
  qed
  show ?thesis
    using packetSend_correct [OF load packet_lookup, of "[]" "fst (packetSend sample_session sample_packet_flags [])"] fs run hex
    by auto
qed

end
