(* ===== verification/Cli_Json.thy ===== *)
theory Cli_Json
  imports Cli_Config
begin

text \<open>
  The JSON codec of the settings file (\<open>configJSONCodec\<close> in src/cmd/p4ctl/cmd/config.go), with what it uses of the package
  \<^verbatim>\<open>encoding/json\<close>: the scanner and decoder of one value with \<^verbatim>\<open>UseNumber\<close>, and \<^verbatim>\<open>Marshal\<close>. A number keeps its text.

  Strings are bytes of valid UTF-8. An object is the list of its members; the codec's map is the last
  value of each key, and \<^verbatim>\<open>Marshal\<close> lists the keys of a map in order, so a map to be encoded is its list in that order. Nesting is limited
  to 10000 levels, as in the package, and this is the recursion's bound.
\<close>

subsection \<open>Values, and scanning one\<close>

datatype json = JNull | JBool bool | JNumber string | JString string | JArray "json list" | JObject "(string \<times> json) list"

definition jsonSpace :: "char \<Rightarrow> bool" where
  "jsonSpace c \<longleftrightarrow> c \<in> {CHR '' '', CHR 9, CHR 10, CHR 13}"

definition skipSpace :: "string \<Rightarrow> string" where
  "skipSpace s = dropWhile jsonSpace s"

text \<open>Numbers: sign, integer part without leading zeros, fraction, exponent.\<close>

definition scanDigits :: "string \<Rightarrow> (string \<times> string) option" where
  "scanDigits s = (let ds = takeWhile isDigit s in if ds = [] then None else Some (ds, dropWhile isDigit s))"

definition scanInt :: "string \<Rightarrow> (string \<times> string) option" where
  "scanInt s = (case s of c # r \<Rightarrow> if c = CHR ''0'' then Some ([c], r) else scanDigits s | [] \<Rightarrow> None)"

definition scanSign :: "char set \<Rightarrow> string \<Rightarrow> string \<times> string" where
  "scanSign signs s = (case s of c # r \<Rightarrow> if c \<in> signs then ([c], r) else ([], s) | [] \<Rightarrow> ([], []))"

definition scanFrac :: "string \<Rightarrow> (string \<times> string) option" where
  "scanFrac s =
     (case s of
        c # r \<Rightarrow> if c = CHR ''.'' then map_option (\<lambda>(ds, r). (c # ds, r)) (scanDigits r) else Some ([], s)
      | [] \<Rightarrow> Some ([], []))"

definition scanExp :: "string \<Rightarrow> (string \<times> string) option" where
  "scanExp s =
     (case s of
        c # r \<Rightarrow>
          if c = CHR ''e'' \<or> c = CHR ''E'' then
            (case scanSign {CHR ''+'', CHR ''-''} r of (sg, r) \<Rightarrow> map_option (\<lambda>(ds, r). (c # sg @ ds, r)) (scanDigits r))
          else Some ([], s)
      | [] \<Rightarrow> Some ([], []))"

definition scanNumber :: "string \<Rightarrow> (string \<times> string) option" where
  "scanNumber s =
     (case scanSign {CHR ''-''} s of (sg, s) \<Rightarrow>
      case scanInt s of None \<Rightarrow> None | Some (i, s) \<Rightarrow>
      case scanFrac s of None \<Rightarrow> None | Some (f, s) \<Rightarrow>
      case scanExp s of None \<Rightarrow> None | Some (e, s) \<Rightarrow> Some (sg @ i @ f @ e, s))"

text \<open>Strings: escapes, and code points as UTF-8. A surrogate that is not half of a pair is the replacement character.\<close>

definition utf8 :: "nat \<Rightarrow> string" where
  "utf8 n = map char_of
     (if n < 0x80 then [n]
      else if n < 0x800 then [0xC0 + n div 64, 0x80 + n mod 64]
      else if n < 0x10000 then [0xE0 + n div 4096, 0x80 + n div 64 mod 64, 0x80 + n mod 64]
      else [0xF0 + n div 262144, 0x80 + n div 4096 mod 64, 0x80 + n div 64 mod 64, 0x80 + n mod 64])"

fun hex4 :: "string \<Rightarrow> nat option" where
  "hex4 [a, b, c, d] =
     (case (hexVal a, hexVal b, hexVal c, hexVal d) of
        (Some w, Some x, Some y, Some z) \<Rightarrow> Some (unat w * 4096 + unat x * 256 + unat y * 16 + unat z)
      | _ \<Rightarrow> None)"
| "hex4 _ = None"

text \<open>The second half of a pair after the first one \<open>u\<close>: the code point.\<close>

definition lowSurrogate :: "nat \<Rightarrow> string \<Rightarrow> nat option" where
  "lowSurrogate u s =
     (if 0xD800 \<le> u \<and> u < 0xDC00 \<and> take 2 s = [CHR 92, CHR ''u''] then
        (case hex4 (take 4 (drop 2 s)) of
           Some l \<Rightarrow> if 0xDC00 \<le> l \<and> l < 0xE000 then Some ((u - 0xD800) * 1024 + (l - 0xDC00) + 0x10000) else None
         | None \<Rightarrow> None)
      else None)"

definition simpleEscape :: "char \<Rightarrow> char option" where
  "simpleEscape c = map_of
     [(CHR 34, CHR 34), (CHR 92, CHR 92), (CHR ''/'', CHR ''/''), (CHR ''b'', CHR 8), (CHR ''f'', CHR 12), (CHR ''n'', CHR 10),
      (CHR ''r'', CHR 13), (CHR ''t'', CHR 9)] c"

fun scanString :: "string \<Rightarrow> (string \<times> string) option" where
  "scanString [] = None"
| "scanString (c # s) =
     (if c = CHR 34 then Some ([], s)
      else if ord_of c < 32 then None
      else if c \<noteq> CHR 92 then map_option (\<lambda>(t, r). (c # t, r)) (scanString s)
      else (case s of
          [] \<Rightarrow> None
        | e # s' \<Rightarrow>
            if e \<noteq> CHR ''u'' then
              (case simpleEscape e of None \<Rightarrow> None | Some d \<Rightarrow> map_option (\<lambda>(t, r). (d # t, r)) (scanString s'))
            else
              (case hex4 (take 4 s') of
                 None \<Rightarrow> None
               | Some u \<Rightarrow>
                   if 0xD800 \<le> u \<and> u < 0xE000 then
                     (case lowSurrogate u (drop 4 s') of
                        Some n \<Rightarrow> map_option (\<lambda>(t, r). (utf8 n @ t, r)) (scanString (drop 10 s'))
                      | None \<Rightarrow> map_option (\<lambda>(t, r). (utf8 0xFFFD @ t, r)) (scanString (drop 4 s')))
                   else map_option (\<lambda>(t, r). (utf8 u @ t, r)) (scanString (drop 4 s')))))"

text \<open>Arrays and objects, after their first element or member is known to be there; the first argument bounds their length.\<close>

primrec scanElements :: "nat \<Rightarrow> (string \<Rightarrow> (json \<times> string) option) \<Rightarrow> string \<Rightarrow> (json list \<times> string) option" where
  "scanElements 0 p s = None"
| "scanElements (Suc n) p s =
     (case p s of
        None \<Rightarrow> None
      | Some (v, r) \<Rightarrow>
          (case skipSpace r of
             c # r' \<Rightarrow>
               if c = CHR '','' then map_option (\<lambda>(vs, r). (v # vs, r)) (scanElements n p r')
               else if c = CHR '']'' then Some ([v], r') else None
           | [] \<Rightarrow> None))"

definition scanKey :: "string \<Rightarrow> (string \<times> string) option" where
  "scanKey s =
     (case skipSpace s of
        q # r \<Rightarrow>
          if q = CHR 34 then
            (case scanString r of
               Some (k, r) \<Rightarrow> (case skipSpace r of c # r \<Rightarrow> if c = CHR '':'' then Some (k, r) else None | [] \<Rightarrow> None)
             | None \<Rightarrow> None)
          else None
      | [] \<Rightarrow> None)"

primrec scanMembers :: "nat \<Rightarrow> (string \<Rightarrow> (json \<times> string) option) \<Rightarrow> string \<Rightarrow> ((string \<times> json) list \<times> string) option" where
  "scanMembers 0 p s = None"
| "scanMembers (Suc n) p s =
     (case scanKey s of
        None \<Rightarrow> None
      | Some (k, s) \<Rightarrow>
          (case p s of
             None \<Rightarrow> None
           | Some (v, r) \<Rightarrow>
               (case skipSpace r of
                  c # r' \<Rightarrow>
                    if c = CHR '','' then map_option (\<lambda>(kvs, r). ((k, v) # kvs, r)) (scanMembers n p r')
                    else if c = CHR ''}'' then Some ([(k, v)], r') else None
                | [] \<Rightarrow> None)))"

definition scanScalar :: "string \<Rightarrow> (json \<times> string) option" where
  "scanScalar s =
     (if HasPrefix s ''null'' then Some (JNull, drop 4 s)
      else if HasPrefix s ''true'' then Some (JBool True, drop 4 s)
      else if HasPrefix s ''false'' then Some (JBool False, drop 5 s)
      else if HasPrefix s [CHR 34] then map_option (\<lambda>(t, r). (JString t, r)) (scanString (tl s))
      else map_option (\<lambda>(t, r). (JNumber t, r)) (scanNumber s))"

text \<open>One value; the first argument is the number of levels that may still be opened.\<close>

primrec scanValue :: "nat \<Rightarrow> string \<Rightarrow> (json \<times> string) option" where
  "scanValue 0 s = (let s = skipSpace s in if HasPrefix s ''['' \<or> HasPrefix s ''{'' then None else scanScalar s)"
| "scanValue (Suc n) s =
     (let s = skipSpace s in
      if HasPrefix s ''['' then
        (if HasPrefix (skipSpace (tl s)) '']'' then Some (JArray [], tl (skipSpace (tl s)))
         else map_option (\<lambda>(vs, r). (JArray vs, r)) (scanElements (length s) (scanValue n) (tl s)))
      else if HasPrefix s ''{'' then
        (if HasPrefix (skipSpace (tl s)) ''}'' then Some (JObject [], tl (skipSpace (tl s)))
         else map_option (\<lambda>(kvs, r). (JObject kvs, r)) (scanMembers (length s) (scanValue n) (tl s)))
      else scanScalar s)"

definition maxNestingDepth :: nat where
  "maxNestingDepth = 10000"

text \<open>\<^verbatim>\<open>Decoder.Decode\<close>: the next value of the input and the rest, or the end of the input.\<close>

definition json_Decode :: "string \<Rightarrow> goerr + json \<times> string" where
  "json_Decode s =
     (if skipSpace s = [] then Inl EOF
      else case scanValue maxNestingDepth s of
        None \<Rightarrow> Inl (NewErr ''encoding/json: syntax error'')
      | Some r \<Rightarrow> Inr r)"

subsection \<open>The codec\<close>

definition configJSONCodec_Decode :: "string \<Rightarrow> goerr + (string \<rightharpoonup> json)" where
  "configJSONCodec_Decode text =
     bindE (json_Decode text) (\<lambda>(v, rest).
     bindE (case v of
         JObject kvs \<Rightarrow> Inr (foldl (\<lambda>m (k, v). m(k \<mapsto> v)) Map.empty kvs)
       | JNull \<Rightarrow> Inr Map.empty
       | _ \<Rightarrow> Inl (NewErr ''json: cannot unmarshal into map'')) (\<lambda>m.
     case json_Decode rest of
       Inl err \<Rightarrow> if errors_Is_EOF err then Inr m else Inl err
     | Inr _ \<Rightarrow> Inl (Errorf ''multiple JSON values in CLI config'' [])))"

definition escapeChar :: "char \<Rightarrow> string" where
  "escapeChar c =
     (if c = CHR 34 \<or> c = CHR 92 then [CHR 92, c]
      else if c = CHR 8 then [CHR 92, CHR ''b''] else if c = CHR 12 then [CHR 92, CHR ''f'']
      else if c = CHR 10 then [CHR 92, CHR ''n''] else if c = CHR 13 then [CHR 92, CHR ''r''] else if c = CHR 9 then [CHR 92, CHR ''t'']
      else if ord_of c < 32 \<or> c \<in> {CHR ''<'', CHR ''>'', CHR ''&''} then
        [CHR 92, CHR ''u'', CHR ''0'', CHR ''0'', hexDigit (ord_of c div 16), hexDigit (ord_of c mod 16)]
      else [c])"

definition quoteJSON :: "string \<Rightarrow> string" where
  "quoteJSON s = CHR 34 # concat (map escapeChar s) @ [CHR 34]"

primrec json_Marshal_value :: "json \<Rightarrow> string" where
  "json_Marshal_value JNull = ''null''"
| "json_Marshal_value (JBool b) = (if b then ''true'' else ''false'')"
| "json_Marshal_value (JNumber t) = t"
| "json_Marshal_value (JString s) = quoteJSON s"
| "json_Marshal_value (JArray vs) = ''['' @ Join (map json_Marshal_value vs) '','' @ '']''"
| "json_Marshal_value (JObject kvs) =
     ''{'' @ Join (map (\<lambda>kv. quoteJSON (fst kv) @ '':'' @ snd kv) (map (map_prod id json_Marshal_value) kvs)) '','' @ ''}''"

definition configJSONCodec_Encode :: "(string \<times> json) list \<Rightarrow> string" where
  "configJSONCodec_Encode settings = json_Marshal_value (JObject settings)"

subsection \<open>Reading back what is written\<close>

text \<open>What follows a number: nothing that could continue it.\<close>

definition ends :: "string \<Rightarrow> bool" where
  "ends s \<longleftrightarrow> (case s of [] \<Rightarrow> True | c # _ \<Rightarrow> c \<in> {CHR '','', CHR '']'', CHR ''}''} \<or> jsonSpace c)"

lemma ends_head: "ends (c # s) \<Longrightarrow> \<not> isDigit c \<and> c \<notin> {CHR ''.'', CHR ''e'', CHR ''E'', CHR ''+'', CHR ''-'', CHR ''0''}"
  by (auto simp: ends_def jsonSpace_def isDigit_def)

lemma digits_append:
  assumes "ends rest"
  shows "takeWhile isDigit (s @ rest) = takeWhile isDigit s" "dropWhile isDigit (s @ rest) = dropWhile isDigit s @ rest"
  using assms ends_head by (induction s) (cases rest; auto)+

lemma scanDigits_append: "ends rest \<Longrightarrow> scanDigits s = Some (t, r) \<Longrightarrow> scanDigits (s @ rest) = Some (t, r @ rest)"
  by (auto simp: scanDigits_def digits_append Let_def split: if_splits)

lemma scanInt_append: "ends rest \<Longrightarrow> scanInt s = Some (t, r) \<Longrightarrow> scanInt (s @ rest) = Some (t, r @ rest)"
  using scanDigits_append [of rest s] by (auto simp: scanInt_def split: list.splits if_splits)

lemma scanSign_append: "ends rest \<Longrightarrow> signs \<subseteq> {CHR ''+'', CHR ''-''} \<Longrightarrow> scanSign signs s = (t, r) \<Longrightarrow> scanSign signs (s @ rest) = (t, r @ rest)"
  using ends_head by (fastforce simp: scanSign_def split: list.splits if_splits)

lemma scanFrac_append: "ends rest \<Longrightarrow> scanFrac s = Some (t, r) \<Longrightarrow> scanFrac (s @ rest) = Some (t, r @ rest)"
proof (cases s)
  case Nil
  assume "ends rest" "scanFrac s = Some (t, r)"
  with Nil show ?thesis by (cases rest) (use ends_head in \<open>auto simp: scanFrac_def\<close>)
next
  case (Cons c s')
  assume "ends rest" "scanFrac s = Some (t, r)"
  with Cons scanDigits_append [of rest s'] show ?thesis by (auto simp: scanFrac_def split: if_splits)
qed

lemma scanExp_append: "ends rest \<Longrightarrow> scanExp s = Some (t, r) \<Longrightarrow> scanExp (s @ rest) = Some (t, r @ rest)"
proof (cases s)
  case Nil
  assume "ends rest" "scanExp s = Some (t, r)"
  with Nil show ?thesis by (cases rest) (use ends_head in \<open>auto simp: scanExp_def\<close>)
next
  case (Cons c s')
  assume a: "ends rest" "scanExp s = Some (t, r)"
  obtain sg u where sg: "scanSign {CHR ''+'', CHR ''-''} s' = (sg, u)" by fastforce
  with a Cons scanSign_append [OF a(1) _ sg] scanDigits_append [of rest u] show ?thesis
    by (auto simp: scanExp_def split: if_splits)
qed

lemma scanNumber_append:
  assumes "ends rest" and "scanNumber s = Some (t, r)"
  shows "scanNumber (s @ rest) = Some (t, r @ rest)"
proof -
  obtain sg u where sg: "scanSign {CHR ''-''} s = (sg, u)" by fastforce
  with assms(2) obtain i v f w e where parts: "scanInt u = Some (i, v)" "scanFrac v = Some (f, w)" "scanExp w = Some (e, r)" "t = sg @ i @ f @ e"
    by (auto simp: scanNumber_def split: option.splits)
  with assms(1) scanSign_append [OF assms(1) _ sg] show ?thesis
    by (simp add: scanNumber_def scanInt_append scanFrac_append scanExp_append)
qed

text \<open>Strings. A character that \<open>quoteJSON\<close> escapes, and one that it copies.\<close>

lemma unat_hexDigit: "n < 16 \<Longrightarrow> hexVal (hexDigit n) = Some (of_nat n) \<and> unat (of_nat n :: byte) = n"
  by (simp add: hexVal_hexDigit unat_of_nat)

lemma hex4_escape: "n < 128 \<Longrightarrow> hex4 [CHR ''0'', CHR ''0'', hexDigit (n div 16), hexDigit (n mod 16)] = Some n"
  using unat_hexDigit [of "n div 16"] unat_hexDigit [of "n mod 16"] by (simp add: hexVal_def)

lemma utf8_ascii: "ord_of c < 128 \<Longrightarrow> utf8 (ord_of c) = [c]"
  by (simp add: utf8_def)

lemma scanString_escape:
  assumes "ord_of c < 128"
  shows "scanString (escapeChar c @ s) = map_option (\<lambda>(t, r). (c # t, r)) (scanString s)"
proof -
  let ?n = "ord_of c :: nat"
  have u: "scanString ([CHR 92, CHR ''u'', CHR ''0'', CHR ''0'', hexDigit (?n div 16), hexDigit (?n mod 16)] @ s) =
      map_option (\<lambda>(t, r). (c # t, r)) (scanString s)"
    using assms hex4_escape [of ?n] by (simp add: utf8_ascii)
  show ?thesis
  proof (cases "c \<in> {CHR 34, CHR 92, CHR 8, CHR 12, CHR 10, CHR 13, CHR 9}")
    case True
    then show ?thesis by (auto simp: escapeChar_def simpleEscape_def)
  next
    case False
    then show ?thesis using u by (auto simp: escapeChar_def)
  qed
qed

lemma scanString_quote: "\<forall>c\<in>set t. ord_of c < 128 \<Longrightarrow> scanString (concat (map escapeChar t) @ CHR 34 # s) = Some (t, s)"
  by (induction t) (simp_all add: scanString_escape)

text \<open>Values that can be written: numbers are numbers, strings are ASCII, and the nesting.\<close>

definition ascii :: "string \<Rightarrow> bool" where
  "ascii t \<longleftrightarrow> (\<forall>c\<in>set t. ord_of c < 128)"

primrec writable :: "json \<Rightarrow> bool" where
  "writable JNull = True"
| "writable (JBool b) = True"
| "writable (JNumber t) = (scanNumber t = Some (t, []))"
| "writable (JString t) = ascii t"
| "writable (JArray vs) = list_all writable vs"
| "writable (JObject kvs) = list_all (\<lambda>kv. ascii (fst kv) \<and> snd kv) (map (map_prod id writable) kvs)"

primrec levels :: "json \<Rightarrow> nat" where
  "levels JNull = 0"
| "levels (JBool b) = 0"
| "levels (JNumber t) = 0"
| "levels (JString t) = 0"
| "levels (JArray vs) = Suc (Max (set (0 # map levels vs)))"
| "levels (JObject kvs) = Suc (Max (set (0 # map snd (map (map_prod id levels) kvs))))"

lemma levels_JArray: "levels (JArray vs) \<le> n \<longleftrightarrow> (\<exists>m. n = Suc m \<and> (\<forall>v\<in>set vs. levels v \<le> m))"
  by (cases n) auto

lemma levels_JObject: "levels (JObject kvs) \<le> n \<longleftrightarrow> (\<exists>m. n = Suc m \<and> (\<forall>kv\<in>set kvs. levels (snd kv) \<le> m))"
  by (cases n) auto

text \<open>No value starts with white space; a number starts with a digit or its sign.\<close>

lemma scanNumber_head: "scanNumber t = Some (u, r) \<Longrightarrow> \<exists>c s. t = c # s \<and> (isDigit c \<or> c = CHR ''-'')"
  by (cases t) (auto simp: scanNumber_def scanSign_def scanInt_def scanDigits_def Let_def isDigit_def split: option.splits if_splits prod.splits)

lemma value_head:
  assumes "writable v"
  shows "\<exists>c s. json_Marshal_value v = c # s \<and> \<not> jsonSpace c \<and> c \<notin> {CHR '']'', CHR ''}'', CHR '',''}"
proof (cases v)
  case (JNumber t)
  with assms scanNumber_head [of t t "[]"] show ?thesis by (auto simp: jsonSpace_def isDigit_def)
qed (auto simp: jsonSpace_def quoteJSON_def)

lemma skipSpace_head: "\<not> jsonSpace c \<Longrightarrow> skipSpace (c # s) = c # s"
  by (simp add: skipSpace_def)

lemma skip_value: "writable v \<Longrightarrow> skipSpace (json_Marshal_value v @ s) = json_Marshal_value v @ s"
  using value_head [of v] skipSpace_head by auto

lemma spaces [simp]: "\<not> jsonSpace CHR '',''" "\<not> jsonSpace CHR '']''" "\<not> jsonSpace CHR ''}''" "\<not> jsonSpace CHR ''[''" "\<not> jsonSpace CHR ''{''"
    "\<not> jsonSpace CHR '':''" "\<not> jsonSpace CHR 34"
  by (simp_all add: jsonSpace_def)

lemma ends_simps [simp]: "ends (CHR '','' # s)" "ends (CHR '']'' # s)" "ends (CHR ''}'' # s)" "ends []"
  by (simp_all add: ends_def)

lemma HasPrefix_Cons: "HasPrefix (c # s) (d # p) \<longleftrightarrow> c = d \<and> HasPrefix s p" "HasPrefix s []"
  by (simp_all add: HasPrefix_def)

lemma scanScalar_scalar:
  assumes "writable v" and "ends rest" and "levels v = 0"
  shows "scanScalar (json_Marshal_value v @ rest) = Some (v, rest)"
proof (cases v)
  case (JNumber t)
  with assms have t: "scanNumber (t @ rest) = Some (t, rest)" using scanNumber_append [of rest t t "[]"] by simp
  from JNumber assms(1) scanNumber_head [of t t "[]"] obtain c s where "t = c # s" "isDigit c \<or> c = CHR ''-''" by auto
  then show ?thesis using JNumber t by (auto simp: scanScalar_def HasPrefix_Cons isDigit_def)
next
  case (JString t)
  with assms(1) show ?thesis
    by (simp add: scanScalar_def HasPrefix_Cons quoteJSON_def scanString_quote ascii_def)
qed (use assms in \<open>auto simp: scanScalar_def HasPrefix_Cons\<close>)

text \<open>Lists of elements and of members.\<close>

lemma scanElements_Join:
  assumes "\<And>v rest. v \<in> set vs \<Longrightarrow> ends rest \<Longrightarrow> p (f v @ rest) = Some (v, rest)" and "vs \<noteq> []" and "length vs \<le> n"
  shows "scanElements n p (Join (map f vs) '','' @ CHR '']'' # s) = Some (vs, s)"
  using assms
proof (induction vs arbitrary: n)
  case (Cons v vs)
  from Cons.prems(3) obtain m where n: "n = Suc m" by (cases n) auto
  show ?case
  proof (cases vs)
    case Nil
    with n Cons.prems(1) [of v "CHR '']'' # s"] show ?thesis by (simp add: skipSpace_head)
  next
    case (Cons w ws)
    have "p (f v @ CHR '','' # Join (map f vs) '','' @ CHR '']'' # s) = Some (v, CHR '','' # Join (map f vs) '','' @ CHR '']'' # s)"
      by (rule Cons.prems(1)) simp_all
    moreover have "scanElements m p (Join (map f vs) '','' @ CHR '']'' # s) = Some (vs, s)"
      using Cons.prems Cons n by (intro Cons.IH) auto
    ultimately show ?thesis using n Cons by (simp add: skipSpace_head)
  qed
qed simp

lemma scanKey_quote: "ascii k \<Longrightarrow> scanKey (quoteJSON k @ CHR '':'' # s) = Some (k, s)"
  by (simp add: scanKey_def quoteJSON_def skipSpace_head scanString_quote ascii_def)

lemma scanMembers_Join:
  assumes "\<And>k v rest. (k, v) \<in> set kvs \<Longrightarrow> ends rest \<Longrightarrow> p (f v @ rest) = Some (v, rest)" and "\<forall>kv\<in>set kvs. ascii (fst kv)"
    and "kvs \<noteq> []" and "length kvs \<le> n"
  shows "scanMembers n p (Join (map (\<lambda>kv. quoteJSON (fst kv) @ '':'' @ snd kv) (map (map_prod id f) kvs)) '','' @ CHR ''}'' # s) = Some (kvs, s)"
  using assms
proof (induction kvs arbitrary: n)
  case (Cons kv kvs)
  let ?J = "\<lambda>kvs. Join (map (\<lambda>kv. quoteJSON (fst kv) @ '':'' @ snd kv) (map (map_prod id f) kvs)) '',''"
  obtain k v where kv: "kv = (k, v)" by fastforce
  from Cons.prems(4) obtain m where n: "n = Suc m" by (cases n) auto
  have key: "scanKey (quoteJSON k @ CHR '':'' # t) = Some (k, t)" for t by (rule scanKey_quote) (use Cons.prems(2) kv in simp)
  show ?case
  proof (cases kvs)
    case Nil
    with n kv key Cons.prems(1) [of k v "CHR ''}'' # s"] show ?thesis by (simp add: skipSpace_head)
  next
    case (Cons w ws)
    define J where "J = ?J kvs"
    have step: "?J (kv # kvs) = quoteJSON k @ CHR '':'' # f v @ CHR '','' # J" using Cons kv by (simp add: J_def)
    have "p (f v @ CHR '','' # J @ CHR ''}'' # s) = Some (v, CHR '','' # J @ CHR ''}'' # s)"
      by (rule Cons.prems(1) [of k]) (simp_all add: kv)
    moreover have "scanMembers m p (J @ CHR ''}'' # s) = Some (kvs, s)"
      unfolding J_def using Cons.prems(1,2,4) Cons n by (intro Cons.IH) auto
    ultimately show ?thesis unfolding step n using kv key by (simp add: skipSpace_head)
  qed
qed simp

lemma Join_length: "length (Join ws '','') + 1 \<ge> length ws"
  by (induction ws "'',''" rule: Join.induct) auto

lemma Join_Cons_head: "w = c # r \<Longrightarrow> \<exists>r'. Join (w # ws) sep = c # r'"
  by (cases ws) auto

lemma skip_first: "\<not> jsonSpace c \<Longrightarrow> c \<noteq> d \<Longrightarrow> s = c # r \<Longrightarrow> \<not> HasPrefix (skipSpace s) [d]"
  by (simp add: skipSpace_head HasPrefix_Cons)

lemma scanValue_scalar:
  assumes "writable v" and "ends rest" and "levels v = 0"
  shows "scanValue n (json_Marshal_value v @ rest) = Some (v, rest)"
proof -
  let ?s = "json_Marshal_value v @ rest"
  have sp: "skipSpace ?s = ?s" by (rule skip_value [OF assms(1)])
  have "\<not> HasPrefix ?s ''['' \<and> \<not> HasPrefix ?s ''{''"
  proof (cases v)
    case (JNumber t)
    with assms(1) scanNumber_head [of t t "[]"] show ?thesis by (auto simp: HasPrefix_Cons isDigit_def)
  qed (use assms(3) in \<open>auto simp: HasPrefix_Cons quoteJSON_def\<close>)
  then show ?thesis using scanScalar_scalar [OF assms] sp by (cases n) (simp_all add: Let_def)
qed

lemma scanValue_array:
  assumes "\<And>v rest. v \<in> set vs \<Longrightarrow> ends rest \<Longrightarrow> scanValue n (json_Marshal_value v @ rest) = Some (v, rest)"
    and "\<And>v. v \<in> set vs \<Longrightarrow> writable v"
  shows "scanValue (Suc n) (json_Marshal_value (JArray vs) @ rest) = Some (JArray vs, rest)"
proof (cases vs)
  case Nil
  then show ?thesis by (simp add: skipSpace_head HasPrefix_Cons Let_def)
next
  case (Cons w ws)
  let ?b = "Join (map json_Marshal_value vs) '','' @ CHR '']'' # rest"
  from assms(2) [of w] Cons obtain c s where w: "json_Marshal_value w = c # s" "\<not> jsonSpace c" "c \<noteq> CHR '']''" using value_head by fastforce
  then obtain r where "?b = c # r" using Cons Join_Cons_head [OF w(1), of "map json_Marshal_value ws" "'',''"] by auto
  then have "\<not> HasPrefix (skipSpace ?b) '']''" using w by (rule_tac skip_first)
  moreover have "scanElements (Suc (length ?b)) (scanValue n) ?b = Some (vs, rest)"
    using Cons Join_length [of "map json_Marshal_value vs"] by (intro scanElements_Join assms(1)) auto
  ultimately show ?thesis by (simp add: skipSpace_head HasPrefix_Cons Let_def del: scanElements.simps)
qed

lemma scanValue_object:
  assumes "\<And>k v rest. (k, v) \<in> set kvs \<Longrightarrow> ends rest \<Longrightarrow> scanValue n (json_Marshal_value v @ rest) = Some (v, rest)"
    and "\<forall>kv\<in>set kvs. ascii (fst kv)"
  shows "scanValue (Suc n) (json_Marshal_value (JObject kvs) @ rest) = Some (JObject kvs, rest)"
proof (cases kvs)
  case Nil
  then show ?thesis by (simp add: skipSpace_head HasPrefix_Cons Let_def)
next
  case (Cons w ws)
  let ?m = "map (\<lambda>kv. quoteJSON (fst kv) @ '':'' @ snd kv) (map (map_prod id json_Marshal_value) kvs)"
  let ?b = "Join ?m '','' @ CHR ''}'' # rest"
  obtain r where "?b = CHR 34 # r"
    using Cons Join_Cons_head [of "hd ?m" "CHR 34" _ "tl ?m" "'',''"] by (auto simp: quoteJSON_def)
  then have "\<not> HasPrefix (skipSpace ?b) ''}''" by (rule_tac skip_first) simp_all
  moreover have "scanMembers (Suc (length ?b)) (scanValue n) ?b = Some (kvs, rest)"
    using Cons Join_length [of ?m] by (intro scanMembers_Join assms) auto
  ultimately show ?thesis by (simp add: skipSpace_head HasPrefix_Cons Let_def del: scanMembers.simps)
qed

lemma members_writable: "writable (JObject kvs) \<Longrightarrow> kv \<in> set kvs \<Longrightarrow> ascii (fst kv) \<and> writable (snd kv)"
  by (force simp: list_all_iff)

lemma scanValue_Marshal:
  "writable v \<Longrightarrow> levels v \<le> n \<Longrightarrow> ends rest \<Longrightarrow> scanValue n (json_Marshal_value v @ rest) = Some (v, rest)"
proof (induction v arbitrary: n rest)
  case (JArray vs)
  from JArray.prems(2) obtain m where n: "n = Suc m" "\<forall>v\<in>set vs. levels v \<le> m" unfolding levels_JArray by blast
  have "scanValue (Suc m) (json_Marshal_value (JArray vs) @ rest) = Some (JArray vs, rest)"
    using JArray.prems(1) n(2) by (intro scanValue_array JArray.IH) (auto simp: list_all_iff)
  then show ?case using n(1) by simp
next
  case (JObject kvs)
  from JObject.prems(2) obtain m where n: "n = Suc m" "\<forall>kv\<in>set kvs. levels (snd kv) \<le> m" unfolding levels_JObject by blast
  have "scanValue (Suc m) (json_Marshal_value (JObject kvs) @ rest) = Some (JObject kvs, rest)"
  proof (rule scanValue_object)
    fix k v rest
    assume kv: "(k, v) \<in> set kvs" and r: "ends rest"
    show "scanValue m (json_Marshal_value v @ rest) = Some (v, rest)"
      using n(2) kv members_writable [OF JObject.prems(1)] r by (intro JObject.IH [of "(k, v)"]) auto
  qed (use members_writable [OF JObject.prems(1)] in auto)
  then show ?case using n(1) by simp
qed (rule scanValue_scalar; simp)+

text \<open>A decimal number is a number.\<close>

lemma scanDigits_all: "t \<noteq> [] \<Longrightarrow> \<forall>c\<in>set t. isDigit c \<Longrightarrow> scanDigits t = Some (t, [])"
  by (simp add: scanDigits_def Let_def takeWhile_eq_all_conv [THEN iffD2] dropWhile_eq_Nil_conv [THEN iffD2])

lemma scanNumber_decimal: "scanNumber (decimal n) = Some (decimal n, [])"
proof (cases "n = 0")
  case True
  then show ?thesis by (simp add: decimal_zero scanNumber_def scanSign_def scanInt_def scanFrac_def scanExp_def)
next
  case False
  obtain c r where d: "decimal n = c # r" "isDigit c" using decimal_head by blast
  with False have c: "c \<noteq> CHR ''0''" "c \<noteq> CHR ''-''" using decimal_no_leading_zero [of n] by (auto simp: isDigit_def)
  have "scanDigits (decimal n) = Some (decimal n, [])" using decimal_digits by (intro scanDigits_all) auto
  with d c show ?thesis by (simp add: scanNumber_def scanSign_def scanInt_def scanFrac_def scanExp_def)
qed

lemma foldl_update: "distinct (map fst kvs) \<Longrightarrow> foldl (\<lambda>m (k, v). m(k \<mapsto> v)) m0 kvs = m0 ++ map_of kvs"
proof (induction kvs arbitrary: m0)
  case (Cons kv kvs)
  obtain k v where kv: "kv = (k, v)" by fastforce
  with Cons.prems have "k \<notin> dom (map_of kvs)" by (auto simp: dom_map_of_conv_image_fst)
  then have "m0(k \<mapsto> v) ++ map_of kvs = (m0 ++ map_of kvs)(k \<mapsto> v)" by (simp add: map_add_upd_left)
  with Cons kv show ?case by (simp del: fun_upd_apply add: map_add_upd)
qed simp

text \<open>A setting as the settings library hands it on: strings and booleans as they are, a number as its text.\<close>

fun settingOf :: "json \<Rightarrow> setting" where
  "settingOf (JString t) = SetString t"
| "settingOf (JBool b) = SetBool b"
| "settingOf v = SetOther (json_Marshal_value v)"

text \<open>An object can be followed by anything.\<close>

lemma json_Decode_object:
  assumes wf: "writable (JObject kvs)" and "levels (JObject kvs) \<le> maxNestingDepth"
  shows "json_Decode (json_Marshal_value (JObject kvs) @ rest) = Inr (JObject kvs, rest)"
proof -
  from assms(2) obtain m where m: "maxNestingDepth = Suc m" "\<forall>kv\<in>set kvs. levels (snd kv) \<le> m" unfolding levels_JObject by blast
  have "scanValue (Suc m) (json_Marshal_value (JObject kvs) @ rest) = Some (JObject kvs, rest)"
    using m(2) members_writable [OF wf] by (intro scanValue_object scanValue_Marshal) force+
  then show ?thesis by (simp add: json_Decode_def skipSpace_head m(1) del: scanValue.simps)
qed

text \<open>C22. The JSON codec of the settings file. \<open>Decode\<close> reads back what \<open>Encode\<close> writes, whatever white space follows, and rejects any
  other text after it, so a file with two values is an error. A number is kept digit for digit: a device or election ID below
  \<open>2\<^sup>6\<^sup>4\<close> in the file is the setting the commands use, and a larger one is an error, never another number.\<close>

theorem configJSONCodec_roundtrip:
  assumes "writable (JObject settings)" and "levels (JObject settings) \<le> maxNestingDepth" and "distinct (map fst settings)"
  shows "(\<forall>t m. configJSONCodec_Decode (configJSONCodec_Encode settings @ t) = Inr m \<longleftrightarrow> skipSpace t = [] \<and> m = map_of settings) \<and>
    (\<forall>name n. (name, JNumber (decimal n)) \<in> set settings \<longrightarrow>
       (\<forall>m. configJSONCodec_Decode (configJSONCodec_Encode settings) = Inr m \<longrightarrow>
          (if n < 2 ^ 64 then uintSetting (\<lambda>k. settingOf (the (m k))) name = Inr (of_nat n)
           else \<exists>e. uintSetting (\<lambda>k. settingOf (the (m k))) name = Inl e)))"
proof -
  have dec: "configJSONCodec_Decode (configJSONCodec_Encode settings @ t) =
      (case json_Decode t of Inl err \<Rightarrow> if errors_Is_EOF err then Inr (map_of settings) else Inl err
       | Inr _ \<Rightarrow> Inl (Errorf ''multiple JSON values in CLI config'' []))" for t
    using json_Decode_object [OF assms(1,2), of t] foldl_update [OF assms(3), of Map.empty]
    by (simp add: configJSONCodec_Decode_def configJSONCodec_Encode_def)
  have read: "configJSONCodec_Decode (configJSONCodec_Encode settings @ t) = Inr m \<longleftrightarrow> skipSpace t = [] \<and> m = map_of settings" for t m
    using dec [of t] by (auto simp: json_Decode_def split: option.splits)
  have "if n < 2 ^ 64 then uintSetting (\<lambda>k. settingOf (the (m k))) name = Inr (of_nat n)
      else \<exists>e. uintSetting (\<lambda>k. settingOf (the (m k))) name = Inl e"
    if "(name, JNumber (decimal n)) \<in> set settings" "configJSONCodec_Decode (configJSONCodec_Encode settings) = Inr m" for name n m
  proof -
    have "m name = Some (JNumber (decimal n))" using read [of "[]" m] that assms(3) by auto
    then show ?thesis by (simp add: uintSetting_def ParseUint_decimal)
  qed
  with read show ?thesis by blast
qed

text \<open>The largest ID, with a nested value beside it.\<close>

theorem configJSONCodec_roundtrip_witness:
  "\<exists>m. configJSONCodec_Decode (configJSONCodec_Encode [(''device-id'', JNumber (decimal 18446744073709551615)), (''x'', JArray [JString ''<'', JNull])] @ '' '') = Inr m \<and>
     m ''device-id'' = Some (JNumber (decimal 18446744073709551615))"
proof -
  let ?s = "[(''device-id'', JNumber (decimal 18446744073709551615)), (''x'', JArray [JString ''<'', JNull])]"
  have "writable (JObject ?s)" "levels (JObject ?s) \<le> maxNestingDepth" "distinct (map fst ?s)"
    by (simp_all add: scanNumber_decimal ascii_def maxNestingDepth_def del: decimal.simps)
  from configJSONCodec_roundtrip [OF this, THEN conjunct1, rule_format, of "'' ''" "map_of ?s"]
  show ?thesis by (simp add: skipSpace_def jsonSpace_def del: decimal.simps)
qed

end
