(* ===== verification/Cli_Root.thy ===== *)
theory Cli_Root
  imports Cli_Commands Cli_Json
begin

text \<open>
  The command line tool as a whole: the commands with their output (src/cmd/p4ctl/cmd/connect.go, table.go, packet.go,
  counter.go, pipeline.go), the settings every command starts with and the root command (root.go, config.go), and
  \<^verbatim>\<open>main\<close> (src/cmd/p4ctl/main.go).

  \<open>cli_world\<close> extends the environment of the commands by the standard output, the output libraries and what a running
  client reports. \<open>cli_process\<close> adds what belongs to a process: what cobra makes of the arguments, an error, a command
  with its flags, or an answer of its own, the settings that viper looks up, and the client library that \<open>dialClient\<close> calls. A result \<open>None\<close> is a command that never
  returns, because a read of the target does not.
\<close>

subsection \<open>Output of a command\<close>

text \<open>The values commands print: protobuf messages, and the structures that are declared for JSON.\<close>

datatype cli_message = EntryMessage TableEntry | InfoMessage P4Info_msg

datatype cli_value =
    ConnectValue uint64 string string bool
  | CounterValues "counter_Data list"
  | PipelineValue string "string list"

record ('s, 'd) cli_world = "'s cli_session" +
  w_stdout :: "bytes \<Rightarrow> 's \<Rightarrow> 's \<times> goerr option"
  w_libs :: "(cli_message, cli_value, 'd) output_libs"
  w_actionText :: "Action_wire option \<Rightarrow> string"
  w_State :: "'s \<Rightarrow> State"
  w_IsPrimary :: "'s \<Rightarrow> bool"
  w_arrivals :: "'s \<Rightarrow> PacketIn_msg option list"

definition toBytes :: "string \<Rightarrow> bytes" where
  "toBytes text = map (\<lambda>c. of_nat (ord_of c)) text"

text \<open>\<^verbatim>\<open>Fprintf\<close> to the standard output; the commands ignore its error.\<close>

definition printOut :: "('s, 'd, 'z) cli_world_scheme \<Rightarrow> string \<Rightarrow> 's \<Rightarrow> 's" where
  "printOut w text s = fst (w_stdout w (toBytes text) s)"

definition returnError :: "'s \<times> goerr option \<Rightarrow> 's \<times> (goerr + unit)" where
  "returnError r = (case r of (s, Some e) \<Rightarrow> (s, Inl e) | (s, None) \<Rightarrow> (s, Inr ()))"

text \<open>The end of a command: the structured value, or the lines of the default format.\<close>

definition emit :: "('s, 'd, 'z) cli_world_scheme \<Rightarrow> globalFlags \<Rightarrow> (cli_message, cli_value) output_value \<Rightarrow> string list \<Rightarrow> 's \<Rightarrow>
    's \<times> (goerr + unit)" where
  "emit w g x text s =
     (if structuredOutput g then returnError (writeStructuredOutput (w_libs w) (w_stdout w) g x s)
      else (fold (printOut w) text s, Inr ()))"

text \<open>The frame of a command whose body may not return.\<close>

definition awaitClient :: "('s, 'z) cli_env_scheme \<Rightarrow> (Client \<Rightarrow> 's \<Rightarrow> 's \<times> (goerr + 'a) option) \<Rightarrow> 's \<Rightarrow> 's \<times> (goerr + 'a) option" where
  "awaitClient env body s =
     (case env_dialClient env s of
        (s1, Inl e) \<Rightarrow> (s1, Some (Inl e))
      | (s1, Inr c) \<Rightarrow>
          (case body c s1 of
             (s2, None) \<Rightarrow> (s2, None)
           | (s2, Some r) \<Rightarrow> (env_Close env s2, Some r)))"

subsection \<open>The commands\<close>

definition connectCmd :: "('s, 'd, 'z) cli_world_scheme \<Rightarrow> globalFlags \<Rightarrow> 's \<Rightarrow> 's \<times> (goerr + unit)" where
  "connectCmd w g =
     withClient w (\<lambda>c s.
       emit w g (OutOther (ConnectValue (cl_deviceID c) (ElectionID_String (cl_electionID c)) (State_String (w_State w s)) (w_IsPrimary w s)))
         [connectText (cl_deviceID c) (cl_electionID c) (w_State w s) (w_IsPrimary w s)] s)"

definition entryText :: "('s, 'd, 'z) cli_world_scheme \<Rightarrow> TableDef \<Rightarrow> TableEntry \<Rightarrow> string" where
  "entryText w td e =
     t_Name td @ '' id='' @ decimal (unat (te_TableId e)) @ '' priority='' @ signedDecimal (te_Priority e) @
     '' match='' @ decimal (length (te_Match e)) @ '' action='' @ w_actionText w (te_Action e) @ [CHR 10]"

definition tableReadCmd :: "('s, 'd, 'z) cli_world_scheme \<Rightarrow> globalFlags \<Rightarrow> table_flags \<Rightarrow> 's \<Rightarrow> 's \<times> (goerr + unit) option" where
  "tableReadCmd w g fl s =
     (if tableName fl = '''' \<or> tableP4Info fl = '''' then (s, Some (Inl (Errorf ''--table and --p4info required'' [])))
      else case readPipeline (cli_env.truncate w) (tableP4Info fl) of
        Inl e \<Rightarrow> (s, Some (Inl e))
      | Inr p \<Rightarrow>
          (case Pipeline_Table (Some p) (tableName fl) of
             None \<Rightarrow> (s, Some (Inl (Errorf ''table %q not in pipeline'' [AStr (tableName fl)])))
           | Some td \<Rightarrow>
               awaitClient w (\<lambda>c s1.
                 case ReadTableEntries (env_read w) c (t_ID td) s1 of
                   (s2, None) \<Rightarrow> (s2, None)
                 | (s2, Some (Inl e)) \<Rightarrow> (s2, Some (Inl e))
                 | (s2, Some (Inr entries)) \<Rightarrow>
                     map_prod id Some (emit w g (OutMessages (map EntryMessage entries)) (map (entryText w td) entries) s2)) s))"

definition counterReadCmd :: "('s, 'd, 'z) cli_world_scheme \<Rightarrow> globalFlags \<Rightarrow> counter_flags \<Rightarrow> 's \<Rightarrow> 's \<times> (goerr + unit) option" where
  "counterReadCmd w g fl s =
     (if counterP4Info fl = '''' \<or> counterName fl = '''' then (s, Some (Inl (Errorf ''--p4info and --counter required'' [])))
      else case loadP4Info w (counterP4Info fl) of
        Inl e \<Rightarrow> (s, Some (Inl e))
      | Inr p \<Rightarrow>
          awaitClient w (\<lambda>c s1.
            case NewReader ''counter'' (Some c) (Some p) of
              Inl e \<Rightarrow> (s1, Some (Inl e))
            | Inr r \<Rightarrow>
                (case counter_Read (env_read w) r (counterName fl) (counterIndex fl) s1 of
                   (s2, None) \<Rightarrow> (s2, None)
                 | (s2, Some (Inl e)) \<Rightarrow> (s2, Some (Inl e))
                 | (s2, Some (Inr entries)) \<Rightarrow>
                     map_prod id Some (emit w g (OutOther (CounterValues entries)) (map (\<lambda>e. counterText [e]) entries) s2))) s)"

text \<open>The handler of the sniff command is registered with the subscriptions of the client and runs for the packets that
  arrive until a signal ends the wait.\<close>

definition sniffHandler :: "('s, 'd, 'z) cli_world_scheme \<Rightarrow> (ControllerPacketMetadataDef option \<times> unit) call \<Rightarrow>
    (ControllerPacketMetadataDef option \<times> unit) dispatchSlots \<times> 's \<Rightarrow> (ControllerPacketMetadataDef option \<times> unit) dispatchSlots \<times> 's" where
  "sniffHandler w call st =
     (case call of
        CallPacketIn h msg \<Rightarrow> (fst st, runPacketHandler (\<lambda>_ pkt. printOut w (packetInText pkt)) h msg (snd st))
      | _ \<Rightarrow> st)"

definition packetSniffCmd :: "('s, 'd, 'z) cli_world_scheme \<Rightarrow> packet_flags \<Rightarrow> 's \<Rightarrow> 's \<times> (goerr + unit)" where
  "packetSniffCmd w fl s =
     (if packetP4Info fl = '''' then (s, Inl (Errorf ''--p4info required'' []))
      else case loadP4Info w (packetP4Info fl) of
        Inl e \<Rightarrow> (s, Inl e)
      | Inr p \<Rightarrow>
          withClient w (\<lambda>c s1.
            case packetio_NewSubscriber (Some c) (Some p) of
              Inl e \<Rightarrow> (s1, Inl e)
            | Inr sub \<Rightarrow>
                (snd (fold (\<lambda>msg. dispatch (sniffHandler w) id (U_Packet msg)) (w_arrivals w s1)
                   (fst (OnPacket sub () newDispatch), s1)), Inr ())) s)"

definition pipelineSetText :: "SetPipelineResult \<Rightarrow> string" where
  "pipelineSetText res =
     ''pipeline installed via '' @ actionName (spr_Action res) @ '' (attempted ['' @ Join (map actionName (spr_Attempted res)) '' '' @ ''])'' @ [CHR 10]"

definition pipelineSetCmd :: "('s, 'd, 'z) cli_world_scheme \<Rightarrow> globalFlags \<Rightarrow> pipeline_flags \<Rightarrow> 's \<Rightarrow> 's \<times> (goerr + unit)" where
  "pipelineSetCmd w g fl s =
     (if pipelineP4Info fl = '''' then (s, Inl (Errorf ''--p4info is required'' []))
      else case
          bindE (mapErr (\<lambda>e. Errorf ''read p4info: %w'' [AErr e]) (env_readFile w (pipelineP4Info fl))) (\<lambda>infoBytes.
          bindE (if pipelineConfig fl \<noteq> '''' then mapErr (\<lambda>e. Errorf ''read config: %w'' [AErr e]) (env_readFile w (pipelineConfig fl))
                 else Inr []) (\<lambda>cfgBytes.
          mapErr (\<lambda>e. Errorf ''parse p4info: %w'' [AErr e])
            (Pipeline_LoadText (env_reflect w) (env_unmarshalText w) infoBytes cfgBytes)))
        of
        Inl e \<Rightarrow> (s, Inl e)
      | Inr p \<Rightarrow>
          withClient w (\<lambda>c s1.
            case SetPipeline (env_set w) (env_fromError w) c (Some p) \<lparr>spo_Action = 0, spo_NoFallback = False\<rparr> s1 of
              (s2, res, Some e) \<Rightarrow> (s2, Inl e)
            | (s2, res, None) \<Rightarrow>
                emit w g (OutOther (PipelineValue (actionName (spr_Action res)) (map actionName (spr_Attempted res)))) [pipelineSetText res] s2) s)"

definition pipelineGetCmd :: "('s, 'd, 'z) cli_world_scheme \<Rightarrow> globalFlags \<Rightarrow> 's \<Rightarrow> 's \<times> (goerr + unit)" where
  "pipelineGetCmd w g =
     withClient w (\<lambda>c s.
       case GetPipeline (env_get w) (env_fromError w) (env_reflect w) c s of
         (s1, Inl e) \<Rightarrow> (s1, Inl e)
       | (s1, Inr p) \<Rightarrow> emit w g (OutMessage (InfoMessage (Pipeline_Info p))) [pipelineText (Pipeline_Info p)] s1)"

definition versionCmd :: "('s, 'd, 'z) cli_world_scheme \<Rightarrow> string \<Rightarrow> 's \<Rightarrow> 's \<times> (goerr + unit)" where
  "versionCmd w version s = (printOut w (version @ [CHR 10]) s, Inr ())"

subsection \<open>The root command and main\<close>

datatype command =
    ConnectCmd
  | PipelineSetCmd pipeline_flags
  | PipelineGetCmd
  | TableInsertCmd table_flags
  | TableModifyCmd table_flags
  | TableDeleteCmd table_flags
  | TableReadCmd table_flags
  | PacketSendCmd packet_flags
  | PacketSniffCmd packet_flags
  | CounterReadCmd counter_flags
  | VersionCmd

text \<open>What cobra makes of a command line without an error: a help or usage text (\<^verbatim>\<open>--help\<close>, a command that only groups others), which it prints and
  which runs no hook; a command of its own (such as \<^verbatim>\<open>completion\<close>), which runs after the persistent hook of the root command; or a command
  of the tool.\<close>

datatype invocation = CobraHelp | CobraCommand | RunCommand command

definition runCommand :: "('s, 'd) cli_world \<Rightarrow> globalFlags \<Rightarrow> string \<Rightarrow> command \<Rightarrow> 's \<Rightarrow> 's \<times> (goerr + unit) option" where
  "runCommand w g version cmd s =
     (let done = map_prod id Some in
      case cmd of
        ConnectCmd \<Rightarrow> done (connectCmd w g s)
      | PipelineSetCmd fl \<Rightarrow> done (pipelineSetCmd w g fl s)
      | PipelineGetCmd \<Rightarrow> done (pipelineGetCmd w g s)
      | TableInsertCmd fl \<Rightarrow> done (returnError (tableWrite (cli_env.truncate w) UpdateInsert fl s))
      | TableModifyCmd fl \<Rightarrow> done (returnError (tableWrite (cli_env.truncate w) UpdateModify fl s))
      | TableDeleteCmd fl \<Rightarrow> done (returnError (tableWrite (cli_env.truncate w) UpdateDelete fl s))
      | TableReadCmd fl \<Rightarrow> tableReadCmd w g fl s
      | PacketSendCmd fl \<Rightarrow> done (packetSend (cli_session.truncate w) fl s)
      | PacketSniffCmd fl \<Rightarrow> done (packetSniffCmd w fl s)
      | CounterReadCmd fl \<Rightarrow> counterReadCmd w g fl s
      | VersionCmd \<Rightarrow> done (versionCmd w version s))"

record ('s, 'd, 'x) cli_process =
  pr_world :: "('s, 'd) cli_world"
  pr_parse :: "goerr + invocation"
  pr_cobra :: "'s \<Rightarrow> 's \<times> goerr option"
  pr_flagSet :: "string \<Rightarrow> string option"
  pr_envFile :: string
  pr_join :: "string \<Rightarrow> string \<Rightarrow> string"
  pr_UserHomeDir :: "goerr + string"
  pr_bindErr :: "goerr option"
  pr_readInConfig :: "string \<Rightarrow> goerr option"
  pr_notExist :: "goerr \<Rightarrow> bool"
  pr_get :: "string \<Rightarrow> string \<Rightarrow> setting"
  pr_tlsConfig :: "globalFlags \<Rightarrow> goerr + 'x tls_Config option"
  pr_Dial :: "string \<Rightarrow> ('x options \<Rightarrow> 'x options) list \<Rightarrow> 's \<Rightarrow> 's \<times> (goerr + Client)"
  pr_BecomePrimary :: "Client \<Rightarrow> 's \<Rightarrow> 's \<times> goerr option"
  pr_Close :: "Client \<Rightarrow> 's \<Rightarrow> 's"
  pr_stderr :: "goerr \<Rightarrow> 's \<Rightarrow> 's"

text \<open>The declared defaults of the persistent flags, which are the defaults of the settings.\<close>

definition flagDefaults :: "(string \<times> string) list" where
  "flagDefaults =
     [(''addr'', ''127.0.0.1:9559''), (''device-id'', ''1''), (''election-id'', ''1''), (''role'', ''''), (''insecure'', ''true''), (''tls-ca'', ''''),
      (''tls-server-name'', ''''), (''tls-cert'', ''''), (''tls-key'', ''''), (''config-file'', ''''), (''config'', ''''), (''output'', ''table'')]"

definition initConfig :: "('s, 'd, 'x) cli_process \<Rightarrow> goerr + globalFlags" where
  "initConfig pr =
     (let home = (case pr_UserHomeDir pr of Inl _ \<Rightarrow> '''' | Inr h \<Rightarrow> h) in
      loadGlobalFlags (pr_flagSet pr) (pr_envFile pr) (pr_join pr) home (pr_bindErr pr) (pr_readInConfig pr) (pr_notExist pr) (pr_get pr))"

text \<open>The commands dial with the settings of the process.\<close>

definition processDial :: "('s, 'd, 'x) cli_process \<Rightarrow> globalFlags \<Rightarrow> 's \<Rightarrow> 's \<times> (goerr + Client)" where
  "processDial pr g = dialClient (pr_tlsConfig pr) (pr_Dial pr) (pr_BecomePrimary pr) (pr_Close pr) g"

definition worldOf :: "('s, 'd, 'x) cli_process \<Rightarrow> globalFlags \<Rightarrow> ('s, 'd) cli_world" where
  "worldOf pr g = (pr_world pr)\<lparr>env_dialClient := processDial pr g\<rparr>"

definition Execute :: "('s, 'd, 'x) cli_process \<Rightarrow> string \<Rightarrow> 's \<Rightarrow> 's \<times> (goerr + unit) option" where
  "Execute pr version s =
     (case pr_parse pr of
        Inl e \<Rightarrow> (s, Some (Inl e))
      | Inr CobraHelp \<Rightarrow> (fst (pr_cobra pr s), Some (Inr ()))
      | Inr CobraCommand \<Rightarrow>
          (case initConfig pr of
             Inl e \<Rightarrow> (s, Some (Inl e))
           | Inr g \<Rightarrow> map_prod id Some (returnError (pr_cobra pr s)))
      | Inr (RunCommand cmd) \<Rightarrow>
          (case initConfig pr of
             Inl e \<Rightarrow> (s, Some (Inl e))
           | Inr g \<Rightarrow> runCommand (worldOf pr g) g version cmd s))"

text \<open>The exit status of the process.\<close>

definition p4ctl_main :: "('s, 'd, 'x) cli_process \<Rightarrow> string \<Rightarrow> string \<Rightarrow> string \<Rightarrow> 's \<Rightarrow> 's \<times> int option" where
  "p4ctl_main pr version commit date s =
     (case Execute pr (''p4ctl '' @ version @ '' ('' @ commit @ '', '' @ date @ '')'') s of
        (s1, None) \<Rightarrow> (s1, None)
      | (s1, Some (Inl err)) \<Rightarrow> (pr_stderr pr err s1, Some 1)
      | (s1, Some (Inr _)) \<Rightarrow> (s1, Some 0))"

subsection \<open>Default settings\<close>

text \<open>With no flag, no variable and no file, the settings are these defaults: device and election ID one, in clear, table output.\<close>

lemma default_settings:
  assumes "pr_flagSet pr = (\<lambda>_. None)" "pr_envFile pr = ''''" "pr_UserHomeDir pr = Inl e" "pr_bindErr pr = None"
    and "pr_get pr = (\<lambda>f name. SetString (the (map_of flagDefaults name)))"
  shows "initConfig pr = Inr \<lparr>g_Addr = ''127.0.0.1:9559'', g_DeviceID = 1, g_Election = 1, g_Role = '''', g_Insecure = True, g_TLSCA = '''',
    g_TLSServerName = '''', g_TLSCert = '''', g_TLSKey = '''', g_ConfigPath = '''', g_ConfigFile = '''', g_Output = ''table''\<rparr>"
proof -
  have "decimal 1 = ''1''" by (subst decimal.simps) (simp add: char_of_def bit_simps)
  then have "ParseUint ''1'' = Some 1" using ParseUint_decimal [of 1] by simp
  then show ?thesis using assms
    by (simp add: initConfig_def loadGlobalFlags_def configFile_def flagDefaults_def uintSetting_def boolSetting_def ParseBool_def stringSetting_def validateOutput_def)
qed

subsection \<open>The frame of every command\<close>

text \<open>What a command does with the client it has dialled: the states reached by the calls of the environment other than dialling and closing.\<close>

inductive via :: "('s, 'd, 'z) cli_world_scheme \<Rightarrow> 's \<Rightarrow> 's \<Rightarrow> bool" for w where
  via_refl: "via w s s"
| via_stdout: "via w s t \<Longrightarrow> via w s (fst (w_stdout w b t))"
| via_write: "via w s t \<Longrightarrow> via w s (fst (env_write w t wreq))"
| via_read: "via w s t \<Longrightarrow> via w s (fst (env_read w t rreq))"
| via_send: "via w s t \<Longrightarrow> via w s (fst (env_send w t msg))"
| via_set: "via w s t \<Longrightarrow> via w s (fst (env_set w t preq))"
| via_get: "via w s t \<Longrightarrow> via w s (fst (env_get w t greq))"
| via_graceful: "via w s t \<Longrightarrow> via w s (fst (env_CloseGracefully w t))"

lemma via_trans: "via w t u \<Longrightarrow> via w s t \<Longrightarrow> via w s u"
  by (induction rule: via.induct) (auto intro: via.intros)

text \<open>A run of a command fails before it dials and changes nothing, or fails because the dial does, or works with the client and, if it returns,
  closes that client last.\<close>

definition framed :: "('s, 'd, 'z) cli_world_scheme \<Rightarrow> 's \<Rightarrow> 's \<times> (goerr + 'a) option \<Rightarrow> bool" where
  "framed w s r \<longleftrightarrow>
     (\<exists>e. r = (s, Some (Inl e))) \<or>
     (\<exists>s1 e. env_dialClient w s = (s1, Inl e) \<and> r = (s1, Some (Inl e))) \<or>
     (\<exists>s1 c s2. env_dialClient w s = (s1, Inr c) \<and> via w s1 s2 \<and> (r = (s2, None) \<or> (\<exists>x. r = (env_Close w s2, Some x))))"

text \<open>The contract of a command, with what follows from it: a command that succeeds had a client, and a returned command changed nothing,
  failed to dial, or closed its client last.\<close>

locale framed_command =
  fixes env :: "('s, 'd, 'z) cli_world_scheme" and run :: "'s \<Rightarrow> 's \<times> (goerr + 'a) option"
  assumes framed: "framed env s (run s)"
begin

lemma succeeds: "run s = (s', Some (Inr x)) \<Longrightarrow> \<exists>s1 c s2. env_dialClient env s = (s1, Inr c) \<and> via env s1 s2 \<and> s' = env_Close env s2"
  using framed [of s] by (auto simp: framed_def)

lemma returns:
  assumes "run s = (s', Some x)"
  obtains (refused) "s' = s" | (undialled) e where "env_dialClient env s = (s', Inl e)"
    | (closed) s1 c s2 where "env_dialClient env s = (s1, Inr c)" "via env s1 s2" "s' = env_Close env s2"
  using framed [of s] assms by (auto simp: framed_def)

end

lemma framed_refused: "framed w s (s, Some (Inl e))"
  by (simp add: framed_def)

lemma framed_awaitClient: "(\<And>c s. via w s (fst (body c s))) \<Longrightarrow> framed w s (awaitClient w body s)"
  by (auto simp: framed_def awaitClient_def split: prod.splits sum.splits option.splits) (metis fst_conv)+

lemma framed_withClient: "(\<And>c s. via w s (fst (body c s))) \<Longrightarrow> framed w s (map_prod id Some (withClient w body s))"
  by (auto simp: framed_def withClient_def split: prod.splits sum.splits) (metis fst_conv)+

lemmas framed_rules = framed_refused framed_awaitClient framed_withClient

text \<open>The operations of the client and the printing stay within the calls of the environment.\<close>

lemma via_step:
  "w_stdout w b t = (u, o1) \<Longrightarrow> via w t u" "env_write w t r1 = (u, o2) \<Longrightarrow> via w t u" "env_read w t r2 = (u, o3) \<Longrightarrow> via w t u"
  "env_send w t r3 = (u, o4) \<Longrightarrow> via w t u" "env_set w t r4 = (u, o5) \<Longrightarrow> via w t u" "env_get w t r5 = (u, o6) \<Longrightarrow> via w t u"
  "env_CloseGracefully w t = (u, o7) \<Longrightarrow> via w t u"
  using via.intros [of w] by (metis fst_conv)+

lemma via_fold: "(\<And>x t. via w t (f x t)) \<Longrightarrow> via w s (fold f xs s)"
  by (induction xs arbitrary: s) (auto intro: via_refl via_trans)

lemma via_printOut: "via w s (printOut w text s)"
  unfolding printOut_def by (rule via_stdout) (rule via_refl)

lemma via_output: "via w s (fst (writeStructuredOutput libs (w_stdout w) g x s))"
  by (simp add: writeStructuredOutput_def via_refl via_stdout split: sum.splits)

lemma via_emit: "via w s (fst (emit w g x text s))"
proof -
  have "fst (returnError r) = fst r" for r :: "'a \<times> goerr option"
    by (simp add: returnError_def split: prod.splits option.splits)
  then show ?thesis by (simp add: emit_def via_output via_fold via_printOut)
qed

lemma via_emit_after: "via w s t \<Longrightarrow> via w s (fst (emit w g x text t))"
  by (rule via_trans [OF via_emit])

lemma via_Client_Write: "via w s (fst (Client_Write (env_write w) fe un c a us s))"
  by (auto simp: Client_Write_def intro: via_refl via_step split: prod.splits option.splits)

lemma via_Client_Read: "via w s (fst (Client_Read (env_read w) c es s))"
  by (auto simp: Client_Read_def intro: via_refl via_step split: prod.splits sum.splits)

lemma via_setPipelineLoop: "via w s (fst (setPipelineLoop (env_set w) fe c cfg acts res err s))"
proof (induction acts arbitrary: res err s)
  case (Cons a acts)
  obtain t r where rpc: "env_set w s (setRequest c cfg a) = (t, r)" by force
  then have st: "via w s t" by (rule via_step)
  show ?case using rpc st via_trans [OF Cons.IH st] by (simp add: Let_def split: option.splits)
qed (simp add: via_refl)

lemma via_SetPipeline: "via w s (fst (SetPipeline (env_set w) fe c p opts s))"
  by (simp add: SetPipeline_def Let_def via_refl via_setPipelineLoop del: setPipelineLoop.simps)

lemma via_GetPipeline: "via w s (fst (GetPipeline (env_get w) fe rf c s))"
  by (auto simp: GetPipeline_def intro: via_refl via_step split: prod.splits sum.splits)

lemma via_packetio_Send: "via w s (fst (packetio_Send (env_send w) sub out s))"
  by (auto simp: packetio_Send_def SendPacketOut_def SendStreamRequest_def via_refl via_send split: option.splits sum.splits)

lemma via_sniffHandler: "via w (snd st) (snd (sniffHandler w call st))"
  by (auto simp: sniffHandler_def runPacketHandler_def printOut_def intro: via_refl via_stdout split: call.splits)

lemma via_fold_snd: "(\<And>x st. via w (snd st) (snd (f x st))) \<Longrightarrow> via w (snd st) (snd (fold f xs st))"
proof (induction xs arbitrary: st)
  case (Cons x xs)
  show ?case using via_trans [OF Cons.IH [OF Cons.prems] Cons.prems] by simp
qed (simp add: via_refl)

lemma via_sniff: "via w s (snd (fold (\<lambda>msg. dispatch (sniffHandler w) id (U_Packet msg)) xs (d, s)))"
proof -
  have "via w (snd (d, s)) (snd (fold (\<lambda>msg. dispatch (sniffHandler w) id (U_Packet msg)) xs (d, s)))"
    by (rule via_fold_snd) (simp add: dispatch_def via_fold_snd via_sniffHandler)
  then show ?thesis by simp
qed

lemma tableWrite_shape:
  "(\<exists>e. tableWrite env kind fl s = (s, Some e)) \<or>
   (\<exists>entry. tableWrite env kind fl s = (case env_dialClient env s of (s1, Inl e) \<Rightarrow> (s1, Some e)
      | (s1, Inr c) \<Rightarrow> (case WriteTableEntry (env_write env) (env_fromError env) (env_unmarshalAny env) c kind entry s1 of
          (s2, r) \<Rightarrow> (env_Close env s2, r))))"
proof (cases "(tableName fl = '''' \<or> tableP4Info fl = '''') \<or> kind \<noteq> UpdateDelete \<and> tableAction fl = ''''")
  case True
  then show ?thesis by (auto simp: tableWrite_def)
next
  case False
  then have "tableWrite env kind fl s = (case bindE (readPipeline env (tableP4Info fl)) (\<lambda>p. tableEntryOf p kind fl) of
        Inl e \<Rightarrow> (s, Some e)
      | Inr entry \<Rightarrow>
          (case env_dialClient env s of (s1, Inl e) \<Rightarrow> (s1, Some e)
           | (s1, Inr c) \<Rightarrow> (case WriteTableEntry (env_write env) (env_fromError env) (env_unmarshalAny env) c kind entry s1 of
               (s2, r) \<Rightarrow> (env_Close env s2, r))))"
    by (auto simp: tableWrite_def)
  then show ?thesis by (cases "bindE (readPipeline env (tableP4Info fl)) (\<lambda>p. tableEntryOf p kind fl)") auto
qed

lemma framed_tableWrite:
  "framed w s (map_prod id Some (returnError (tableWrite (cli_env.truncate w) kind fl s)))"
  using tableWrite_shape [of "cli_env.truncate w" kind fl s]
proof (elim disjE exE)
  fix e
  assume "tableWrite (cli_env.truncate w) kind fl s = (s, Some e)"
  then show ?thesis by (simp add: returnError_def framed_refused)
next
  fix entry
  assume writes: "tableWrite (cli_env.truncate w) kind fl s = (case env_dialClient (cli_env.truncate w) s of (s1, Inl e) \<Rightarrow> (s1, Some e)
      | (s1, Inr c) \<Rightarrow> (case WriteTableEntry (env_write (cli_env.truncate w)) (env_fromError (cli_env.truncate w))
            (env_unmarshalAny (cli_env.truncate w)) c kind entry s1 of
          (s2, r) \<Rightarrow> (env_Close (cli_env.truncate w) s2, r)))"
  obtain s1 d where d: "env_dialClient w s = (s1, d)" by force
  show ?thesis
  proof (cases d)
    case (Inl e)
    with writes d show ?thesis by (auto simp: framed_def returnError_def cli_env.defs)
  next
    case (Inr c)
    obtain s2 r where r: "WriteTableEntry (env_write w) (env_fromError w) (env_unmarshalAny w) c kind entry s1 = (s2, r)" by force
    then have "via w s1 s2"
      using via_Client_Write [of w s1 "env_fromError w" "env_unmarshalAny w" c 0 "[TableEntryUpdate kind entry]"] by (simp add: WriteTableEntry_def)
    with writes d Inr r show ?thesis by (cases r) (auto simp: framed_def returnError_def cli_env.defs)
  qed
qed

lemma framed_connect: "framed w s (map_prod id Some (connectCmd w g s))"
  unfolding connectCmd_def by (rule framed_withClient) (rule via_emit)

lemma via_print_set:
  "via w s (fst (case SetPipeline (env_set w) fe c p opts s of (s2, res, Some e) \<Rightarrow> (s2, Inl e)
     | (s2, res, None) \<Rightarrow> emit w g (x res) (text res) s2))"
  using via_SetPipeline [of w s fe c p opts] by (auto intro: via_emit_after split: prod.splits option.splits)

lemma framed_pipelineSet: "framed w s (map_prod id Some (pipelineSetCmd w g fl s))"
proof (cases "pipelineP4Info fl = ''''")
  case True
  then show ?thesis by (simp add: pipelineSetCmd_def framed_refused)
next
  case False
  show ?thesis unfolding pipelineSetCmd_def if_not_P [OF False]
    by (split sum.split) (auto simp: framed_refused intro!: framed_withClient via_print_set)
qed

lemma via_print_get:
  "via w s (fst (case GetPipeline (env_get w) fe rf c s of (s1, Inl e) \<Rightarrow> (s1, Inl e) | (s1, Inr p) \<Rightarrow> emit w g (x p) (text p) s1))"
  using via_GetPipeline [of w s fe rf c] by (auto intro: via_emit_after split: prod.splits sum.splits)

lemma framed_pipelineGet: "framed w s (map_prod id Some (pipelineGetCmd w g s))"
  unfolding pipelineGetCmd_def by (rule framed_withClient) (rule via_print_get)

text \<open>The two commands that print what a read returned.\<close>

lemma via_print_read:
  assumes "via w s (fst r)"
  shows "via w s (fst (case r of (s2, None) \<Rightarrow> (s2, None) | (s2, Some (Inl e)) \<Rightarrow> (s2, Some (Inl e))
    | (s2, Some (Inr entries)) \<Rightarrow> map_prod id Some (emit w g (x entries) (text entries) s2)))"
  using assms by (auto intro: via_emit_after split: prod.splits option.splits sum.splits)

lemma framed_tableRead: "framed w s (tableReadCmd w g fl s)"
proof -
  have "via w s (fst (ReadTableEntries (env_read w) c i s))" for c i s
    by (simp add: ReadTableEntries_def readEntries_def case_prod_beta via_Client_Read)
  then show ?thesis unfolding tableReadCmd_def
    by (auto simp: framed_refused intro!: framed_awaitClient via_print_read split: sum.splits option.splits)
qed

lemma framed_counterRead: "framed w s (counterReadCmd w g fl s)"
proof -
  have "via w s (fst (counter_Read (env_read w) r name i s))" for r name i s
    by (simp add: counter_Read_def Let_def case_prod_beta via_refl via_Client_Read split: option.splits sum.splits)
  then show ?thesis unfolding counterReadCmd_def
    by (auto simp: framed_refused via_refl intro!: framed_awaitClient via_print_read split: sum.splits)
qed

lemma framed_packetSniff: "framed w s (map_prod id Some (packetSniffCmd w fl s))"
  unfolding packetSniffCmd_def
  by (auto simp: framed_refused via_refl via_sniff intro!: framed_withClient split: sum.splits)

lemma framed_packetSend: "framed w s (map_prod id Some (packetSend (cli_session.truncate w) fl s))"
proof -
  have send: "via w s1 s2" if "packetio_Send (env_send w) sub out s1 = (s2, r)" for sub out s1 s2 r
    using via_packetio_Send [of w s1 sub out] that by simp
  show ?thesis
    by (auto simp: framed_def packetSend_def withClient_def cli_session.defs intro: send via_refl via_step via_trans
        split: prod.splits sum.splits option.splits)
qed

interpretation table_write: framed_command w "\<lambda>s. map_prod id Some (returnError (tableWrite (cli_env.truncate w) kind fl s))" for w kind fl
  by unfold_locales (rule framed_tableWrite)

interpretation connect: framed_command w "\<lambda>s. map_prod id Some (connectCmd w g s)" for w g
  by unfold_locales (rule framed_connect)

interpretation pipeline_set: framed_command w "\<lambda>s. map_prod id Some (pipelineSetCmd w g fl s)" for w g fl
  by unfold_locales (rule framed_pipelineSet)

interpretation pipeline_get: framed_command w "\<lambda>s. map_prod id Some (pipelineGetCmd w g s)" for w g
  by unfold_locales (rule framed_pipelineGet)

interpretation table_read: framed_command w "\<lambda>s. tableReadCmd w g fl s" for w g fl
  by unfold_locales (rule framed_tableRead)

interpretation packet_sniff: framed_command w "\<lambda>s. map_prod id Some (packetSniffCmd w fl s)" for w fl
  by unfold_locales (rule framed_packetSniff)

interpretation counter_read: framed_command w "\<lambda>s. counterReadCmd w g fl s" for w g fl
  by unfold_locales (rule framed_counterRead)

interpretation packet_send: framed_command w "\<lambda>s. map_prod id Some (packetSend (cli_session.truncate w) fl s)" for w fl
  by unfold_locales (rule framed_packetSend)

text \<open>So the command that the arguments select meets it, whichever it is.\<close>

lemma runCommand_framed: "cmd \<noteq> VersionCmd \<Longrightarrow> framed_command w (runCommand w g version cmd)"
  unfolding framed_command_def
  by (cases cmd) (simp_all add: runCommand_def table_write.framed connect.framed pipeline_set.framed pipeline_get.framed table_read.framed
      packet_sniff.framed counter_read.framed packet_send.framed)

lemma worldOf_simps:
  "env_dialClient (worldOf pr g) = processDial pr g" "env_Close (worldOf pr g) = env_Close (pr_world pr)"
  "w_stdout (worldOf pr g) = w_stdout (pr_world pr)" "env_readFile (worldOf pr g) = env_readFile (pr_world pr)"
  "env_reflect (worldOf pr g) = env_reflect (pr_world pr)" "env_unmarshalText (worldOf pr g) = env_unmarshalText (pr_world pr)"
  "env_write (worldOf pr g) = env_write (pr_world pr)" "env_fromError (worldOf pr g) = env_fromError (pr_world pr)"
  "env_unmarshalAny (worldOf pr g) = env_unmarshalAny (pr_world pr)"
  by (simp_all add: worldOf_def)

text \<open>The kind of update of a table command that writes.\<close>

fun writes :: "command \<Rightarrow> (int \<times> table_flags) option" where
  "writes (TableInsertCmd fl) = Some (UpdateInsert, fl)"
| "writes (TableModifyCmd fl) = Some (UpdateModify, fl)"
| "writes (TableDeleteCmd fl) = Some (UpdateDelete, fl)"
| "writes _ = None"

lemma runCommand_writes:
  "writes cmd = Some (kind, fl) \<Longrightarrow> runCommand w g version cmd s = map_prod id Some (returnError (tableWrite (cli_env.truncate w) kind fl s))"
  by (cases cmd) (auto simp: runCommand_def)

lemma tableWrite_None:
  assumes "tableWrite (cli_env.truncate w) kind fl s = (s', None)"
  shows "\<exists>p entry s1 c s2. readPipeline (cli_env.truncate w) (tableP4Info fl) = Inr p \<and> tableEntryOf p kind fl = Inr entry \<and>
    env_dialClient w s = (s1, Inr c) \<and>
    Client_Write (env_write w) (env_fromError w) (env_unmarshalAny w) c 0 [TableEntryUpdate kind entry] s1 = (s2, None) \<and>
    s' = env_Close w s2"
  using assms by (auto simp: tableWrite_def bindE_def WriteTableEntry_def cli_env.defs split: if_splits sum.splits prod.splits)

lemma readPipeline_worldOf: "readPipeline (cli_env.truncate (worldOf pr g)) path = readPipeline (cli_env.truncate (pr_world pr)) path"
  by (simp add: readPipeline_def cli_env.defs worldOf_simps)

lemma Execute_zero:
  assumes ex: "Execute pr version s = (s', Some (Inr ()))"
  shows "pr_parse pr = Inr CobraHelp \<or> (\<exists>g. initConfig pr = Inr g \<and> (pr_parse pr = Inr CobraCommand \<or>
      (\<exists>cmd. pr_parse pr = Inr (RunCommand cmd) \<and> (cmd = VersionCmd \<or> (\<exists>s1 c. processDial pr g s = (s1, Inr c))) \<and>
      (\<forall>kind fl. writes cmd = Some (kind, fl) \<longrightarrow>
        (\<exists>p entry s1 c s2. readPipeline (cli_env.truncate (pr_world pr)) (tableP4Info fl) = Inr p \<and> tableEntryOf p kind fl = Inr entry \<and>
           processDial pr g s = (s1, Inr c) \<and>
           Client_Write (env_write (pr_world pr)) (env_fromError (pr_world pr)) (env_unmarshalAny (pr_world pr)) c 0
             [TableEntryUpdate kind entry] s1 = (s2, None) \<and> s' = env_Close (pr_world pr) s2)))))"
proof (cases "\<exists>cmd. pr_parse pr = Inr (RunCommand cmd)")
  case True
  with ex obtain cmd g where go: "pr_parse pr = Inr (RunCommand cmd)" "initConfig pr = Inr g" and r: "runCommand (worldOf pr g) g version cmd s = (s', Some (Inr ()))"
    by (auto simp: Execute_def split: sum.splits)
  have "\<exists>s1 c. processDial pr g s = (s1, Inr c)" if "cmd \<noteq> VersionCmd"
    using framed_command.succeeds [OF runCommand_framed [OF that] r] by (auto simp: worldOf_simps)
  moreover have "\<exists>p entry s1 c s2. readPipeline (cli_env.truncate (pr_world pr)) (tableP4Info fl) = Inr p \<and> tableEntryOf p kind fl = Inr entry \<and>
      processDial pr g s = (s1, Inr c) \<and>
      Client_Write (env_write (pr_world pr)) (env_fromError (pr_world pr)) (env_unmarshalAny (pr_world pr)) c 0
        [TableEntryUpdate kind entry] s1 = (s2, None) \<and> s' = env_Close (pr_world pr) s2" if wr: "writes cmd = Some (kind, fl)" for kind fl
  proof -
    have "tableWrite (cli_env.truncate (worldOf pr g)) kind fl s = (s', None)"
      using r runCommand_writes [OF wr, of "worldOf pr g" g version s]
      by (auto simp: returnError_def split: prod.splits option.splits)
    from tableWrite_None [OF this] show ?thesis by (simp add: worldOf_simps readPipeline_worldOf)
  qed
  ultimately show ?thesis using go by blast
next
  case False
  with assms show ?thesis by (auto simp: Execute_def split: sum.splits invocation.splits if_splits)
qed

subsection \<open>The life of the client\<close>

text \<open>
  The processes whose client library is the modelled one. \<open>client\<close> is the client the process has made, if any: a dial
  that returns is a run of \<open>Dial\<close> and leaves what that made, \<open>Close\<close> and \<open>CloseGracefully\<close> act on it as \<open>Client_Close\<close> and
  \<open>Client_CloseGracefully\<close> do, and the RPCs, the stream, the wait for the role, the output and cobra leave it alone.
\<close>

definition client_library :: "('s, 'd, 'x) cli_process \<Rightarrow> ('s \<Rightarrow> close_state option) \<Rightarrow> goerr option \<Rightarrow> bool" where
  "client_library pr client connErr \<longleftrightarrow>
     (\<forall>addr opts s. \<exists>newClient obs r. Dial (newClient :: string \<Rightarrow> 'x DialOption list \<Rightarrow> goerr + unit) connErr addr opts obs =
        Some (client (fst (pr_Dial pr addr opts s)), r) \<and> isl r = isl (snd (pr_Dial pr addr opts s))) \<and>
     (\<forall>c s. client (pr_Close pr c s) = map_option (\<lambda>x. fst (Client_Close connErr x)) (client s)) \<and>
     (\<forall>s. client (env_Close (pr_world pr) s) = map_option (\<lambda>x. fst (Client_Close connErr x)) (client s)) \<and>
     (\<forall>s. \<exists>supErr. client (fst (env_CloseGracefully (pr_world pr) s)) = map_option (\<lambda>x. fst (Client_CloseGracefully supErr connErr x)) (client s)) \<and>
     (\<forall>s c. client (fst (pr_BecomePrimary pr c s)) = client s) \<and>
     (\<forall>s b. client (fst (w_stdout (pr_world pr) b s)) = client s) \<and>
     (\<forall>s r. client (fst (env_write (pr_world pr) s r)) = client s) \<and>
     (\<forall>s r. client (fst (env_read (pr_world pr) s r)) = client s) \<and>
     (\<forall>s r. client (fst (env_send (pr_world pr) s r)) = client s) \<and>
     (\<forall>s r. client (fst (env_set (pr_world pr) s r)) = client s) \<and>
     (\<forall>s r. client (fst (env_get (pr_world pr) s r)) = client s) \<and>
     (\<forall>s e. client (pr_stderr pr e s) = client s) \<and> (\<forall>s. client (fst (pr_cobra pr s)) = client s)"

definition closedClient :: close_state where
  "closedClient = \<lparr>cs_once = True, cs_cancelled = True, cs_supStopped = True, cs_connCloses = 1, cs_closed = True\<rparr>"

lemma Client_Close_cases:
  "fst (Client_Close connErr newClient_state) = closedClient" "fst (Client_Close connErr closedClient) = closedClient"
  "fst (Client_CloseGracefully supErr connErr x) = fst (Client_Close connErr x)"
  by (simp_all add: Client_Close_def Client_CloseGracefully_def newClient_state_def closedClient_def split: prod.splits)

lemma client_libraryD:
  assumes "client_library pr client connErr"
  shows "client (pr_Close pr c s) = map_option (\<lambda>x. fst (Client_Close connErr x)) (client s)"
    and "client (env_Close (pr_world pr) s) = map_option (\<lambda>x. fst (Client_Close connErr x)) (client s)"
    and "client (fst (pr_BecomePrimary pr c s)) = client s" "client (pr_stderr pr e s) = client s" "client (fst (pr_cobra pr s)) = client s"
    and "client (fst (w_stdout (pr_world pr) b s)) = client s" "client (fst (env_write (pr_world pr) s wreq)) = client s"
    and "client (fst (env_read (pr_world pr) s rreq)) = client s" "client (fst (env_send (pr_world pr) s msg)) = client s"
    and "client (fst (env_set (pr_world pr) s preq)) = client s" "client (fst (env_get (pr_world pr) s greq)) = client s"
  using assms by (simp_all add: client_library_def)

lemma client_library_graceful:
  "client_library pr client connErr \<Longrightarrow>
     client (fst (env_CloseGracefully (pr_world pr) s)) = map_option (\<lambda>x. fst (Client_Close connErr x)) (client s)"
  unfolding client_library_def Client_Close_cases by (elim conjE) simp

lemma client_library_Dial:
  fixes pr :: "('s, 'd, 'x) cli_process"
  assumes "client_library pr client connErr"
  obtains newClient :: "string \<Rightarrow> 'x DialOption list \<Rightarrow> goerr + unit" and obs r where
    "Dial newClient connErr addr opts obs = Some (client (fst (pr_Dial pr addr opts s)), r)" "isl r = isl (snd (pr_Dial pr addr opts s))"
  using assms [unfolded client_library_def, THEN conjunct1] that by blast

lemma Dial_makes:
  assumes "Dial newClient connErr addr opts obs = Some (c, r)"
  shows "isl r \<Longrightarrow> c \<in> {None, Some closedClient}" and "\<not> isl r \<Longrightarrow> c = Some newClient_state"
  using assms by (auto simp: Dial_def Let_def Client_Close_cases split: if_splits sum.splits option.splits dial_outcome.splits)

lemma pr_Dial_makes:
  assumes "client_library pr client connErr" and "pr_Dial pr addr opts s = (s1, r)"
  shows "isl r \<Longrightarrow> client s1 \<in> {None, Some closedClient}" and "\<not> isl r \<Longrightarrow> client s1 = Some newClient_state"
proof -
  from client_library_Dial [OF assms(1), of addr opts s] obtain newClient obs x where
    d: "Dial (newClient :: _ \<Rightarrow> _ \<Rightarrow> goerr + unit) connErr addr opts obs = Some (client (fst (pr_Dial pr addr opts s)), x)"
      "isl x = isl (snd (pr_Dial pr addr opts s))" .
  show "isl r \<Longrightarrow> client s1 \<in> {None, Some closedClient}" and "\<not> isl r \<Longrightarrow> client s1 = Some newClient_state"
    using Dial_makes [OF d(1)] d(2) assms(2) by simp_all
qed

lemma processDial_makes:
  assumes lib: "client_library pr client connErr" and start: "client s = None" and run: "processDial pr g s = (s1, r)"
  shows "isl r \<Longrightarrow> client s1 \<in> {None, Some closedClient}" and "\<not> isl r \<Longrightarrow> client s1 = Some newClient_state"
proof -
  have "(isl r \<longrightarrow> client s1 \<in> {None, Some closedClient}) \<and> (\<not> isl r \<longrightarrow> client s1 = Some newClient_state)"
  proof (cases "pr_tlsConfig pr g")
    case (Inl e)
    with run start show ?thesis by (auto simp: processDial_def dialClient_def)
  next
    case (Inr cfg)
    obtain t d where d: "pr_Dial pr (g_Addr g) (dialOptions g cfg) s = (t, d)" by force
    note made = pr_Dial_makes [OF lib d]
    show ?thesis
    proof (cases d)
      case (Inl e)
      with run d \<open>pr_tlsConfig pr g = Inr cfg\<close> made(1) show ?thesis by (auto simp: processDial_def dialClient_def)
    next
      case (Inr c)
      obtain u b where b: "pr_BecomePrimary pr c t = (u, b)" by force
      then have "client u = Some newClient_state" using client_libraryD(3) [OF lib, of c t] made(2) Inr by simp
      with run d b Inr \<open>pr_tlsConfig pr g = Inr cfg\<close> show ?thesis
        by (cases b) (auto simp: processDial_def dialClient_def client_libraryD(1) [OF lib] Client_Close_cases)
    qed
  qed
  then show "isl r \<Longrightarrow> client s1 \<in> {None, Some closedClient}" and "\<not> isl r \<Longrightarrow> client s1 = Some newClient_state" by blast+
qed

lemma via_client:
  assumes "via (worldOf pr g) s t" and "client_library pr client connErr" and "client s = Some newClient_state"
  shows "client t \<in> {Some newClient_state, Some closedClient}"
  using assms
  by (induction rule: via.induct) (auto simp: worldOf_def client_libraryD client_library_graceful Client_Close_cases)

text \<open>Whatever the invocation, the client that the process has made is closed when it ends.\<close>

lemma Execute_closes:
  assumes ex: "Execute pr version s = (s1, Some x)" and lib: "client_library pr client connErr" and start: "client s = None"
  shows "client s1 \<in> {None, Some closedClient}"
proof (cases "\<exists>cmd g. pr_parse pr = Inr (RunCommand cmd) \<and> initConfig pr = Inr g \<and> cmd \<noteq> VersionCmd")
  case True
  then obtain cmd g where go: "pr_parse pr = Inr (RunCommand cmd)" "initConfig pr = Inr g" and cmd: "cmd \<noteq> VersionCmd" by blast
  with ex have r: "runCommand (worldOf pr g) g version cmd s = (s1, Some x)" by (simp add: Execute_def)
  show ?thesis
  proof (cases rule: framed_command.returns [OF runCommand_framed [OF cmd] r])
    case 1
    with start show ?thesis by simp
  next
    case (2 e)
    with processDial_makes(1) [OF lib start] show ?thesis by (simp add: worldOf_simps)
  next
    case closed: (3 t c u)
    then have "client t = Some newClient_state" using processDial_makes(2) [OF lib start] by (simp add: worldOf_simps)
    with via_client [OF closed(2) lib] have "client u \<in> {Some newClient_state, Some closedClient}" by blast
    moreover have "client s1 = map_option (\<lambda>x. fst (Client_Close connErr x)) (client u)"
      using closed(3) by (simp add: worldOf_simps client_libraryD [OF lib])
    ultimately show ?thesis by (auto simp: Client_Close_cases)
  qed
next
  case False
  have "client (fst (pr_cobra pr s)) = None" "client (printOut (worldOf pr g) msg s) = None" for g msg
    using start by (simp_all add: printOut_def worldOf_simps client_libraryD [OF lib])
  with False ex start show ?thesis
    by (auto simp: Execute_def returnError_def runCommand_def versionCmd_def split: sum.splits invocation.splits prod.splits option.splits)
qed

subsection \<open>Properties\<close>

text \<open>C5. The command line tool. The exit status is 0 or 1. A wrong command line ends with status 1 and an error on the standard error, and so
  does a wrong setting unless cobra only prints a help text; nothing else happens then, no command starts and nothing is dialled. Status 0 has one of these
  reasons: cobra printed a help text or ran a command of its own, the command was version, or a client was dialled and won the arbitration with the settings of the process;
  of a table command that writes, status 0 means that the entry built from the flags was written by that client in one update, without an error.
  A process with the library's \<open>Dial\<close>, \<open>Close\<close> and \<open>CloseGracefully\<close> leaves no client open, whatever the invocation and whatever the errors on the way: if
  it made a client, then at the exit its context is cancelled, its supervisor stopped and its connection closed exactly once.\<close>

theorem p4ctl_main_correct:
  assumes run: "p4ctl_main pr version commit date s = (s', Some status)"
    and lib: "client_library pr client connErr"
    and start: "client s = None"
  shows "status \<in> {0, 1} \<and>
    (\<forall>cs. client s' = Some cs \<longrightarrow> cs_closed cs \<and> cs_cancelled cs \<and> cs_supStopped cs \<and> cs_connCloses cs = 1) \<and>
    (\<forall>e. pr_parse pr = Inl e \<or> (\<exists>inv. pr_parse pr = Inr inv \<and> inv \<noteq> CobraHelp) \<and> initConfig pr = Inl e \<longrightarrow> status = 1 \<and> s' = pr_stderr pr e s) \<and>
    (status = 0 \<longrightarrow> pr_parse pr = Inr CobraHelp \<or> (\<exists>g. initConfig pr = Inr g \<and> (pr_parse pr = Inr CobraCommand \<or>
       (\<exists>cmd. pr_parse pr = Inr (RunCommand cmd) \<and> (cmd = VersionCmd \<or> (\<exists>s1 c. processDial pr g s = (s1, Inr c))) \<and>
       (\<forall>kind fl. writes cmd = Some (kind, fl) \<longrightarrow>
          (\<exists>p entry s1 c s2. readPipeline (cli_env.truncate (pr_world pr)) (tableP4Info fl) = Inr p \<and> tableEntryOf p kind fl = Inr entry \<and>
             processDial pr g s = (s1, Inr c) \<and>
             Client_Write (env_write (pr_world pr)) (env_fromError (pr_world pr)) (env_unmarshalAny (pr_world pr)) c 0
               [TableEntryUpdate kind entry] s1 = (s2, None) \<and> s' = env_Close (pr_world pr) s2))))))"
proof -
  let ?v = "''p4ctl '' @ version @ '' ('' @ commit @ '', '' @ date @ '')''"
  obtain s1 y where y: "Execute pr ?v s = (s1, y)" by fastforce
  with run obtain x where "y = Some x" by (cases y) (simp_all add: p4ctl_main_def)
  with y have ex: "Execute pr ?v s = (s1, Some x)" by simp
  with run have s': "status = (if isl x then 1 else 0)" "s' = (if isl x then pr_stderr pr (projl x) s1 else s1)"
    by (cases x; simp add: p4ctl_main_def)+
  have "client s' = client s1" using s'(2) by (simp add: client_libraryD [OF lib])
  with Execute_closes [OF ex lib start]
  have closed: "\<forall>cs. client s' = Some cs \<longrightarrow> cs_closed cs \<and> cs_cancelled cs \<and> cs_supStopped cs \<and> cs_connCloses cs = 1"
    by (auto simp: closedClient_def)
  have refused: "status = 1 \<and> s' = pr_stderr pr e s"
    if "pr_parse pr = Inl e \<or> (\<exists>inv. pr_parse pr = Inr inv \<and> inv \<noteq> CobraHelp) \<and> initConfig pr = Inl e" for e
    using that ex s' by (auto simp: Execute_def split: invocation.splits)
  have zero: "Execute pr ?v s = (s', Some (Inr ()))" if "status = 0"
    using that ex s' by (cases x) (auto split: if_splits)
  show ?thesis using closed refused Execute_zero [OF zero] s'(1) by (intro conjI) (simp, blast, blast, blast)
qed

text \<open>A process with the client library of this development: its state is the client it made and the output. The poll of \<open>Dial\<close> finds the
  supervisor primary in the third round.\<close>

type_synonym sample_state = "close_state option \<times> bytes"

definition sample_obs :: "nat \<Rightarrow> State \<times> dial_event" where
  "sample_obs i = (if i < 2 then StateConnecting else StatePrimary, DialTick)"

definition sample_Dial :: "string \<Rightarrow> (unit options \<Rightarrow> unit options) list \<Rightarrow> sample_state \<Rightarrow> sample_state \<times> (goerr + Client)" where
  "sample_Dial addr opts s =
     (case Dial (\<lambda>_ _. Inr ()) None addr opts sample_obs of
        Some (c, Inl e) \<Rightarrow> ((c, snd s), Inl e)
      | Some (c, Inr _) \<Rightarrow> ((c, snd s), Inr sample_client))"

definition sample_Close :: "sample_state \<Rightarrow> sample_state" where
  "sample_Close s = (map_option (\<lambda>x. fst (Client_Close None x)) (fst s), snd s)"

abbreviation sample_world :: "(sample_state, unit) cli_world" where
  "sample_world \<equiv> \<lparr>env_readFile = (\<lambda>_. Inl EOF), env_reflect = sample_reflect, env_unmarshalText = (\<lambda>_. Inl EOF),
     env_dialClient = (\<lambda>s. (s, Inl EOF)), env_Close = sample_Close, env_write = (\<lambda>s _. (s, None)), env_read = (\<lambda>s _. (s, Inl EOF)),
     env_fromError = (\<lambda>_. (\<lparr>st_code = 0, st_message = '''', st_details = []\<rparr>, False)), env_unmarshalAny = (\<lambda>_. None),
     env_send = (\<lambda>s _. (s, None)), env_set = (\<lambda>s _. (s, None)), env_get = (\<lambda>s _. (s, Inr None)), env_CloseGracefully = (\<lambda>s. (sample_Close s, None)),
     w_stdout = (\<lambda>b s. ((fst s, snd s @ b), None)),
     w_libs = \<lparr>protojson_Marshal = (\<lambda>_. Inl EOF), json_MarshalRaw = (\<lambda>_. Inl EOF), json_Marshal = (\<lambda>_. Inr [123, 125]), json_Indent = Inr,
       yaml_Unmarshal = (\<lambda>_. Inl EOF), yaml_Encode = (\<lambda>_. Inl EOF), yaml_Close = Inr\<rparr>,
     w_actionText = (\<lambda>_. ''''), w_State = (\<lambda>_. StatePrimary), w_IsPrimary = (\<lambda>_. True), w_arrivals = (\<lambda>_. [])\<rparr>"

definition sample_process :: "(sample_state, unit, unit) cli_process" where
  "sample_process = \<lparr>pr_world = sample_world, pr_parse = Inr (RunCommand ConnectCmd), pr_cobra = (\<lambda>s. (s, None)), pr_flagSet = (\<lambda>_. None), pr_envFile = '''',
     pr_join = (\<lambda>a b. a @ ''/'' @ b), pr_UserHomeDir = Inr ''home'', pr_bindErr = None, pr_readInConfig = (\<lambda>_. Some EOF), pr_notExist = (\<lambda>_. True), pr_get = sample_get,
     pr_tlsConfig = (\<lambda>_. Inr None), pr_Dial = sample_Dial, pr_BecomePrimary = (\<lambda>_ s. (s, None)),
     pr_Close = (\<lambda>_ s. sample_Close s), pr_stderr = (\<lambda>_ s. s)\<rparr>"

lemma sample_Dial_run:
  "\<exists>r. Dial (\<lambda>_ _. Inr ()) None addr opts sample_obs = Some (fst (fst (sample_Dial addr opts s)), r) \<and> isl r = isl (snd (sample_Dial addr opts s))"
proof -
  have "dialWait sample_obs 0 = Some DialReady" unfolding dialWait_ready by (intro exI [of _ 2]) (simp add: sample_obs_def)
  then show ?thesis by (auto simp: sample_Dial_def Dial_def Let_def)
qed

lemma sample_library: "client_library sample_process fst None"
proof -
  have "\<exists>newClient obs r. Dial (newClient :: string \<Rightarrow> unit DialOption list \<Rightarrow> goerr + unit) None addr opts obs =
      Some (fst (fst (sample_Dial addr opts s)), r) \<and> isl r = isl (snd (sample_Dial addr opts s))" for addr opts s
    using sample_Dial_run [of addr opts s] by blast
  then show ?thesis by (simp add: client_library_def sample_process_def sample_Close_def Client_Close_cases)
qed

lemma sample_initConfig: "initConfig sample_process = Inr sample_globals"
  by (simp add: sample_process_def initConfig_def loadGlobalFlags_def configFile_def sample_settings boolSetting_def ParseBool_def stringSetting_def validateOutput_def
      del: fun_upd_apply cong: if_cong)

lemma sample_dialled: "processDial sample_process sample_globals (None, []) = ((Some newClient_state, []), Inr sample_client)"
proof -
  have "dialWait sample_obs 0 = Some DialReady" unfolding dialWait_ready by (intro exI [of _ 2]) (simp add: sample_obs_def)
  then have "sample_Dial '''' (dialOptions sample_globals None) (None, []) = ((Some newClient_state, []), Inr sample_client)"
    using Dial_connected [of "dialOptions sample_globals None :: (unit options \<Rightarrow> unit options) list" "\<lambda>_ _. Inr ()" "''''" "()" None sample_obs]
    by (simp add: sample_Dial_def dialOptions_fields IsZero_def)
  then show ?thesis by (simp add: processDial_def dialClient_def sample_process_def)
qed

lemma sample_connect: "p4ctl_main sample_process ''1'' ''none'' ''unknown'' (None, []) = ((Some closedClient, [123, 125, 10]), Some 0)"
proof -
  have w: "pr_world sample_process = sample_world" "pr_parse sample_process = Inr (RunCommand ConnectCmd)" by (simp_all add: sample_process_def)
  have "runCommand (worldOf sample_process sample_globals) sample_globals v ConnectCmd (None, []) = ((Some closedClient, [123, 125, 10]), Some (Inr ()))" for v
    by (simp add: runCommand_def connectCmd_def withClient_def worldOf_def w sample_dialled emit_def structuredOutput_def
        returnError_def writeStructuredOutput_def encodeOutput_def formatOutput_def)
      (simp add: sample_Close_def Client_Close_cases)
  then show ?thesis unfolding p4ctl_main_def Execute_def sample_initConfig w by simp
qed

text \<open>The connect command: a client was made and won the arbitration, and it is closed at the exit.\<close>

theorem p4ctl_main_correct_witness:
  "\<exists>cs g s1 c. fst (fst (p4ctl_main sample_process ''1'' ''none'' ''unknown'' (None, []))) = Some cs \<and> cs_connCloses cs = 1 \<and> cs_supStopped cs \<and>
     initConfig sample_process = Inr g \<and> processDial sample_process g (None, []) = (s1, Inr c) \<and> fst s1 = Some newClient_state"
proof -
  have "fst (None, [] :: bytes) = (None :: close_state option)" by simp
  moreover have "pr_parse sample_process = Inr (RunCommand ConnectCmd)" by (simp add: sample_process_def)
  ultimately have "cs_connCloses closedClient = 1 \<and> cs_supStopped closedClient" and
    "\<exists>s1 c. processDial sample_process sample_globals (None, []) = (s1, Inr c)"
    using p4ctl_main_correct [OF sample_connect sample_library] sample_initConfig by simp_all
  with sample_connect sample_initConfig sample_dialled show ?thesis by fastforce
qed

end
