(* ===== verification/Examples.thy ===== *)
theory Examples
  imports Cli_Commands
begin

text \<open>
  The example programs (src/examples): connecting, pushing a pipeline and writing one entry, packets in
  and out, and reading counters. Each is the composition of the operations of the library that its
  \<^verbatim>\<open>main\<close> makes; the flags are its arguments.

  The environment extends that of the commands by \<open>client.Dial\<close> and \<open>BecomePrimary\<close>. \<^verbatim>\<open>log.Fatalf\<close> ends the process
  at once, so the deferred \<open>Close\<close> is not run then: the result is \<open>Inl\<close> with the message and the error.
  \<open>l2_info\<close> is the P4Info that the examples come with (src/examples/testdata/l2.p4info.txt).
\<close>

subsection \<open>The programs\<close>

record ('s, 'x) example_env = "'s cli_session" +
  ex_Dial :: "string \<Rightarrow> ('x options \<Rightarrow> 'x options) list \<Rightarrow> 's \<Rightarrow> 's \<times> (goerr + Client)"
  ex_BecomePrimary :: "Client \<Rightarrow> 's \<Rightarrow> 's \<times> goerr option"

datatype fatal = Fatalf string goerr

definition exampleClient :: "('s, 'x) example_env \<Rightarrow> string \<Rightarrow> uint64 \<Rightarrow> uint64 \<Rightarrow> 's \<Rightarrow> 's \<times> (fatal + Client)" where
  "exampleClient env addr deviceID election s =
     (case ex_Dial env addr [WithDeviceID deviceID, WithElectionID (ElectionID 0 election), WithInsecure] s of
        (s1, Inl err) \<Rightarrow> (s1, Inl (Fatalf ''dial: %v'' err))
      | (s1, Inr c) \<Rightarrow>
          (case ex_BecomePrimary env c s1 of
             (s2, Some err) \<Rightarrow> (s2, Inl (Fatalf ''arbitration: %v'' err))
           | (s2, None) \<Rightarrow> (s2, Inr c)))"

definition fatalE :: "string \<Rightarrow> goerr + 'a \<Rightarrow> fatal + 'a" where
  "fatalE msg r = (case r of Inl e \<Rightarrow> Inl (Fatalf msg e) | Inr x \<Rightarrow> Inr x)"

text \<open>01: what it reports of the installed pipeline, after the line about the connection.\<close>

definition connectMain :: "('s, 'x) example_env \<Rightarrow> ('s \<Rightarrow> State) \<Rightarrow> string \<Rightarrow> uint64 \<Rightarrow> uint64 \<Rightarrow> 's \<Rightarrow> 's \<times> (fatal + string)" where
  "connectMain env stateOf addr deviceID election s =
     (case exampleClient env addr deviceID election s of
        (s1, Inl f) \<Rightarrow> (s1, Inl f)
      | (s1, Inr c) \<Rightarrow>
          let line = ''connected: device_id='' @ decimal (unat (cl_deviceID c)) @ '' election_id='' @ ElectionID_String (cl_electionID c) @
                '' state='' @ State_String (stateOf s1) @ [CHR 10] in
          (case GetPipeline (env_get env) (env_fromError env) (env_reflect env) c s1 of
             (s2, Inr p) \<Rightarrow>
               (env_Close env s2, Inr (line @ ''pipeline installed: '' @ decimal (length (Pipeline_Tables p)) @ '' tables, '' @
                  decimal (length (info_actions (Pipeline_Info p))) @ '' actions'' @ [CHR 10]))
           | (s2, Inl err) \<Rightarrow>
               if errors_Is (env_fromError env) err ErrPipelineNotSet then (env_Close env s2, Inr (line @ ''no pipeline installed '' @ [CHR 0xE2, CHR 0x80, CHR 0x94] @ '' run example 02 to push one'' @ [CHR 10]))
               else (s2, Inl (Fatalf ''get pipeline: %v'' err))))"

text \<open>02: the pipeline, then one entry of the L2 table.\<close>

definition loadPipeline :: "('s, 'x) example_env \<Rightarrow> string \<Rightarrow> string \<Rightarrow> goerr + Pipeline" where
  "loadPipeline env p4infoPath configPath =
     bindE (env_readFile env p4infoPath) (\<lambda>p4info.
     bindE (if configPath \<noteq> '''' then env_readFile env configPath else Inr []) (\<lambda>cfg.
     Pipeline_LoadText (env_reflect env) (env_unmarshalText env) p4info cfg))"

definition l2Entry :: "Pipeline \<Rightarrow> goerr + TableEntry" where
  "l2Entry p =
     bindE (MustMAC ''00:11:22:33:44:55'') (\<lambda>mac.
     bindE (MustEncodeUint 1 9) (\<lambda>port.
     Build (Builder_Action ''MyIngress.forward'' [Param ''port'' port]
       (Builder_Match ''hdr.eth.dst'' (Exact mac) (NewBuilder (Some p) ''MyIngress.t_l2'')))))"

definition l2Main :: "('s, 'x) example_env \<Rightarrow> string \<Rightarrow> uint64 \<Rightarrow> uint64 \<Rightarrow> string \<Rightarrow> string \<Rightarrow> 's \<Rightarrow> 's \<times> (fatal + unit)" where
  "l2Main env addr deviceID election p4infoPath configPath s =
     (case fatalE ''load pipeline: %v'' (loadPipeline env p4infoPath configPath) of
        Inl f \<Rightarrow> (s, Inl f)
      | Inr p \<Rightarrow>
          (case exampleClient env addr deviceID election s of
             (s1, Inl f) \<Rightarrow> (s1, Inl f)
           | (s1, Inr c) \<Rightarrow>
               (case SetPipeline (env_set env) (env_fromError env) c (Some p) \<lparr>spo_Action = 0, spo_NoFallback = False\<rparr> s1 of
                  (s2, res, Some err) \<Rightarrow> (s2, Inl (Fatalf ''set pipeline: %v'' err))
                | (s2, res, None) \<Rightarrow>
                    (case l2Entry p of
                       Inl err \<Rightarrow> (s2, Inl (Fatalf ''build entry: %v'' err))
                     | Inr entry \<Rightarrow>
                         (case WriteTableEntry (env_write env) (env_fromError env) (env_unmarshalAny env) c UpdateInsert entry s2 of
                            (s3, Some err) \<Rightarrow> (s3, Inl (Fatalf ''insert entry: %v'' err))
                          | (s3, None) \<Rightarrow> (env_Close env s3, Inr ()))))))"

text \<open>03: a handler for incoming packets and, if a port is given, one demo packet. \<open>copyAt\<close> is Go's \<^verbatim>\<open>copy\<close> into a slice
  from an index on.\<close>

definition copyAt :: "nat \<Rightarrow> bytes \<Rightarrow> bytes \<Rightarrow> bytes" where
  "copyAt i src dst = (let n = min (length src) (length dst - i) in take i dst @ take n src @ drop (i + n) dst)"

definition demoFrame :: bytes where
  "demoFrame = copyAt 14 (map (\<lambda>c. of_nat (ord_of c)) ''hello world'')
     (copyAt 0 [0x00, 0x11, 0x22, 0x33, 0x44, 0x55, 0x00, 0x66, 0x77, 0x88, 0x99, 0xaa, 0x88, 0xb5] (replicate 60 0))"

definition packetioMain :: "('s, 'x) example_env \<Rightarrow> string \<Rightarrow> uint64 \<Rightarrow> uint64 \<Rightarrow> string \<Rightarrow> uint64 \<Rightarrow> 'h \<Rightarrow>
    (ControllerPacketMetadataDef option \<times> 'h) dispatchSlots \<Rightarrow> 's \<Rightarrow> 's \<times> (fatal + (ControllerPacketMetadataDef option \<times> 'h) dispatchSlots)" where
  "packetioMain env addr deviceID election p4infoPath sendPort h d s =
     (case fatalE ''read p4info: %v'' (env_readFile env p4infoPath) of
        Inl f \<Rightarrow> (s, Inl f)
      | Inr p4info \<Rightarrow>
     (case fatalE ''parse p4info: %v'' (Pipeline_LoadText (env_reflect env) (env_unmarshalText env) p4info []) of
        Inl f \<Rightarrow> (s, Inl f)
      | Inr p \<Rightarrow>
     (case exampleClient env addr deviceID election s of
        (s1, Inl f) \<Rightarrow> (s1, Inl f)
      | (s1, Inr c) \<Rightarrow>
     (case packetio_NewSubscriber (Some c) (Some p) of
        Inl e \<Rightarrow> (s1, Inl (Fatalf ''subscriber: %v'' e))
      | Inr sub \<Rightarrow>
          let d' = fst (OnPacket sub h d) in
          if sendPort = 0 then (env_Close env s1, Inr d')
          else (case EncodeUint sendPort 9 of
              Inl e \<Rightarrow> (s1, Inl (Fatalf ''send-port: %v'' e))
            | Inr port \<Rightarrow>
                (case packetio_Send (env_send env) sub
                    (Some \<lparr>pout_Payload = demoFrame, pout_Metadata = [(''egress_port'', port), (''_pad'', [0])]\<rparr>) s1 of
                   (s2, Some e) \<Rightarrow> (s2, Inl (Fatalf ''packet-out: %v'' e))
                 | (s2, None) \<Rightarrow> (env_Close env s2, Inr d')))))))"

text \<open>04: the samples of a counter.\<close>

definition countersMain :: "('s, 'x) example_env \<Rightarrow> string \<Rightarrow> uint64 \<Rightarrow> uint64 \<Rightarrow> string \<Rightarrow> string \<Rightarrow> int \<Rightarrow> 's \<Rightarrow> 's \<times> (fatal + string) option" where
  "countersMain env addr deviceID election p4infoPath name i s =
     (case fatalE ''read p4info: %v'' (env_readFile env p4infoPath) of
        Inl f \<Rightarrow> (s, Some (Inl f))
      | Inr p4info \<Rightarrow>
     (case fatalE ''parse p4info: %v'' (Pipeline_LoadText (env_reflect env) (env_unmarshalText env) p4info []) of
        Inl f \<Rightarrow> (s, Some (Inl f))
      | Inr p \<Rightarrow>
     (case exampleClient env addr deviceID election s of
        (s1, Inl f) \<Rightarrow> (s1, Some (Inl f))
      | (s1, Inr c) \<Rightarrow>
     (case fatalE ''reader: %v'' (NewReader ''counter'' (Some c) (Some p)) of
        Inl f \<Rightarrow> (s1, Some (Inl f))
      | Inr r \<Rightarrow>
     (case counter_Read (env_read env) r name i s1 of
        (s2, None) \<Rightarrow> (s2, None)
      | (s2, Some (Inl e)) \<Rightarrow> (s2, Some (Inl (Fatalf ''read counter: %v'' e)))
      | (s2, Some (Inr es)) \<Rightarrow> (env_Close env s2, Some (Inr (counterText es))))))))"

subsection \<open>The entry of the L2 example\<close>

definition l2_info :: P4Info_msg where
  "l2_info =
    \<lparr>info_tables =
       [\<lparr>tbl_preamble = Some \<lparr>pre_id = 33554433, pre_name = ''MyIngress.t_l2'', pre_alias = ''t_l2''\<rparr>,
         tbl_match_fields =
           [\<lparr>mfm_id = 1, mfm_name = ''hdr.eth.dst'', mfm_bitwidth = 48, mfm_match_type = MatchField_EXACT, mfm_other_match_type = ''''\<rparr>],
         tbl_action_refs =
           [\<lparr>arm_id = 16777219, arm_scope = ActionRef_TABLE_AND_DEFAULT\<rparr>, \<lparr>arm_id = 16777220, arm_scope = ActionRef_TABLE_AND_DEFAULT\<rparr>,
            \<lparr>arm_id = 16777221, arm_scope = ActionRef_DEFAULT_ONLY\<rparr>],
         tbl_const_default_action_id = 0, tbl_implementation_id = 0, tbl_size = 1024, tbl_idle_timeout_behavior = 0, tbl_is_const_table = False\<rparr>],
     info_actions =
       [\<lparr>act_preamble = Some \<lparr>pre_id = 16777220, pre_name = ''MyIngress.drop'', pre_alias = ''drop''\<rparr>, act_params = []\<rparr>,
        \<lparr>act_preamble = Some \<lparr>pre_id = 16777219, pre_name = ''MyIngress.forward'', pre_alias = ''forward''\<rparr>,
         act_params = [\<lparr>prm_id = 1, prm_name = ''port'', prm_bitwidth = 9\<rparr>]\<rparr>,
        \<lparr>act_preamble = Some \<lparr>pre_id = 16777221, pre_name = ''MyIngress.punt'', pre_alias = ''punt''\<rparr>, act_params = []\<rparr>],
     info_counters =
       [\<lparr>ctr_preamble = Some \<lparr>pre_id = 301989889, pre_name = ''MyIngress.pkt_counter'', pre_alias = ''pkt_counter''\<rparr>,
         ctr_unit = 3, ctr_size = 512, ctr_index_type_name = ''''\<rparr>],
     info_direct_counters =
       [\<lparr>dctr_preamble = Some \<lparr>pre_id = 318767105, pre_name = ''MyIngress.pkt_counter_direct'', pre_alias = ''pkt_counter_direct''\<rparr>,
         dctr_unit = 3, dctr_direct_table_id = 33554433\<rparr>],
     info_meters = [], info_direct_meters = [],
     info_controller_packet_metadata =
       [\<lparr>cpm_preamble = Some \<lparr>pre_id = 67108865, pre_name = ''packet_in'', pre_alias = ''packet_in''\<rparr>,
         cpm_metadata = [\<lparr>prm_id = 1, prm_name = ''ingress_port'', prm_bitwidth = 9\<rparr>, \<lparr>prm_id = 2, prm_name = ''_pad'', prm_bitwidth = 7\<rparr>]\<rparr>,
        \<lparr>cpm_preamble = Some \<lparr>pre_id = 67108866, pre_name = ''packet_out'', pre_alias = ''packet_out''\<rparr>,
         cpm_metadata = [\<lparr>prm_id = 1, prm_name = ''egress_port'', prm_bitwidth = 9\<rparr>, \<lparr>prm_id = 2, prm_name = ''_pad'', prm_bitwidth = 7\<rparr>]\<rparr>],
     info_registers = [], info_digests = [],
     info_type_info = Some \<lparr>type_structs = Map.empty, type_headers = Map.empty, type_header_unions = Map.empty, type_enums = Map.empty,
       type_error = None, type_serializable_enums = Map.empty, type_new_types = []\<rparr>\<rparr>"

definition l2_table :: TableDef where
  "l2_table = newTableDef (info_tables l2_info ! 0)"

definition l2_forward :: ActionDef where
  "l2_forward = newActionDef (info_actions l2_info ! 1)"

lemma l2_lookups:
  "Pipeline_Table (Some (built l2_info cfg)) ''MyIngress.t_l2'' = Some l2_table"
  "Pipeline_Action (Some (built l2_info cfg)) ''MyIngress.forward'' = Some l2_forward"
  unfolding table.lookup_built action.lookup_built
  by (simp_all add: l2_table_def l2_forward_def l2_info_def has_key_def newTableDef_def newActionDef_def Let_def)

abbreviation l2_mac :: bytes where "l2_mac \<equiv> [0x11, 0x22, 0x33, 0x44, 0x55]"

definition l2_entry :: TableEntry where
  "l2_entry = \<lparr>te_TableId = 33554433, te_Match = [\<lparr>fm_FieldId = 1, fm_type = FM_Exact l2_mac\<rparr>],
     te_Action = Some \<lparr>aw_ActionId = 16777219, aw_Params = [\<lparr>param_ParamId = 1, param_Value = [1]\<rparr>]\<rparr>,
     te_Priority = 0, te_IsDefaultAction = False, te_IdleTimeoutNs = 0, te_Metadata = []\<rparr>"

lemma l2Entry_built: "l2Entry (built l2_info cfg) = Inr l2_entry"
proof -
  have must: "MustMAC ''00:11:22:33:44:55'' = Inr l2_mac" "MustEncodeUint 1 9 = Inr [1]" by code_simp+
  have table: "t_MatchFields l2_table =
      [\<lparr>mf_ID = 1, mf_Name = ''hdr.eth.dst'', mf_Bitwidth = 48, mf_MatchType = MatchField_EXACT, mf_OtherMatchType = ''''\<rparr>]"
      "t_ID l2_table = 33554433" "needsPriority l2_table = False" "TableDef_MatchField (Some l2_table) ''hdr.eth.dst'' \<noteq> None"
    by code_simp+
  have enc: "encodeField \<lparr>mf_ID = 1, mf_Name = ''hdr.eth.dst'', mf_Bitwidth = 48, mf_MatchType = MatchField_EXACT, mf_OtherMatchType = ''''\<rparr>
      (ExactMatch l2_mac) = Inr (Some \<lparr>fm_FieldId = 1, fm_type = FM_Exact l2_mac\<rparr>)" by code_simp
  define b where "b = Builder_Action ''MyIngress.forward'' [Param ''port'' [1]]
    (Builder_Match ''hdr.eth.dst'' (Exact l2_mac) (NewBuilder (Some (built l2_info cfg)) ''MyIngress.t_l2''))"
  have flds: "b_tableErr b = None" "b_table b = Some l2_table" "b_isDefault b = False" "b_matches b = [(''hdr.eth.dst'', ExactMatch l2_mac)]"
      "b_priority b = 0" "b_timeout b = 0" "b_metadata b = []" "b_pipeline b = Some (built l2_info cfg)"
      "b_action b = Some \<lparr>as_name = ''MyIngress.forward'', as_params = [(''port'', [1])]\<rparr>"
    unfolding b_def NewBuilder_fields [OF l2_lookups(1)] by (simp_all add: Builder_Action_def Builder_Match_def Exact_def Param_def)
  have "key_ready b l2_table" using flds table enc by (simp add: key_ready_def field_ready_def)
  moreover have "key_entry b l2_table = l2_entry\<lparr>te_Action := None\<rparr>"
    using flds table enc by (simp add: key_entry_def l2_entry_def encoded_field_def)
  moreover have "encodeAction l2_table \<lparr>as_name = ''MyIngress.forward'', as_params = [(''port'', [1])]\<rparr> b =
      Inr \<lparr>aw_ActionId = 16777219, aw_Params = [\<lparr>param_ParamId = 1, param_Value = [1]\<rparr>]\<rparr>"
  proof -
    have act: "a_ID l2_forward = 16777219" "a_Params l2_forward = [\<lparr>ap_ID = 1, ap_Name = ''port'', ap_Bitwidth = 9\<rparr>]"
        "ActionDef_Param (Some l2_forward) ''port'' \<noteq> None" "t_Const l2_table = False"
        "tbl_implementation_id (t_raw l2_table) = 0"
        "find (\<lambda>r. ar_ID r = 16777219) (t_ActionRefs l2_table) = Some \<lparr>ar_ID = 16777219, ar_Scope = ActionRef_TABLE_AND_DEFAULT\<rparr>"
      by code_simp+
    have "encodeParam \<lparr>as_name = ''MyIngress.forward'', as_params = [(''port'', [1])]\<rparr> \<lparr>ap_ID = 1, ap_Name = ''port'', ap_Bitwidth = 9\<rparr> =
        Inr \<lparr>param_ParamId = 1, param_Value = [1]\<rparr>" by code_simp
    then show ?thesis using flds by (simp add: encodeAction_def l2_lookups act checkScope_def)
  qed
  ultimately have "Build b = Inr l2_entry"
    unfolding Build_Inr_iff using flds by (auto simp: l2_entry_def timeout_ok_def)
  then show ?thesis by (simp add: l2Entry_def must b_def)
qed

text \<open>Inversion of the steps of a program.\<close>

lemma exampleClient_Inr:
  "exampleClient env addr dev el s = (s2, Inr c) \<longleftrightarrow>
     (\<exists>s1. ex_Dial env addr [WithDeviceID dev, WithElectionID (ElectionID 0 el), WithInsecure] s = (s1, Inr c) \<and> ex_BecomePrimary env c s1 = (s2, None))"
  by (auto simp: exampleClient_def split: prod.splits sum.splits option.splits)

lemma fatal_then:
  "(case r of (s1, Inl f) \<Rightarrow> (s1, Inl f) | (s1, Inr c) \<Rightarrow> k c s1) = (s', Inr x) \<longleftrightarrow> (\<exists>c s1. r = (s1, Inr c) \<and> k c s1 = (s', Inr x))"
  by (cases r; cases "snd r") auto

lemma fatal_err:
  "(case r of (s1, Some e) \<Rightarrow> (s1, Inl (f e)) | (s1, None) \<Rightarrow> k s1) = (s', Inr x) \<longleftrightarrow> (\<exists>s1. r = (s1, None) \<and> k s1 = (s', Inr x))"
  by (cases r; cases "snd r") auto

lemma fatal_set:
  "(case r of (s1, res, Some e) \<Rightarrow> (s1, Inl (f e)) | (s1, res, None) \<Rightarrow> k s1) = (s', Inr x) \<longleftrightarrow>
     (\<exists>s1 res. r = (s1, res, None) \<and> k s1 = (s', Inr x))"
  by (cases r; cases "snd (snd r)") auto

lemma WriteTableEntry_None:
  "WriteTableEntry rpc fe un c kind e s = (s', None) \<longleftrightarrow> cl_primary c \<and> rpc s (writeRequest c 0 [TableEntryUpdate kind e]) = (s', None)"
  by (auto simp: WriteTableEntry_def Client_Write_def split: prod.splits option.splits)

text \<open>The demo frame has the minimal size of an Ethernet frame: two addresses, the type, the text and padding.\<close>

lemma demoFrame_layout:
  "length demoFrame = 60" "take 14 demoFrame = [0x00, 0x11, 0x22, 0x33, 0x44, 0x55, 0x00, 0x66, 0x77, 0x88, 0x99, 0xaa, 0x88, 0xb5]"
  "map (\<lambda>b. char_of (unat b)) (take 11 (drop 14 demoFrame)) = ''hello world''" "drop 25 demoFrame = replicate 35 0"
  by code_simp+

subsection \<open>Properties\<close>

text \<open>C6. The L2 example, end to end on the P4Info it comes with. It can always build its entry. When it
  ends normally, it dialled without TLS and with the given device and election ID, became primary, pushed the pipeline
  with success, and then wrote, as primary, exactly one request with exactly one insert; that entry is on the L2 table,
  matches exactly the frames to 00:11:22:33:44:55 and forwards them to port 1. Conversely, with a connection, a
  won arbitration and a target that accepts the pipeline and the write, it ends normally.\<close>

theorem l2Main_correct:
  assumes "loadPipeline env p4infoPath configPath = Inr (built l2_info cfg)"
  shows "(l2Main env addr deviceID election p4infoPath configPath s = (s', Inr ()) \<longleftrightarrow>
      (\<exists>c s1 s2 s3 s4 res. ex_Dial env addr [WithDeviceID deviceID, WithElectionID (ElectionID 0 election), WithInsecure] s = (s1, Inr c) \<and>
         ex_BecomePrimary env c s1 = (s2, None) \<and>
         SetPipeline (env_set env) (env_fromError env) c (Some (built l2_info cfg)) \<lparr>spo_Action = 0, spo_NoFallback = False\<rparr> s2 = (s3, res, None) \<and>
         cl_primary c \<and> env_write env s3 (writeRequest c 0 [TableEntryUpdate UpdateInsert l2_entry]) = (s4, None) \<and> s' = env_Close env s4)) \<and>
    l2Entry (built l2_info cfg) = Inr l2_entry \<and> te_TableId l2_entry = t_ID l2_table \<and>
    (\<forall>x. (\<forall>fm\<in>set (te_Match l2_entry). wire_accepts 48 (fm_type fm) x) \<longleftrightarrow> x = 0x001122334455) \<and>
    te_Action l2_entry = Some \<lparr>aw_ActionId = a_ID l2_forward, aw_Params = [\<lparr>param_ParamId = 1, param_Value = [1]\<rparr>]\<rparr>"
proof (intro conjI)
  have ids: "t_ID l2_table = 33554433" "a_ID l2_forward = 16777219" by code_simp+
  then show "te_TableId l2_entry = t_ID l2_table"
      "te_Action l2_entry = Some \<lparr>aw_ActionId = a_ID l2_forward, aw_Params = [\<lparr>param_ParamId = 1, param_Value = [1]\<rparr>]\<rparr>"
    by (simp_all add: l2_entry_def)
  show "\<forall>x. (\<forall>fm\<in>set (te_Match l2_entry). wire_accepts 48 (fm_type fm) x) \<longleftrightarrow> x = 0x001122334455"
    by (simp add: l2_entry_def be_nat_def)
  show "l2Main env addr deviceID election p4infoPath configPath s = (s', Inr ()) \<longleftrightarrow>
      (\<exists>c s1 s2 s3 s4 res. ex_Dial env addr [WithDeviceID deviceID, WithElectionID (ElectionID 0 election), WithInsecure] s = (s1, Inr c) \<and>
         ex_BecomePrimary env c s1 = (s2, None) \<and>
         SetPipeline (env_set env) (env_fromError env) c (Some (built l2_info cfg)) \<lparr>spo_Action = 0, spo_NoFallback = False\<rparr> s2 = (s3, res, None) \<and>
         cl_primary c \<and> env_write env s3 (writeRequest c 0 [TableEntryUpdate UpdateInsert l2_entry]) = (s4, None) \<and> s' = env_Close env s4)"
    by (simp add: l2Main_def assms fatalE_def l2Entry_built fatal_then exampleClient_Inr fatal_set fatal_err WriteTableEntry_None) blast
qed (rule l2Entry_built)

abbreviation sample_example :: "(WriteRequest list, unit) example_env" where
  "sample_example \<equiv> \<lparr>env_readFile = (\<lambda>_. Inr []), env_reflect = sample_reflect, env_unmarshalText = (\<lambda>_. Inr l2_info),
     env_dialClient = (\<lambda>s. (s, Inr sample_client)), env_Close = id, env_write = logging_target,
     env_read = (\<lambda>s _. (s, Inl EOF)), env_fromError = no_status, env_unmarshalAny = code_byte,
     env_send = (\<lambda>s _. (s, None)), env_set = (\<lambda>s _. (s, None)), env_get = (\<lambda>s _. (s, Inr None)), env_CloseGracefully = (\<lambda>s. (s, None)),
     ex_Dial = (\<lambda>_ _ s. (s, Inr sample_client)), ex_BecomePrimary = (\<lambda>_ s. (s, None))\<rparr>"

theorem l2Main_correct_witness:
  "l2Main sample_example ''127.0.0.1:9559'' 1 7 ''l2.p4info.txt'' ''l2.json'' [] = ([writeRequest sample_client 0 [TableEntryUpdate UpdateInsert l2_entry]], Inr ())"
proof -
  have "Pipeline_New sample_reflect (Some l2_info) [] = Inr (built l2_info [])" using sample_New [of "[]"] by (simp add: New_Inr_iff)
  then have "loadPipeline sample_example ''l2.p4info.txt'' ''l2.json'' = Inr (built l2_info [])"
    by (simp add: loadPipeline_def Pipeline_LoadText_def)
  from l2Main_correct [OF this, of "''127.0.0.1:9559''" 1 7 "[]" "[writeRequest sample_client 0 [TableEntryUpdate UpdateInsert l2_entry]]"]
  show ?thesis by (auto simp: SetPipeline_def Let_def)
qed

end
