(* ===== verification/Mock_Target.thy ===== *)
theory Mock_Target
  imports Packet_IO Session
begin

text \<open>
  The in-process target of the test harness (src/internal/testutil/server.go): its state, its RPCs and
  its side of the stream, as one concrete target for the parameters of the client's operations, and
  the composition of both: what a client observes on this target, and who becomes primary.

  How gRPC carries a server's error to the client is the parameter \<open>wire\<close>. The harness around the
  server (listener, connection, cleanup) is not modelled, and the mutexes make each method one step.
\<close>

subsection \<open>State\<close>

record MockServer =
  ms_DeviceID :: uint64
  ms_Primary :: ElectionID
  ms_ArbitrationEchoed :: nat
  ms_WriteRequests :: "WriteRequest list"
  ms_ReadRequests :: "ReadRequest list"
  ms_LastCapabilitiesReq :: "unit option"
  ms_SetPipelineReq :: "SetPipelineRequest option"
  ms_SetPipelineRequests :: "SetPipelineRequest list"
  ms_GetPipelineResp :: "ForwardingPipelineConfig option option"
  ms_GetPipelineRequests :: "GetPipelineRequest list"
  ms_OverrideGetPipelineErr :: "goerr option"
  ms_OverrideWriteErr :: "goerr option"
  ms_OverrideReadResp :: "Entity list list"
  ms_ArbitrationRejection :: "int option"
  ms_SetPipelineErrByAction :: "int \<Rightarrow> goerr option"
  ms_SetPipelineAttempts :: "int list"
  ms_PacketsToSend :: "stream_update list"
  ms_LastArbitrationUpdate :: "arbitration_msg option"
  ms_ReceivedPacketOuts :: "PacketOut_msg list"
  ms_ReceivedDigestAcks :: "DigestListAck_msg list"
  ms_liveStream :: bool

definition NewMockServer :: MockServer where
  "NewMockServer = \<lparr>ms_DeviceID = 1, ms_Primary = ElectionID 0 0, ms_ArbitrationEchoed = 0, ms_WriteRequests = [], ms_ReadRequests = [],
     ms_LastCapabilitiesReq = None, ms_SetPipelineReq = None, ms_SetPipelineRequests = [], ms_GetPipelineResp = None, ms_GetPipelineRequests = [],
     ms_OverrideGetPipelineErr = None, ms_OverrideWriteErr = None, ms_OverrideReadResp = [], ms_ArbitrationRejection = None,
     ms_SetPipelineErrByAction = (\<lambda>_. None), ms_SetPipelineAttempts = [], ms_PacketsToSend = [], ms_LastArbitrationUpdate = None,
     ms_ReceivedPacketOuts = [], ms_ReceivedDigestAcks = [], ms_liveStream = False\<rparr>"

subsection \<open>The stream\<close>

text \<open>The first message of \<open>StreamChannel\<close>: the decision on mastership (the status code of the answer), and
  the queued messages that follow it.\<close>

definition mock_arbitrate :: "arbitration_msg \<Rightarrow> MockServer \<Rightarrow> MockServer \<times> int \<times> stream_update list" where
  "mock_arbitrate arb m =
     (let m = m\<lparr>ms_ArbitrationEchoed := ms_ArbitrationEchoed m + 1, ms_LastArbitrationUpdate := Some arb\<rparr>;
          primary = (High (ms_Primary m) = High (am_ElectionId arb) \<and> Low (ms_Primary m) = Low (am_ElectionId arb));
          (m, primary) = (if High (ms_Primary m) = 0 \<and> Low (ms_Primary m) = 0
                          then (m\<lparr>ms_Primary := am_ElectionId arb\<rparr>, True) else (m, primary));
          rejection = ms_ArbitrationRejection m;
          pktQueue = ms_PacketsToSend m;
          m = m\<lparr>ms_PacketsToSend := []\<rparr>;
          status = (case rejection of Some code \<Rightarrow> code | None \<Rightarrow> if \<not> primary then codes_AlreadyExists else codes_OK)
      in (m, status, pktQueue))"

text \<open>One round of the receive loop, and its end.\<close>

definition mock_receive :: "stream_request \<Rightarrow> MockServer \<Rightarrow> MockServer" where
  "mock_receive req m =
     (case req of
        R_Packet p \<Rightarrow> m\<lparr>ms_ReceivedPacketOuts := ms_ReceivedPacketOuts m @ [p]\<rparr>
      | R_DigestAck a \<Rightarrow> m\<lparr>ms_ReceivedDigestAcks := ms_ReceivedDigestAcks m @ [a]\<rparr>
      | _ \<Rightarrow> m)"

definition mock_streamEnd :: "MockServer \<Rightarrow> MockServer" where
  "mock_streamEnd m = m\<lparr>ms_liveStream := False\<rparr>"

text \<open>\<^verbatim>\<open>Send\<close> of a list of messages, one after the other, until one fails.\<close>

fun mock_sendAll :: "(nat \<Rightarrow> goerr option) \<Rightarrow> nat \<Rightarrow> 'a list \<Rightarrow> 'a list \<times> goerr option" where
  "mock_sendAll sendErr i [] = ([], None)"
| "mock_sendAll sendErr i (msg # ms) =
     (case sendErr i of
        Some err \<Rightarrow> ([], Some err)
      | None \<Rightarrow> (case mock_sendAll sendErr (Suc i) ms of (out, r) \<Rightarrow> (msg # out, r)))"

fun errors_Is_Canceled :: "goerr \<Rightarrow> bool" where
  "errors_Is_Canceled CtxCanceled = True"
| "errors_Is_Canceled (Errorf f as) = list_ex (\<lambda>a. case a of AErr e \<Rightarrow> errors_Is_Canceled e | _ \<Rightarrow> False) as"
| "errors_Is_Canceled (WriteError c us) = errors_Is_Canceled c"
| "errors_Is_Canceled (GetPipelineError c st) = errors_Is_Canceled c"
| "errors_Is_Canceled (JoinErr es) = list_ex errors_Is_Canceled es"
| "errors_Is_Canceled _ = False"

text \<open>The whole handler of a stream, for the messages it receives and the error that ends them: the state, what is out (the status of the answer
  first), and the error it returns.\<close>

definition StreamChannel :: "(nat \<Rightarrow> goerr option) \<Rightarrow> (arbitration_msg + stream_request) list \<Rightarrow> goerr \<Rightarrow> MockServer \<Rightarrow>
    MockServer \<times> (int + stream_update) list \<times> goerr option" where
  "StreamChannel sendErr received recvErr m =
     (case received of
        [] \<Rightarrow> (m, [], Some recvErr)
      | Inr _ # _ \<Rightarrow> (m, [], Some (NewErr ''first stream message must be arbitration''))
      | Inl arb # rest \<Rightarrow>
          (case mock_arbitrate arb m of
             (m, status, pktQueue) \<Rightarrow>
               (case mock_sendAll sendErr 0 (Inl status # map Inr pktQueue) of
                  (out, Some err) \<Rightarrow> (m, out, Some err)
                | (out, None) \<Rightarrow>
                    let m = m\<lparr>ms_liveStream := True\<rparr>;
                        m = fold (\<lambda>msg m. case msg of Inl _ \<Rightarrow> m | Inr req \<Rightarrow> mock_receive req m) rest m
                    in (mock_streamEnd m, out, if errors_Is_EOF recvErr \<or> errors_Is_Canceled recvErr then None else Some recvErr))))"

definition PushStreamMessage :: "MockServer \<Rightarrow> stream_update \<Rightarrow> goerr + stream_update" where
  "PushStreamMessage m msg = (if \<not> ms_liveStream m then Inl (Errorf ''testutil: no live stream'' []) else Inr msg)"

subsection \<open>The RPCs\<close>

definition mock_Write :: "(goerr \<Rightarrow> goerr) \<Rightarrow> MockServer rpc_write" where
  "mock_Write wire m req =
     (let m = m\<lparr>ms_WriteRequests := ms_WriteRequests m @ [req]\<rparr> in (m, map_option wire (ms_OverrideWriteErr m)))"

text \<open>The request for the capabilities is an empty message; the answer is the version.\<close>

definition mock_Capabilities :: "MockServer \<Rightarrow> MockServer \<times> string" where
  "mock_Capabilities m = (m\<lparr>ms_LastCapabilitiesReq := Some ()\<rparr>, ''1.3.0'')"

definition mock_Set :: "(goerr \<Rightarrow> goerr) \<Rightarrow> MockServer rpc_set" where
  "mock_Set wire m req =
     (let m = m\<lparr>ms_SetPipelineReq := Some req, ms_SetPipelineRequests := ms_SetPipelineRequests m @ [req],
                ms_SetPipelineAttempts := ms_SetPipelineAttempts m @ [sp_Action req]\<rparr>
      in (m, map_option wire (ms_SetPipelineErrByAction m (sp_Action req))))"

definition mock_Get :: "(goerr \<Rightarrow> goerr) \<Rightarrow> MockServer rpc_get" where
  "mock_Get wire m req =
     (let m = m\<lparr>ms_GetPipelineRequests := ms_GetPipelineRequests m @ [req]\<rparr> in
      (m, case ms_OverrideGetPipelineErr m of
            Some err \<Rightarrow> Inl (wire err)
          | None \<Rightarrow> (case ms_GetPipelineResp m of Some resp \<Rightarrow> Inr resp | None \<Rightarrow> Inr None)))"

text \<open>\<open>Read\<close> streams the configured responses; the stream then ends.\<close>

definition mock_Read :: "MockServer rpc_read" where
  "mock_Read m req =
     (let m = m\<lparr>ms_ReadRequests := ms_ReadRequests m @ [req]\<rparr>; resp = ms_OverrideReadResp m in
      (m, Inr (\<lambda>i. if i < length resp then Inr (resp ! i) else Inl EOF)))"

subsection \<open>What a stream leaves\<close>

lemma mock_sendAll_ok: "(\<And>j. sendErr j = None) \<Longrightarrow> mock_sendAll sendErr i ms = (ms, None)"
  by (induction ms arbitrary: i) simp_all

lemma received_packets:
  "ms_ReceivedPacketOuts (fold (\<lambda>msg m. case msg of Inl _ \<Rightarrow> m | Inr req \<Rightarrow> mock_receive req m) ms m) =
     ms_ReceivedPacketOuts m @ concat (map (\<lambda>msg. case msg of Inr (R_Packet p) \<Rightarrow> [p] | _ \<Rightarrow> []) ms)"
  by (induction ms arbitrary: m) (auto simp: mock_receive_def split: sum.splits stream_request.splits)

text \<open>Every packet that comes after the arbitration is recorded, in order; the stream is not live afterwards.\<close>

lemma StreamChannel_records:
  assumes "StreamChannel sendErr (Inl arb # ms) recvErr m = (m', out, r)" and "\<And>j. sendErr j = None"
  shows "ms_ReceivedPacketOuts m' = ms_ReceivedPacketOuts m @ concat (map (\<lambda>msg. case msg of Inr (R_Packet p) \<Rightarrow> [p] | _ \<Rightarrow> []) ms) \<and>
    \<not> ms_liveStream m' \<and> out = Inl (fst (snd (mock_arbitrate arb m))) # map Inr (ms_PacketsToSend m)"
proof -
  obtain m1 st q where m1: "mock_arbitrate arb m = (m1, st, q)" by (cases "mock_arbitrate arb m") auto
  then have q: "q = ms_PacketsToSend m" "ms_ReceivedPacketOuts m1 = ms_ReceivedPacketOuts m"
    by (auto simp: mock_arbitrate_def Let_def split: if_splits)
  with assms m1 show ?thesis
    by (auto simp: StreamChannel_def mock_sendAll_ok mock_streamEnd_def received_packets simp del: mock_sendAll.simps)
qed

subsection \<open>Mastership\<close>

text \<open>Streams opened one after the other, each by a controller with its arbitration message: the status of
  each answer.\<close>

fun arbitrate_all :: "arbitration_msg list \<Rightarrow> MockServer \<Rightarrow> MockServer \<times> int list" where
  "arbitrate_all [] m = (m, [])"
| "arbitrate_all (a # as) m =
     (case mock_arbitrate a m of (m1, st, _) \<Rightarrow> case arbitrate_all as m1 of (m2, sts) \<Rightarrow> (m2, st # sts))"

text \<open>The election ID that the target holds to be primary, once a controller with the ID \<open>i\<close> has come.\<close>

definition elected :: "ElectionID \<Rightarrow> MockServer \<Rightarrow> ElectionID" where
  "elected i m = (if IsZero (ms_Primary m) then i else ms_Primary m)"

lemma ElectionID_parts: "High i = High j \<and> Low i = Low j \<longleftrightarrow> i = j"
  by (cases i; cases j) simp

lemma mock_arbitrate_elects:
  assumes "mock_arbitrate a m = (m', st, q)" and "ms_ArbitrationRejection m = None"
  shows "ms_Primary m' = elected (am_ElectionId a) m" and "ms_ArbitrationRejection m' = None"
    and "statusOK (Some st) \<longleftrightarrow> am_ElectionId a = elected (am_ElectionId a) m"
  using assms ElectionID_parts [of "ms_Primary m" "am_ElectionId a"]
  by (auto simp: mock_arbitrate_def elected_def IsZero_def statusOK_def Let_def split: if_splits)

lemma arbitrate_all_elects:
  assumes "arbitrate_all as m = (m', sts)" and "ms_ArbitrationRejection m = None" and "\<forall>a\<in>set as. \<not> IsZero (am_ElectionId a)"
  shows "length sts = length as \<and>
    (as \<noteq> [] \<longrightarrow> ms_Primary m' = elected (am_ElectionId (hd as)) m) \<and>
    (\<forall>i<length as. statusOK (Some (sts ! i)) \<longleftrightarrow> am_ElectionId (as ! i) = elected (am_ElectionId (hd as)) m)"
  using assms
proof (induction as arbitrary: m sts)
  case (Cons a as)
  obtain m1 st q where m1: "mock_arbitrate a m = (m1, st, q)" by (cases "mock_arbitrate a m") auto
  obtain ss where ss: "arbitrate_all as m1 = (m', ss)" "sts = st # ss"
    using Cons.prems(1) m1 by (auto split: prod.splits)
  note e = mock_arbitrate_elects [OF m1 Cons.prems(2)]
  have nz: "\<not> IsZero (ms_Primary m1)" using e(1) Cons.prems(3) by (auto simp: elected_def)
  have IH: "length ss = length as" "as \<noteq> [] \<longrightarrow> ms_Primary m' = ms_Primary m1"
      "\<And>i. i < length as \<Longrightarrow> statusOK (Some (ss ! i)) \<longleftrightarrow> am_ElectionId (as ! i) = ms_Primary m1"
    using Cons.IH [OF ss(1) e(2)] Cons.prems(3) nz by (auto simp: elected_def)
  have "as = [] \<longrightarrow> m' = m1" using ss(1) by auto
  with IH e(1,3) ss(2) show ?case by (auto simp: nth_Cons split: nat.splits)
qed simp

text \<open>Mastership on the test target: when controllers with nonzero election IDs arbitrate one after the
  other, the target keeps the first ID (or the one it was configured with) as primary, and the
  supervisor of a controller becomes primary exactly if it has that ID. No two controllers with different election
  IDs are ever both primary.\<close>

theorem mock_single_primary:
  assumes "arbitrate_all (map arbitrationRequest cfgs) m = (m', sts)" and "ms_ArbitrationRejection m = None"
    and "\<forall>cfg\<in>set cfgs. \<not> IsZero (ElectionID (cfg_ElectionHigh cfg) (cfg_ElectionLow cfg))"
  shows "length sts = length cfgs \<and>
    (\<forall>i<length cfgs. IsPrimary (applyArbitration (Some (sts ! i)) (sups i)) \<longleftrightarrow>
       ElectionID (cfg_ElectionHigh (cfgs ! i)) (cfg_ElectionLow (cfgs ! i)) = ms_Primary m') \<and>
    (\<not> IsZero (ms_Primary m) \<longrightarrow> ms_Primary m' = ms_Primary m) \<and>
    (\<forall>i<length cfgs. \<forall>j<length cfgs. IsPrimary (applyArbitration (Some (sts ! i)) (sups i)) \<and>
       IsPrimary (applyArbitration (Some (sts ! j)) (sups j)) \<longrightarrow>
       ElectionID (cfg_ElectionHigh (cfgs ! i)) (cfg_ElectionLow (cfgs ! i)) = ElectionID (cfg_ElectionHigh (cfgs ! j)) (cfg_ElectionLow (cfgs ! j)))"
proof -
  let ?as = "map arbitrationRequest cfgs"
  have nz: "\<forall>a\<in>set ?as. \<not> IsZero (am_ElectionId a)" using assms(3) by (auto simp: arbitrationRequest_def)
  note all = arbitrate_all_elects [OF assms(1,2) nz]
  have p: "IsPrimary (applyArbitration st s) \<longleftrightarrow> statusOK st" for st s by (simp add: IsPrimary_def)
  have i: "IsPrimary (applyArbitration (Some (sts ! i)) (sups i)) \<longleftrightarrow>
      ElectionID (cfg_ElectionHigh (cfgs ! i)) (cfg_ElectionLow (cfgs ! i)) = ms_Primary m'" if "i < length cfgs" for i
    using all that by (auto simp: p arbitrationRequest_def)
  have "\<not> IsZero (ms_Primary m) \<longrightarrow> ms_Primary m' = ms_Primary m"
    using all assms(1) by (cases cfgs) (auto simp: elected_def)
  with i all show ?thesis by auto
qed

theorem mock_single_primary_witness:
  "let sts = snd (arbitrate_all (map arbitrationRequest [sample_config, sample_config\<lparr>cfg_ElectionLow := 9\<rparr>]) NewMockServer) in
   IsPrimary (applyArbitration (Some (sts ! 0)) sup_New) \<and> \<not> IsPrimary (applyArbitration (Some (sts ! 1)) sup_New)"
proof -
  let ?c = "[sample_config, sample_config\<lparr>cfg_ElectionLow := 9\<rparr>]"
  let ?m = "fst (arbitrate_all (map arbitrationRequest ?c) NewMockServer)"
  let ?st = "snd (arbitrate_all (map arbitrationRequest ?c) NewMockServer)"
  have run: "arbitrate_all (map arbitrationRequest ?c) NewMockServer = (?m, ?st)" by simp
  have "ms_Primary ?m = ElectionID 0 7" by code_simp
  moreover have ids: "cfg_ElectionHigh sample_config = 0" "cfg_ElectionLow sample_config = 7" by code_simp+
  moreover have "ms_ArbitrationRejection NewMockServer = None" by (simp add: NewMockServer_def)
  moreover have "\<forall>cfg\<in>set ?c. \<not> IsZero (ElectionID (cfg_ElectionHigh cfg) (cfg_ElectionLow cfg))"
    by (simp add: ids IsZero_def)
  ultimately have "\<forall>i<2. IsPrimary (applyArbitration (Some (?st ! i)) sup_New) \<longleftrightarrow>
      ElectionID (cfg_ElectionHigh (?c ! i)) (cfg_ElectionLow (?c ! i)) = ElectionID 0 7"
    using mock_single_primary [OF run, of "\<lambda>_. sup_New"] by simp
  from this [rule_format, of 0] this [rule_format, of 1] ids show ?thesis by (simp add: Let_def)
qed

subsection \<open>The client's operations on the test target\<close>

lemma mock_Set_attempts: "ms_SetPipelineAttempts (fst (mock_Set wire m req)) = ms_SetPipelineAttempts m @ [sp_Action req]"
  by (simp add: mock_Set_def Let_def)

text \<open>The target records exactly the actions that the loop of \<open>SetPipeline\<close> reports as attempted.\<close>

lemma setPipelineLoop_recorded:
  "setPipelineLoop (mock_Set wire) fe c cfg acts r0 le m = (m', r, e) \<Longrightarrow>
     \<exists>new. spr_Attempted r = spr_Attempted r0 @ new \<and> ms_SetPipelineAttempts m' = ms_SetPipelineAttempts m @ new"
proof (induction acts arbitrary: r0 le m)
  case (Cons act acts)
  obtain m1 o1 where m1: "mock_Set wire m (setRequest c cfg act) = (m1, o1)" by force
  then have a: "ms_SetPipelineAttempts m1 = ms_SetPipelineAttempts m @ [act]"
    using mock_Set_attempts [of wire m "setRequest c cfg act"] by (simp add: setRequest_def)
  show ?case
  proof (cases "\<exists>err. o1 = Some err \<and> isFallbackError fe err act \<and> acts \<noteq> []")
    case False
    with Cons.prems m1 a show ?thesis by (cases o1) (auto simp: Let_def split: if_splits)
  next
    case True
    then obtain le' where "setPipelineLoop (mock_Set wire) fe c cfg acts (r0\<lparr>spr_Attempted := spr_Attempted r0 @ [act]\<rparr>) le' m1 = (m', r, e)"
      using Cons.prems m1 by (auto simp: Let_def)
    from Cons.IH [OF this] a show ?thesis by auto
  qed
qed auto

lemma SetPipeline_recorded:
  assumes "SetPipeline (mock_Set wire) fe c p opts m = (m', r, e)"
  shows "ms_SetPipelineAttempts m' = ms_SetPipelineAttempts m @ spr_Attempted r"
proof (cases "spr_Attempted r = []")
  case True
  then show ?thesis using SetPipeline_attempts_lemma [OF assms] by simp
next
  case False
  then obtain cfg acts where "setPipelineLoop (mock_Set wire) fe c cfg acts \<lparr>spr_Action = 0, spr_Attempted = []\<rparr> None m = (m', r, e)"
    using assms unfolding SetPipeline_def Let_def by (auto simp del: setPipelineLoop.simps split: if_splits)
  from setPipelineLoop_recorded [OF this] show ?thesis by auto
qed

lemma recvLoop_list: "recvLoop (\<lambda>i. if i < length rs then Inr (rs ! i) else Inl EOF) 0 [] = Some (Inr (concat rs))"
  using recvLoop_first_error [of "\<lambda>i. if i < length rs then Inr (rs ! i) else Inl EOF" "length rs" EOF 0 "\<lambda>i. rs ! i" "[]"]
  by (simp add: map_nth)

text \<open>A client on the test target, end to end. A write by a primary client is recorded as exactly one
  request with the client's identity and its updates, and returns the configured error, translated; a
  client that is not primary records nothing. The actions the target records for \<open>SetPipeline\<close> are those the result
  reports as attempted. A read returns the configured responses, all of them in order, and records one request.\<close>

theorem client_on_mock:
  "(cl_primary c \<and> us \<noteq> [] \<longrightarrow>
      Client_Write (mock_Write wire) fe unmarshal c at us m =
        (m\<lparr>ms_WriteRequests := ms_WriteRequests m @ [writeRequest c at us]\<rparr>,
         map_option (\<lambda>err. translateWriteError fe unmarshal (wire err) (int (length us))) (ms_OverrideWriteErr m))) \<and>
   (\<not> cl_primary c \<longrightarrow> Client_Write (mock_Write wire) fe unmarshal c at us m = (m, Some (Sentinel ErrNotPrimary))) \<and>
   (\<forall>m' r e. SetPipeline (mock_Set wire) fe c p opts m = (m', r, e) \<longrightarrow>
      ms_SetPipelineAttempts m' = ms_SetPipelineAttempts m @ spr_Attempted r) \<and>
   (es \<noteq> [] \<longrightarrow> Client_Read mock_Read c es m =
      (m\<lparr>ms_ReadRequests := ms_ReadRequests m @ [\<lparr>rr_DeviceId = cl_deviceID c, rr_Role = cl_role c, rr_Entities = es\<rparr>]\<rparr>,
       Some (Inr (concat (ms_OverrideReadResp m)))))"
proof (intro conjI allI impI)
  show "Client_Write (mock_Write wire) fe unmarshal c at us m =
      (m\<lparr>ms_WriteRequests := ms_WriteRequests m @ [writeRequest c at us]\<rparr>,
       map_option (\<lambda>err. translateWriteError fe unmarshal (wire err) (int (length us))) (ms_OverrideWriteErr m))"
    if "cl_primary c \<and> us \<noteq> []"
    using that by (simp add: Client_Write_def mock_Write_def Let_def split: option.splits)
  show "Client_Write (mock_Write wire) fe unmarshal c at us m = (m, Some (Sentinel ErrNotPrimary))" if "\<not> cl_primary c"
    using that by (simp add: Client_Write_def)
  show "ms_SetPipelineAttempts m' = ms_SetPipelineAttempts m @ spr_Attempted r"
    if "SetPipeline (mock_Set wire) fe c p opts m = (m', r, e)" for m' r e
    using that by (rule SetPipeline_recorded)
  show "Client_Read mock_Read c es m =
      (m\<lparr>ms_ReadRequests := ms_ReadRequests m @ [\<lparr>rr_DeviceId = cl_deviceID c, rr_Role = cl_role c, rr_Entities = es\<rparr>]\<rparr>,
       Some (Inr (concat (ms_OverrideReadResp m))))" if "es \<noteq> []"
    using that recvLoop_list [of "ms_OverrideReadResp m"] by (simp add: Client_Read_def mock_Read_def Let_def cong: if_cong)
qed

theorem client_on_mock_witness:
  "Client_Read mock_Read sample_client [E_Other] (NewMockServer\<lparr>ms_OverrideReadResp := [[E_Other], [], [E_TableEntry None]]\<rparr>) =
     (NewMockServer\<lparr>ms_OverrideReadResp := [[E_Other], [], [E_TableEntry None]],
        ms_ReadRequests := [\<lparr>rr_DeviceId = 1, rr_Role = '''', rr_Entities = [E_Other]\<rparr>]\<rparr>,
      Some (Inr [E_Other, E_TableEntry None]))"
  using client_on_mock [of sample_client "[]" id no_status "\<lambda>_. None" 0
      "NewMockServer\<lparr>ms_OverrideReadResp := [[E_Other], [], [E_TableEntry None]]\<rparr>" None undefined "[E_Other]"]
  by (simp add: NewMockServer_def)

end
