(* ===== verification/Spec2Isabelle.thy ===== *)
theory Spec2Isabelle
  imports Resources Register Supervisor Stream_Receive Pre Public_Codec Cli_Root Examples Mock_Target
begin

text \<open>
  Verification of the P4Runtime controller SDK for Go (module p4runtime-go-controller): the client library, its
  command line tool p4ctl, the examples and the in-process target of the tests.

  \<^bold>\<open>The program.\<close> A controller dials a switch (the target), keeps one bidirectional stream to it on which it arbitrates for
  mastership, and uses unary RPCs to push a forwarding pipeline and to read and write table entries, counters,
  meters, registers and the packet replication engine. The stream supervisor owns the stream and the state
  (disconnected, connecting, backup, primary); every operation that changes the target first asks it whether the
  client is primary. The P4Info message describes the program of the switch: the pipeline package indexes it, and the
  builders and resource clients validate and encode their arguments against it. The codec gives the canonical
  (shortest) byte strings that the wire format demands. The command line tool parses flags and literals and
  composes these operations.

  \<^bold>\<open>Theories and sources\<close> (paths under src/), each importing those above that it calls.

  \<^item> Prelude, Go_Strings: wrap-around arithmetic, results as sums with \<open>bindE\<close> and \<open>mapE\<close>, maps filled by loops, reachability and the
    locale \<open>invariant_system\<close>; the used part of Go's strings, strconv and encoding/hex.
  \<^item> Byte_Value, Codec, Net_IP, Public_Codec: internal/codec/codec.go and codec/codec.go. The value \<open>be_nat\<close> of a byte string, the contract
    \<open>canonical_codec\<close> of an encoder (interpreted for the unsigned codec, its public copy and both register codecs), masks, ranges,
    hexadecimal, MAC and IP literals. Shown: accepted exactly when it fits, canonical, same value; prefix masks are ternary masks; round trips;
    the overflow of \<open>byteLen\<close>.
  \<^item> Errors: errors/errors.go, errors/write.go, client/pipeline_error.go. Error values and \<^verbatim>\<open>errors.Is\<close>.
  \<^item> Election_ID: client/electionid.go, refined to 128-bit numbers, an instance of \<open>linorder\<close>.
  \<^item> P4Info, P4_Messages: the generated messages, as far as the program reads or sets them.
  \<^item> Message_Graph, Pipeline: pipeline/message.go, pipeline.go, copy.go. The check for cycles and nil messages before cloning accepts exactly
    the graphs that cloning can follow; the nine indexes meet the contracts \<open>named_resource\<close> and \<open>identified_resource\<close>.
  \<^item> Table_Entry: tableentry/matchvalue.go, builder.go. An encoded field accepts exactly the values of the match value; \<open>BuildKey\<close> and \<open>Build\<close> on
    every branch.
  \<^item> Client_RPC: client/write.go, client/pipeline.go. The role gate, the classification of write errors, the receive loop, the pipeline with its fallback, whose condition is
    specified apart from the code (\<open>action_unsupported\<close>). The
    locale \<open>guarded_write\<close> is the shape of every resource write: validate into one update, or send nothing.
  \<^item> Resources, Pre, Register_Numeric, Register_Data, Register: internal/resourceindex/index.go, counter/counter.go, meter/meter.go, pre/pre.go, register/.
    Instances of \<open>guarded_write\<close>; round trip of replicas; two's complement; normalization of structured data gives its canonical copy (the relation \<open>data_copy\<close> over
    the types of the P4Info), is idempotent and rejects cyclic type declarations.
  \<^item> Supervisor: internal/stream/supervisor.go. The state as a record, one rule of \<open>sup_moves\<close> for each branch of each select and each return of a call; the flag
    \<open>answered\<close> of a step says whether gRPC and the timer may answer: \<open>sup_step\<close> is the relation with answers, \<open>alone\<close> the runs without.
    Invariants by rule induction: a send that returns nil was sent exactly once, in the primary state it was accepted in; graceful close drains
    and never redials. Close ends: a rank bounds the moves of the main loop, and it needs no answer to get to its end. The back-off stays in its bounds and the
    timer within a fifth of it, with the floating-point product of \<open>jitter\<close> computed exactly (\<open>float64\<close>).
  \<^item> Stream_Receive: the receiving goroutine of \<open>serve\<close> interleaved with its main loop: messages in order, each handled in the role the updates before it
    give.
  \<^item> Stream_Dispatch, Packet_IO: client/stream.go, packetio/packetio.go, digest/digest.go. Subscription tables refine the history of registrations
    (locale \<open>slot\<close>); packet metadata round trip; digests.
  \<^item> Session: client/client.go, client/options.go. Options, \<open>Dial\<close> of an address with its wait, \<open>Close\<close>, and \<open>BecomePrimary\<close> interleaved with the supervisor (no
    lost wake-up, and a closed client returns by its own steps).
  \<^item> Cli_Value, Cli_Table, Cli_Config, Cli_Commands, Cli_Json, Cli_Root: cmd/p4ctl. Literals, match flags, commands from the flags to the wire and to their
    output, settings and their JSON codec, transport security, and \<^verbatim>\<open>main\<close>. The surroundings of a command are the record \<open>cli_env\<close>
    and its extensions \<open>cli_session\<close> and \<open>cli_world\<close>, those of the process \<open>cli_process\<close>, where what cobra makes of the command line is
    an \<open>invocation\<close>. Every command is framed by dial and close (locale \<open>framed_command\<close>), and a process whose client is that of Session
    (\<open>client_library\<close>) leaves it closed.
  \<^item> Examples: examples/*/main.go, with the P4Info of examples/testdata.
  \<^item> Mock_Target: internal/testutil/server.go, a concrete target for the parameters above.

  This theory adds the property that spans them: from the options of \<open>Dial\<close> through arbitration to the writes a target records.

  \<^bold>\<open>Parameters.\<close> Code outside the repository is an argument of the definitions that use it: gRPC and the target (each RPC is a function
  of the target's state and the request), protobuf parsing and reflection, \<^verbatim>\<open>status.FromError\<close>, the configuration, JSON, YAML and certificate
  libraries, what cobra makes of a command line, the file system. The order in which Go iterates a map is a parameter or the order of an association list.
  What timers, random numbers, contexts, the network and other goroutines choose is free in the step relations; the poll of \<open>Dial\<close>
  observes a free sequence of supervisor states and events.

  \<^bold>\<open>Loops.\<close> Recursion is structural or has a termination proof, except for two: \<open>recvLoop\<close> and \<open>dialWait\<close> wait for the outside and are
  partial functions, with lemmas saying exactly when they return. The visit of the message graph uses as fuel the number of
  messages plus one, which is shown to suffice; normalization of register data recurses on the set of declarations still unused. The nesting that the
  JSON decoder accepts, 10000 levels as in encoding/json, bounds its recursion.

  \<^bold>\<open>Not modelled.\<close> Logging, metrics and the accessors of gRPC values; the gRPC harness around the mock target; the help texts and flag
  declarations of p4ctl beyond their defaults (data of the cobra library). \<^verbatim>\<open>ToLower\<close> and \<^verbatim>\<open>Fields\<close> are those
  of ASCII text. Values are immutable here, so the copies the code makes to avoid aliasing are identities, and the memory limit of \<^verbatim>\<open>make\<close> is not
  modelled beyond its panic on a negative length.
\<close>

subsection \<open>The client of a session\<close>

text \<open>What the RPCs read of a client: the options of \<open>Dial\<close> and the state of its supervisor.\<close>

definition clientOf :: "'x options \<Rightarrow> Supervisor \<Rightarrow> Client" where
  "clientOf o' s = \<lparr>cl_deviceID = o_deviceID o', cl_electionID = o_electionID o', cl_role = o_role o', cl_primary = IsPrimary s\<rparr>"

text \<open>Controllers dialled with the options \<open>os\<close> write to one target, in any order; \<open>sups\<close> are their supervisors.\<close>

fun writesOn :: "(goerr \<Rightarrow> goerr) \<Rightarrow> from_error \<Rightarrow> unmarshal_any \<Rightarrow> 'x options list \<Rightarrow> (nat \<Rightarrow> Supervisor) \<Rightarrow> (nat \<times> Update list) list \<Rightarrow>
    MockServer \<Rightarrow> MockServer" where
  "writesOn wire fe unmarshal os sups [] m = m"
| "writesOn wire fe unmarshal os sups ((i, us) # ws) m =
     writesOn wire fe unmarshal os sups ws (fst (Client_Write (mock_Write wire) fe unmarshal (clientOf (os ! i) (sups i)) 0 us m))"

lemma writesOn_requests:
  "ms_WriteRequests (writesOn wire fe unmarshal os sups ws m) = ms_WriteRequests m @
     map (\<lambda>(i, us). writeRequest (clientOf (os ! i) (sups i)) 0 us) (filter (\<lambda>(i, us). IsPrimary (sups i) \<and> us \<noteq> []) ws)"
proof (induction ws arbitrary: m)
  case (Cons w ws)
  obtain i us where w: "w = (i, us)" by force
  have "ms_WriteRequests (fst (Client_Write (mock_Write wire) fe unmarshal (clientOf (os ! i) (sups i)) 0 us m)) = ms_WriteRequests m @
      (if IsPrimary (sups i) \<and> us \<noteq> [] then [writeRequest (clientOf (os ! i) (sups i)) 0 us] else [])"
    by (auto simp: Client_Write_def mock_Write_def clientOf_def Let_def split: option.splits)
  with Cons.IH show ?case by (simp add: w)
qed simp

abbreviation dialledConfig :: "'x options \<Rightarrow> Config" where
  "dialledConfig o' \<equiv> sup_defaults (supervisorConfig o')"

text \<open>C2. Mastership from the options of \<open>Dial\<close> to the writes a target sees. Several controllers, dialled with any options that
  \<open>Dial\<close> accepts, arbitrate one after the other with a target, and then write in any order. The target records exactly the non-empty
  writes of the controllers whose election ID is the one it elected, each once, in order, and each with the
  device and election ID of the arbitration of its controller: no write of a backup reaches the
  target, and every write that does carries the elected ID.\<close>

theorem only_elected_writes:
  fixes os :: "'x options list"
  assumes "arbitrate_all (map (\<lambda>o'. arbitrationRequest (dialledConfig o')) os) m = (m', sts)" and "ms_ArbitrationRejection m = None"
    and "\<forall>o'\<in>set os. \<not> IsZero (o_electionID o')" and "\<forall>(i, us)\<in>set ws. i < length os"
  shows "\<exists>reqs. ms_WriteRequests (writesOn wire fe unmarshal os (\<lambda>i. applyArbitration (Some (sts ! i)) (sups i)) ws m') = ms_WriteRequests m' @ reqs \<and>
    map wr_Updates reqs = map snd (filter (\<lambda>(i, us). o_electionID (os ! i) = ms_Primary m' \<and> us \<noteq> []) ws) \<and>
    (\<forall>req\<in>set reqs. wr_ElectionId req = ms_Primary m' \<and>
       (\<exists>o'\<in>set os. wr_DeviceId req = am_DeviceId (arbitrationRequest (dialledConfig o')) \<and> wr_ElectionId req = am_ElectionId (arbitrationRequest (dialledConfig o'))))"
proof -
  let ?sups = "\<lambda>i. applyArbitration (Some (sts ! i)) (sups i)"
  let ?ws = "filter (\<lambda>(i, us). IsPrimary (?sups i) \<and> us \<noteq> []) ws"
  let ?reqs = "map (\<lambda>(i, us). writeRequest (clientOf (os ! i) (?sups i)) 0 us) ?ws"
  have ids: "am_ElectionId (arbitrationRequest (dialledConfig o')) = o_electionID o'"
    "am_DeviceId (arbitrationRequest (dialledConfig o')) = o_deviceID o'" for o' :: "'x options"
    using supervisorConfig_arbitration [of o'] by blast+
  have nz: "\<forall>a\<in>set (map (\<lambda>o'. arbitrationRequest (dialledConfig o')) os). \<not> IsZero (am_ElectionId a)" using assms(3) ids by simp
  note all = arbitrate_all_elects [OF assms(1,2) nz]
  have prim: "IsPrimary (?sups i) \<longleftrightarrow> o_electionID (os ! i) = ms_Primary m'" if "i < length os" for i
    using all that ids by (auto simp: IsPrimary_def)
  have ws: "?ws = filter (\<lambda>(i, us). o_electionID (os ! i) = ms_Primary m' \<and> us \<noteq> []) ws"
    using assms(4) prim by (intro filter_cong) auto
  have upd: "map wr_Updates ?reqs = map snd ?ws" by (auto simp: writeRequest_def)
  have ident: "wr_ElectionId req = ms_Primary m' \<and>
      (\<exists>o'\<in>set os. wr_DeviceId req = am_DeviceId (arbitrationRequest (dialledConfig o')) \<and> wr_ElectionId req = am_ElectionId (arbitrationRequest (dialledConfig o')))"
    if req: "req \<in> set ?reqs" for req
  proof -
    obtain i us where i: "(i, us) \<in> set ws" "IsPrimary (?sups i)" "req = writeRequest (clientOf (os ! i) (?sups i)) 0 us" using req by auto
    then have "i < length os" using assms(4) by auto
    with i(2,3) prim show ?thesis by (auto simp: ids writeRequest_def clientOf_def intro!: bexI [of _ "os ! i"])
  qed
  show ?thesis
  proof (rule exI [of _ ?reqs], intro conjI)
    show "\<forall>req\<in>set ?reqs. wr_ElectionId req = ms_Primary m' \<and>
        (\<exists>o'\<in>set os. wr_DeviceId req = am_DeviceId (arbitrationRequest (dialledConfig o')) \<and> wr_ElectionId req = am_ElectionId (arbitrationRequest (dialledConfig o')))"
      using ident by blast
  qed (use upd in \<open>simp_all only: writesOn_requests ws\<close>)
qed

abbreviation sample_controllers :: "unit options list" where
  "sample_controllers \<equiv> [(WithElectionID (ElectionID 0 7) (WithDeviceID 1 defaultOptions)), (WithElectionID (ElectionID 0 9) (WithDeviceID 1 defaultOptions))]"

theorem only_elected_writes_witness:
  "\<exists>req. ms_WriteRequests (writesOn id no_status code_byte sample_controllers
       (\<lambda>i. applyArbitration (Some (snd (arbitrate_all (map (\<lambda>o'. arbitrationRequest (dialledConfig o')) sample_controllers) NewMockServer) ! i)) sup_New)
       [(1, [TableEntryUpdate UpdateDelete l2_entry]), (0, [TableEntryUpdate UpdateInsert l2_entry])]
       (fst (arbitrate_all (map (\<lambda>o'. arbitrationRequest (dialledConfig o')) sample_controllers) NewMockServer))) = [req] \<and>
     wr_ElectionId req = ElectionID 0 7 \<and> wr_Updates req = [TableEntryUpdate UpdateInsert l2_entry]"
proof -
  let ?run = "arbitrate_all (map (\<lambda>o'. arbitrationRequest (dialledConfig o')) sample_controllers) NewMockServer"
  have run: "arbitrate_all (map (\<lambda>o'. arbitrationRequest (dialledConfig o')) sample_controllers) NewMockServer = (fst ?run, snd ?run)" by simp
  have end_state: "ms_Primary (fst ?run) = ElectionID 0 7" "ms_WriteRequests (fst ?run) = []" by code_simp+
  have ids: "map o_electionID sample_controllers = [ElectionID 0 7, ElectionID 0 9]" by code_simp
  show ?thesis
    using only_elected_writes [OF run, of "[(1, [TableEntryUpdate UpdateDelete l2_entry]), (0, [TableEntryUpdate UpdateInsert l2_entry])]" id no_status code_byte "\<lambda>_. sup_New"]
      end_state ids by (auto simp: NewMockServer_def IsZero_def Cons_eq_map_conv)
qed

end
